(* ===== verification/GoPrelude.thy ===== *)
theory GoPrelude
  imports Complex_Main "HOL-Library.Signed_Division"
begin

text \<open>
  Shared vocabulary of the development: Go's 64-bit integers with the wrap-around
  written out, Go strings as byte lists with the functions of the standard packages
  \<open>strings\<close> and \<open>strconv\<close> that the program calls, results that are an error or a
  value, and the lemma collections the component theories use.
\<close>

named_theorems result_simps "unfolding the error-or-value results of a component"
named_theorems step_defs "definitions of the operations that change a component's state"

subsection \<open>Results\<close>

text \<open>
  A Go function returning \<open>(T, error)\<close> returns a value of \<open>'e + 'a\<close>: \<open>Inl\<close> is the
  non-nil error, \<open>Inr\<close> the value. \<open>bind_res\<close> is the \<open>if err != nil { return err }\<close> idiom.
\<close>

fun bind_res :: "'e + 'a \<Rightarrow> ('a \<Rightarrow> 'e + 'b) \<Rightarrow> 'e + 'b" where
  "bind_res (Inl e) f = Inl e"
| "bind_res (Inr x) f = f x"

fun map_err :: "('e \<Rightarrow> 'f) \<Rightarrow> 'e + 'a \<Rightarrow> 'f + 'a" where
  "map_err g (Inl e) = Inl (g e)"
| "map_err g (Inr x) = Inr x"

fun of_option :: "'e \<Rightarrow> 'a option \<Rightarrow> 'e + 'a" where
  "of_option e None = Inl e"
| "of_option e (Some x) = Inr x"

lemma bind_res_eq_Inr [result_simps]:
  "bind_res r f = Inr y \<longleftrightarrow> (\<exists>x. r = Inr x \<and> f x = Inr y)"
  by (cases r) auto

lemma map_err_eq_Inr [result_simps]: "map_err g r = Inr y \<longleftrightarrow> r = Inr y"
  by (cases r) auto

lemma of_option_eq_Inr [result_simps]: "of_option e r = Inr y \<longleftrightarrow> r = Some y"
  by (cases r) auto

lemma bind_res_eq_Inl:
  "bind_res r f = Inl e \<longleftrightarrow> r = Inl e \<or> (\<exists>x. r = Inr x \<and> f x = Inl e)"
  by (cases r) auto

lemma map_err_eq_Inl: "map_err g r = Inl e \<longleftrightarrow> (\<exists>e'. r = Inl e' \<and> e = g e')"
  by (cases r) auto

lemmas result_Inl = bind_res_eq_Inl map_err_eq_Inl

lemma not_isl_Inr: "\<not> isl r \<Longrightarrow> \<exists>x. r = Inr x"
  by (cases r) auto

lemma bind_res_cong [fundef_cong]:
  "r = r' \<Longrightarrow> (\<And>x. r' = Inr x \<Longrightarrow> f x = g x) \<Longrightarrow> bind_res r f = bind_res r' g"
  by (cases r') auto

lemma not_Inl_iff: "(\<forall>e. r \<noteq> Inl e) \<longleftrightarrow> (\<exists>x. r = Inr x)"
  by (cases r) auto

subsection \<open>64-bit integers\<close>

text \<open>
  \<open>int\<close>, \<open>int64\<close> and \<open>time.Duration\<close> are 64-bit two's complement. They are modelled as
  \<open>int\<close> with the reduction \<open>wrap64\<close> applied wherever the code's arithmetic can leave the
  range. Go's \<open>/\<close> and \<open>%\<close> truncate towards zero: \<open>sdiv\<close> and \<open>smod\<close> of
  HOL-Library.Signed\_Division.
\<close>

abbreviation max_int64 :: int where "max_int64 \<equiv> 9223372036854775807"
abbreviation min_int64 :: int where "min_int64 \<equiv> -9223372036854775808"

definition in_int64 :: "int \<Rightarrow> bool" where
  "in_int64 x \<longleftrightarrow> min_int64 \<le> x \<and> x \<le> max_int64"

definition wrap64 :: "int \<Rightarrow> int" where
  "wrap64 x = (x + 9223372036854775808) mod 18446744073709551616 - 9223372036854775808"

lemma wrap64_id: "in_int64 x \<Longrightarrow> wrap64 x = x"
  by (simp add: wrap64_def in_int64_def)

lemma in_int64_wrap64 [simp]: "in_int64 (wrap64 x)"
proof -
  have "0 \<le> (x + 9223372036854775808) mod 18446744073709551616"
    and "(x + 9223372036854775808) mod 18446744073709551616 < 18446744073709551616"
    by simp_all
  then show ?thesis unfolding wrap64_def in_int64_def by linarith
qed

lemma wrap64_cong: "\<exists>k. wrap64 x = x + k * 18446744073709551616"
proof
  show "wrap64 x = x + (- ((x + 9223372036854775808) div 18446744073709551616)) * 18446744073709551616"
    unfolding wrap64_def using div_mult_mod_eq[of "x + 9223372036854775808" 18446744073709551616]
    by linarith
qed

lemma div_bounds: "0 < (d::int) \<Longrightarrow> d * (x div d) \<le> x \<and> x < d * (x div d) + d"
  using mult_div_mod_eq[of d x] pos_mod_bound[of d x] pos_mod_sign[of d x] by linarith

lemma div_eqI: "d * q \<le> x \<Longrightarrow> x < d * q + d \<Longrightarrow> x div d = (q::int)"
  by (rule int_div_pos_eq[of _ _ _ "x - d * q"]) auto

lemma div_lessI:
  assumes "0 < (d::int)" "x < n * d"
  shows "x div d < n"
proof (rule ccontr)
  assume "\<not> x div d < n"
  then have "d * n \<le> d * (x div d)" using assms(1) by (intro mult_left_mono) auto
  with div_bounds[OF assms(1), of x] assms(2) show False by (simp add: mult.commute)
qed

lemma sdiv_pos: "0 \<le> (a::int) \<Longrightarrow> 0 < b \<Longrightarrow> a sdiv b = a div b"
  by (cases "a = 0") (simp_all add: signed_divide_int_def)

lemma smod_pos: "0 \<le> (a::int) \<Longrightarrow> 0 < b \<Longrightarrow> a smod b = a mod b"
  by (cases "a = 0") (simp_all add: signed_modulo_int_def)

subsection \<open>Strings\<close>

text \<open>
  A Go string is a sequence of bytes: \<open>string\<close>, one \<open>char\<close> a byte. The functions of the
  package \<open>strings\<close> agree with the ASCII definitions below on ASCII input. On other input
  they consult the Unicode tables, which are parameters (fields of \<open>unicode\<close>).
\<close>

record unicode =
  uni_lower :: "string \<Rightarrow> string"  \<comment> \<open>\<open>strings.ToLower\<close> on a string with a non-ASCII byte\<close>
  uni_upper :: "string \<Rightarrow> string"  \<comment> \<open>\<open>strings.ToUpper\<close> on such a string\<close>
  uni_trim :: "string \<Rightarrow> string"   \<comment> \<open>\<open>strings.TrimFunc(s, unicode.IsSpace)\<close> on such a string\<close>
  uni_quote :: "string \<Rightarrow> string"  \<comment> \<open>\<open>strconv.Quote\<close> on such a string\<close>

definition is_ascii :: "char \<Rightarrow> bool" where
  "is_ascii c \<longleftrightarrow> of_char c < (128::nat)"

definition byte :: "char \<Rightarrow> nat" where "byte c = of_char c"

definition ascii_lower :: "char \<Rightarrow> char" where
  "ascii_lower c = (if 65 \<le> byte c \<and> byte c \<le> 90 then char_of (byte c + 32) else c)"

definition ascii_upper :: "char \<Rightarrow> char" where
  "ascii_upper c = (if 97 \<le> byte c \<and> byte c \<le> 122 then char_of (byte c - 32) else c)"

text \<open>An instance for concrete inputs on which the Unicode mappings have nothing to do.\<close>

definition ascii_only :: unicode where
  "ascii_only = \<lparr>uni_lower = (\<lambda>s. s), uni_upper = (\<lambda>s. s), uni_trim = (\<lambda>s. s),
     uni_quote = (\<lambda>s. CHR 0x22 # s @ [CHR 0x22])\<rparr>"

definition to_lower :: "unicode \<Rightarrow> string \<Rightarrow> string" where
  "to_lower U s = (if list_all is_ascii s then map ascii_lower s else uni_lower U s)"

definition to_upper :: "unicode \<Rightarrow> string \<Rightarrow> string" where
  "to_upper U s = (if list_all is_ascii s then map ascii_upper s else uni_upper U s)"

definition ascii_space :: "char \<Rightarrow> bool" where
  "ascii_space c \<longleftrightarrow> byte c = 32 \<or> 9 \<le> byte c \<and> byte c \<le> 13"

definition trim_right :: "string \<Rightarrow> string" where
  "trim_right s = rev (dropWhile ascii_space (rev s))"

text \<open>\<open>strings.TrimSpace\<close>: ASCII space is dropped on both sides; the first non-ASCII byte
  met from either end hands the rest to the Unicode-aware function.\<close>

definition trim_space :: "unicode \<Rightarrow> string \<Rightarrow> string" where
  "trim_space U s =
     (let s1 = dropWhile ascii_space s; s2 = trim_right s1 in
      if s1 = [] then []
      else if \<not> is_ascii (hd s1) then uni_trim U s1
      else if \<not> is_ascii (last s2) then uni_trim U s2
      else s2)"

text \<open>The verb \<open>%q\<close>: \<open>strconv.Quote\<close>.\<close>

definition hex_digit :: "nat \<Rightarrow> char" where
  "hex_digit d = (if d < 10 then char_of (48 + d) else char_of (87 + d))"

definition quote_char :: "char \<Rightarrow> string" where
  "quote_char c =
     (if c = CHR 0x22 \<or> c = CHR 0x5C then [CHR 0x5C, c]
      else if 32 \<le> byte c \<and> byte c < 127 then [c]
      else if byte c = 7 then [CHR 0x5C, CHR ''a''] else if byte c = 8 then [CHR 0x5C, CHR ''b'']
      else if byte c = 12 then [CHR 0x5C, CHR ''f''] else if byte c = 10 then [CHR 0x5C, CHR ''n'']
      else if byte c = 13 then [CHR 0x5C, CHR ''r''] else if byte c = 9 then [CHR 0x5C, CHR ''t'']
      else if byte c = 11 then [CHR 0x5C, CHR ''v'']
      else [CHR 0x5C, CHR ''x'', hex_digit (byte c div 16), hex_digit (byte c mod 16)])"

definition go_quote :: "unicode \<Rightarrow> string \<Rightarrow> string" where
  "go_quote U s = (if list_all is_ascii s then CHR 0x22 # List.maps quote_char s @ [CHR 0x22] else uni_quote U s)"

definition contains_char :: "char \<Rightarrow> string \<Rightarrow> bool" where
  "contains_char c s \<longleftrightarrow> c \<in> set s"

fun has_prefix :: "string \<Rightarrow> string \<Rightarrow> bool" where
  "has_prefix s [] = True"
| "has_prefix [] (p # ps) = False"
| "has_prefix (c # s) (p # ps) = (c = p \<and> has_prefix s ps)"

definition trim_prefix :: "string \<Rightarrow> string \<Rightarrow> string" where
  "trim_prefix s p = (if has_prefix s p then drop (length p) s else s)"

text \<open>\<open>strings.Split\<close> and \<open>strings.Join\<close> for a one-byte separator.\<close>

fun split_on :: "char \<Rightarrow> string \<Rightarrow> string list" where
  "split_on c [] = [[]]"
| "split_on c (x # xs) =
     (if x = c then [] # split_on c xs
      else (case split_on c xs of [] \<Rightarrow> [[x]] | y # ys \<Rightarrow> (x # y) # ys))"

fun join_with :: "string \<Rightarrow> string list \<Rightarrow> string" where
  "join_with sep [] = []"
| "join_with sep [s] = s"
| "join_with sep (s # t # ts) = s @ sep @ join_with sep (t # ts)"

definition replace_char :: "char \<Rightarrow> char \<Rightarrow> string \<Rightarrow> string" where
  "replace_char a b s = map (\<lambda>c. if c = a then b else c) s"

text \<open>\<open>strings.IndexByte\<close>, returned as the text before and after the byte.\<close>

fun cut_at :: "char \<Rightarrow> string \<Rightarrow> (string \<times> string) option" where
  "cut_at c [] = None"
| "cut_at c (x # xs) =
     (if x = c then Some ([], xs)
      else (case cut_at c xs of None \<Rightarrow> None | Some (l, r) \<Rightarrow> Some (x # l, r)))"

lemma split_on_neq_Nil [simp]: "split_on c s \<noteq> []"
  by (induction s) (auto split: list.splits)

lemma join_with_Cons: "ts \<noteq> [] \<Longrightarrow> join_with sep (s # ts) = s @ sep @ join_with sep ts"
  by (cases ts) auto

lemma join_split: "join_with [c] (split_on c s) = s"
proof (induction s)
  case (Cons x xs)
  then show ?case
  proof (cases "split_on c xs")
    case (Cons y ys)
    with Cons.IH show ?thesis by (cases ys) auto
  qed simp
qed simp

lemma split_on_no_sep: "c \<notin> set s \<Longrightarrow> split_on c s = [s]"
  by (induction s) auto

lemma split_on_append: "c \<notin> set s \<Longrightarrow> split_on c (s @ c # t) = s # split_on c t"
  by (induction s) auto

lemma split_join:
  "ss \<noteq> [] \<Longrightarrow> \<forall>s\<in>set ss. c \<notin> set s \<Longrightarrow> split_on c (join_with [c] ss) = ss"
  by (induction "[c]" ss rule: join_with.induct) (auto simp: split_on_no_sep split_on_append)

lemma length_split_on: "length (split_on c s) = Suc (count_list s c)"
  by (induction s) (auto split: list.splits)

lemma split_on_elem_no_sep: "p \<in> set (split_on c s) \<Longrightarrow> c \<notin> set p"
  by (induction s arbitrary: p) (auto split: list.splits if_splits)

lemma has_prefix_iff: "has_prefix s p \<longleftrightarrow> (\<exists>t. s = p @ t)"
  by (induction s p rule: has_prefix.induct) auto

lemma cut_at_Some: "cut_at c s = Some (l, r) \<longleftrightarrow> s = l @ c # r \<and> c \<notin> set l"
proof (induction s arbitrary: l)
  case (Cons x xs)
  show ?case
  proof (cases l)
    case Nil
    then show ?thesis by (auto split: option.splits)
  next
    case (Cons y ys)
    then show ?thesis using Cons.IH[of ys] by (auto split: option.splits)
  qed
qed simp

lemma cut_at_None: "cut_at c s = None \<longleftrightarrow> c \<notin> set s"
  by (induction s) (auto split: option.splits)

subsection \<open>Decimal integers\<close>

definition is_digit :: "char \<Rightarrow> bool" where
  "is_digit c \<longleftrightarrow> 48 \<le> byte c \<and> byte c \<le> 57"

definition digit_val :: "char \<Rightarrow> int" where
  "digit_val c = int (byte c) - 48"

definition digits_val :: "string \<Rightarrow> int" where
  "digits_val ds = foldl (\<lambda>a c. 10 * a + digit_val c) 0 ds"

text \<open>\<open>strconv.Atoi\<close>: an optional sign and decimal digits within the range of a 64-bit
  \<open>int\<close>; \<open>None\<close> is the syntax or range error.\<close>

definition atoi :: "string \<Rightarrow> int option" where
  "atoi s =
     (let neg = (s \<noteq> [] \<and> hd s = CHR ''-'');
          ds = (if s \<noteq> [] \<and> (hd s = CHR ''-'' \<or> hd s = CHR ''+'') then tl s else s);
          v = (if neg then - digits_val ds else digits_val ds)
      in if ds = [] \<or> \<not> list_all is_digit ds then None
         else if in_int64 v then Some v else None)"

text \<open>\<open>strconv.Itoa\<close> on a non-negative number.\<close>

definition digit_char :: "nat \<Rightarrow> char" where "digit_char d = char_of (48 + d)"

fun nat_to_string :: "nat \<Rightarrow> string" where
  "nat_to_string n = (if n < 10 then [digit_char n] else nat_to_string (n div 10) @ [digit_char (n mod 10)])"

definition int_to_string :: "int \<Rightarrow> string" where
  "int_to_string n = (if n < 0 then CHR ''-'' # nat_to_string (nat (- n)) else nat_to_string (nat n))"

declare nat_to_string.simps [simp del]

lemma byte_digit_char [simp]: "d < 10 \<Longrightarrow> byte (digit_char d) = 48 + d"
  by (simp add: byte_def digit_char_def of_char_of)

lemma is_digit_digit_char [simp]: "d < 10 \<Longrightarrow> is_digit (digit_char d)"
  by (simp add: is_digit_def)

lemma digit_val_digit_char [simp]: "d < 10 \<Longrightarrow> digit_val (digit_char d) = int d"
  by (simp add: digit_val_def)

lemma digits_val_snoc: "digits_val (ds @ [c]) = 10 * digits_val ds + digit_val c"
  by (simp add: digits_val_def)

lemma digits_nat_to_string [simp]: "list_all is_digit (nat_to_string n)"
proof (induction n rule: nat_to_string.induct)
  case (1 n)
  then show ?case by (subst nat_to_string.simps) simp
qed

lemma nat_to_string_neq_Nil [simp]: "nat_to_string n \<noteq> []"
  by (subst nat_to_string.simps) simp

lemma digits_val_nat_to_string [simp]: "digits_val (nat_to_string n) = int n"
proof (induction n rule: nat_to_string.induct)
  case (1 n)
  show ?case
  proof (cases "n < 10")
    case True
    then show ?thesis by (subst nat_to_string.simps) (simp add: digits_val_def)
  next
    case False
    with 1 show ?thesis
      by (subst nat_to_string.simps)
        (simp add: digits_val_snoc del: nat_to_string.simps, presburger)
  qed
qed

lemma digits_val_nonneg: "list_all is_digit ds \<Longrightarrow> 0 \<le> digits_val ds"
  by (induction ds rule: rev_induct)
    (auto simp: digits_val_snoc digit_val_def is_digit_def digits_val_def)

lemma hd_nat_to_string_digit: "is_digit (hd (nat_to_string n))"
  using digits_nat_to_string[of n] nat_to_string_neq_Nil[of n]
  by (cases "nat_to_string n") auto

lemma is_digit_not_sign: "is_digit c \<Longrightarrow> c \<noteq> CHR ''-'' \<and> c \<noteq> CHR ''+''"
  by (auto simp: is_digit_def byte_def)

lemma atoi_nat_to_string: "int n \<le> max_int64 \<Longrightarrow> atoi (nat_to_string n) = Some (int n)"
  using is_digit_not_sign[OF hd_nat_to_string_digit[of n]]
  by (simp add: atoi_def Let_def in_int64_def)

lemma atoi_in_int64: "atoi s = Some v \<Longrightarrow> in_int64 v"
  by (auto simp: atoi_def Let_def split: if_splits)

end
