(* ===== verification/GoFloat.thy ===== *)
theory GoFloat
  imports GoPrelude "HOL-Library.Log_Nat"
begin

text \<open>
  Go's \<open>float64\<close>: IEEE 754 binary64 with one NaN. A finite number other than the negative zero is
  its rational value, the arithmetic rounds the exact rational result to the nearest number with a
  53-bit significand and an exponent of at least \<open>-1074\<close>, ties to even, and overflows at
  \<open>2 ^ 1024\<close>. Multiplication and addition are never fused (Go does not fuse them on amd64).
\<close>

subsection \<open>Rounding\<close>

abbreviation pw2 :: "int \<Rightarrow> rat" where "pw2 e \<equiv> 2 powi e"

definition rne :: "rat \<Rightarrow> int" where
  "rne q = (let f = \<lfloor>q\<rfloor>; r = q - of_int f in
     if r < 1/2 then f else if r > 1/2 then f + 1 else if even f then f else f + 1)"

definition ilog2 :: "rat \<Rightarrow> int" where
  "ilog2 q = (let (n, d) = quotient_of q; k = bitlen n - bitlen d in if pw2 k \<le> q then k else k - 1)"

definition ulp_exp :: "rat \<Rightarrow> int" where
  "ulp_exp q = max (ilog2 \<bar>q\<bar> - 52) (- 1074)"

definition rnd :: "rat \<Rightarrow> rat" where
  "rnd q = (if q = 0 then 0 else let e = ulp_exp q in of_int (rne (q / pw2 e)) * pw2 e)"

lemma pw2_pos [simp]: "0 < pw2 e"
  by simp

lemma pw2_add: "pw2 (a + b) = pw2 a * pw2 b"
  by (simp add: power_int_add)

lemma pw2_diff: "pw2 (a - b) = pw2 a / pw2 b"
  by (simp add: power_int_diff)

lemma pw2_mono: "a \<le> b \<Longrightarrow> pw2 a \<le> pw2 b"
  by (simp add: power_int_increasing)

lemma pw2_less_cancel: "pw2 a < pw2 b \<Longrightarrow> a < b"
  using pw2_mono[of b a] by linarith

lemma pw2_of_int: "0 \<le> e \<Longrightarrow> pw2 e = of_int (2 ^ nat e)"
  by (simp add: power_int_def)

lemma rne_cases:
  "(rne q = \<lfloor>q\<rfloor> \<and> q - of_int \<lfloor>q\<rfloor> \<le> 1/2) \<or> (rne q = \<lfloor>q\<rfloor> + 1 \<and> q - of_int \<lfloor>q\<rfloor> \<ge> 1/2)"
  by (auto simp: rne_def Let_def)

lemma rne_of_int [simp]: "rne (of_int n) = n"
  by (simp add: rne_def Let_def)

lemma rne_mono:
  assumes "p \<le> q" shows "rne p \<le> rne q"
proof (cases "\<lfloor>p\<rfloor> = \<lfloor>q\<rfloor>")
  case True
  then show ?thesis using assms by (auto simp: rne_def Let_def)
next
  case False
  then have "\<lfloor>p\<rfloor> + 1 \<le> \<lfloor>q\<rfloor>" using floor_mono[OF assms] by linarith
  then show ?thesis using rne_cases[of p] rne_cases[of q] by auto
qed

lemma rne_error: "\<bar>of_int (rne q) - q\<bar> \<le> 1/2"
proof -
  have "of_int \<lfloor>q\<rfloor> \<le> q" "q < of_int \<lfloor>q\<rfloor> + 1" by linarith+
  then show ?thesis using rne_cases[of q] by (auto simp: abs_le_iff)
qed

lemma rne_ge: "of_int n \<le> q \<Longrightarrow> n \<le> rne q" and rne_le: "q \<le> of_int n \<Longrightarrow> rne q \<le> n"
  using rne_mono[of "of_int n" q] rne_mono[of q "of_int n"] by simp_all

lemma rne_uminus: "rne (- q) = - rne q"
proof (cases "q = of_int \<lfloor>q\<rfloor>")
  case True
  then show ?thesis by (metis of_int_minus rne_of_int)
next
  case False
  then have l: "of_int \<lfloor>q\<rfloor> < q" "q < of_int \<lfloor>q\<rfloor> + 1" by linarith+
  then have c: "\<lfloor>- q\<rfloor> = - \<lfloor>q\<rfloor> - 1" by (intro floor_unique) auto
  have "- q - of_int \<lfloor>- q\<rfloor> = 1 - (q - of_int \<lfloor>q\<rfloor>)" by (simp add: c)
  then show ?thesis by (auto simp: rne_def Let_def c)
qed

lemma ilog2_bounds:
  assumes "0 < q"
  shows "pw2 (ilog2 q) \<le> q" "q < pw2 (ilog2 q + 1)"
proof -
  obtain n d where nd: "quotient_of q = (n, d)" by fastforce
  then have d: "0 < d" and q: "q = of_int n / of_int d"
    using quotient_of_denom_pos quotient_of_div by auto
  then have n: "0 < n" using assms by (simp add: zero_less_divide_iff)
  have b: "pw2 (bitlen x - 1) \<le> of_int x \<and> of_int x < pw2 (bitlen x)" if "0 < x" for x
  proof -
    have "0 < bitlen x" using that bitlen_nonneg[of x] by (simp add: bitlen_alt_def add_pos_nonneg)
    moreover have "2 ^ nat (bitlen x - 1) \<le> x" "x < 2 ^ nat (bitlen x)" using bitlen_bounds[OF that] by auto
    then have "of_int (2 ^ nat (bitlen x - 1)) \<le> (of_int x :: rat)" "(of_int x :: rat) < of_int (2 ^ nat (bitlen x))"
      by (simp_all only: of_int_le_iff of_int_less_iff)
    ultimately show ?thesis by (simp add: power_int_def)
  qed
  define k where "k = bitlen n - bitlen d"
  have up: "q < pw2 (k + 1)"
  proof -
    have "of_int n * pw2 (bitlen d - 1) < pw2 (bitlen n) * (of_int d :: rat)"
      using b[OF n] b[OF d] n by (intro mult_less_le_imp_less) auto
    also have "\<dots> = pw2 (k + 1) * of_int d * pw2 (bitlen d - 1)"
      using pw2_add[of "k + 1" "bitlen d - 1"] by (simp add: k_def)
    finally have "of_int n < pw2 (k + 1) * (of_int d :: rat)" by (simp only: mult_less_cancel_right_pos pw2_pos)
    then show ?thesis using d by (simp add: q divide_less_eq)
  qed
  have lo: "pw2 (k - 1) \<le> q"
  proof -
    have "pw2 (k - 1) * of_int d * pw2 (bitlen d) = pw2 (bitlen n - 1) * (of_int d :: rat)"
      using pw2_add[of "k - 1" "bitlen d"] by (simp add: k_def)
    also have "\<dots> \<le> of_int n * pw2 (bitlen d)"
      using b[OF n] b[OF d] n d by (intro mult_mono) auto
    finally have "pw2 (k - 1) * (of_int d :: rat) \<le> of_int n" by (simp only: mult_le_cancel_right_pos pw2_pos)
    then show ?thesis using d by (simp add: q le_divide_eq)
  qed
  show "pw2 (ilog2 q) \<le> q" "q < pw2 (ilog2 q + 1)"
    using up lo by (auto simp: ilog2_def nd k_def Let_def)
qed

lemma ilog2_unique:
  assumes "pw2 k \<le> q" "q < pw2 (k + 1)" shows "ilog2 q = k"
proof -
  have "0 < q" using assms(1) pw2_pos[of k] by linarith
  note b = ilog2_bounds[OF this]
  have "k < ilog2 q + 1" "ilog2 q < k + 1"
    using le_less_trans[OF assms(1) b(2)] le_less_trans[OF b(1) assms(2)] by (simp_all only: pw2_less_cancel)
  then show ?thesis by linarith
qed

lemma ilog2_mono:
  assumes "0 < p" "p \<le> q" shows "ilog2 p \<le> ilog2 q"
proof -
  have "pw2 (ilog2 p) < pw2 (ilog2 q + 1)"
    using ilog2_bounds[of p] ilog2_bounds[of q] assms by linarith
  then show ?thesis using pw2_less_cancel by fastforce
qed

lemma ulp_exp_uminus [simp]: "ulp_exp (- q) = ulp_exp q"
  by (simp add: ulp_exp_def)

lemma rnd_0 [simp]: "rnd 0 = 0"
  by (simp add: rnd_def)

lemma rnd_uminus: "rnd (- q) = - rnd q"
  by (simp add: rnd_def Let_def rne_uminus flip: minus_divide_left)

lemma ulp_exp_mono: "0 < p \<Longrightarrow> p \<le> q \<Longrightarrow> ulp_exp p \<le> ulp_exp q"
  using ilog2_mono[of p q] by (simp add: ulp_exp_def)

text \<open>Rounding does not cross a number of the grid.\<close>

lemma grid_split:
  assumes "e \<le> e'" shows "of_int k * pw2 e' = of_int (k * 2 ^ nat (e' - e)) * pw2 e"
proof -
  have "pw2 e' = pw2 (e' - e) * pw2 e" by (simp add: power_int_add[symmetric])
  then show ?thesis using assms by (simp add: pw2_of_int)
qed

lemma rnd_ge_grid:
  assumes "of_int k * pw2 e \<le> q" "ulp_exp q \<le> e" shows "of_int k * pw2 e \<le> rnd q"
proof (cases "q = 0")
  case False
  let ?u = "ulp_exp q"
  have "of_int (k * 2 ^ nat (e - ?u)) \<le> q / pw2 ?u"
    using assms(1) grid_split[OF assms(2), of k] by (simp only: le_divide_eq pw2_pos if_True)
  then have "of_int (k * 2 ^ nat (e - ?u)) * pw2 ?u \<le> of_int (rne (q / pw2 ?u)) * pw2 ?u"
    by (intro mult_right_mono) (simp_all only: of_int_le_iff rne_ge less_imp_le[OF pw2_pos])
  then show ?thesis using False grid_split[OF assms(2), of k] by (simp only: rnd_def Let_def if_False)
qed (use assms in simp)

lemma rnd_le_grid:
  assumes "q \<le> of_int k * pw2 e" "ulp_exp q \<le> e" shows "rnd q \<le> of_int k * pw2 e"
  using rnd_ge_grid[of "- k" e "- q"] assms by (simp add: rnd_uminus)

lemma rnd_mono_pos:
  assumes "0 < p" "p \<le> q" shows "rnd p \<le> rnd q"
proof (cases "ulp_exp p = ulp_exp q")
  case True
  have "p / pw2 (ulp_exp q) \<le> q / pw2 (ulp_exp q)" using assms by (intro divide_right_mono) auto
  then show ?thesis using assms True by (simp add: rnd_def Let_def rne_mono)
next
  case False
  then have less: "ulp_exp p < ulp_exp q" using ulp_exp_mono[OF assms] by linarith
  define L where "L = ilog2 q"
  have e: "ulp_exp q = L - 52" "ilog2 p + 1 \<le> L"
    using less assms by (auto simp: ulp_exp_def L_def max_def split: if_splits)
  have "p < pw2 (ilog2 p + 1)" using ilog2_bounds assms by blast
  also have "\<dots> \<le> of_int 1 * pw2 L" using pw2_mono[OF e(2)] by simp
  finally have "rnd p \<le> of_int 1 * pw2 L" using less e by (intro rnd_le_grid) auto
  also have "\<dots> \<le> rnd q" using ilog2_bounds(1)[of q] assms e by (intro rnd_ge_grid) (auto simp: L_def)
  finally show ?thesis .
qed

lemma rnd_nonneg: "0 \<le> q \<Longrightarrow> 0 \<le> rnd q"
  using rne_ge[of 0 "q / pw2 (ulp_exp q)"] by (simp add: rnd_def Let_def)

lemma rnd_mono:
  assumes "p \<le> q" shows "rnd p \<le> rnd q"
proof -
  consider "0 < p" | "p \<le> 0" "0 \<le> q" | "q < 0" by linarith
  then show ?thesis
  proof cases
    case 1 then show ?thesis using rnd_mono_pos assms by blast
  next
    case 2
    then have "0 \<le> rnd (- p)" "0 \<le> rnd q" by (simp_all add: rnd_nonneg)
    then show ?thesis by (simp add: rnd_uminus)
  next
    case 3 then show ?thesis using rnd_mono_pos[of "- q" "- p"] assms by (simp add: rnd_uminus)
  qed
qed

lemma rnd_exact_less:
  assumes "\<bar>m\<bar> < 2 ^ 53" "- 1074 \<le> e" shows "rnd (of_int m * pw2 e) = of_int m * pw2 e"
proof (cases "m = 0")
  case False
  let ?q = "of_int m * pw2 e"
  have "of_int \<bar>m\<bar> < (of_int (2 ^ 53) :: rat)" using assms(1) by (simp only: of_int_less_iff)
  then have "\<bar>?q\<bar> < pw2 53 * pw2 e" by (simp add: abs_mult)
  moreover have "0 < \<bar>?q\<bar>" using False by simp
  ultimately have "pw2 (ilog2 \<bar>?q\<bar>) < pw2 (53 + e)"
    using ilog2_bounds(1) by (simp only: pw2_add) (rule le_less_trans)
  then have "ulp_exp ?q \<le> e" using pw2_less_cancel assms(2) by (fastforce simp: ulp_exp_def)
  then show ?thesis using rnd_ge_grid[of m e ?q] rnd_le_grid[of ?q m e] by simp
qed simp

lemma rnd_exact:
  assumes "\<bar>m\<bar> \<le> 2 ^ 53" "- 1074 \<le> e" shows "rnd (of_int m * pw2 e) = of_int m * pw2 e"
proof (cases "\<bar>m\<bar> < 2 ^ 53")
  case False
  then have "m = sgn m * 2 * 2 ^ 52" using assms(1) by (cases "m < 0") auto
  then have "of_int m * pw2 e = of_int (sgn m * 2 ^ 52) * pw2 (e + 1)" using pw2_add[of e 1] by simp
  then show ?thesis using rnd_exact_less[of "sgn m * 2 ^ 52" "e + 1"] assms(2) by (simp add: abs_mult)
qed (rule rnd_exact_less[OF _ assms(2)])

lemma rnd_of_int: "\<bar>m\<bar> \<le> 2 ^ 53 \<Longrightarrow> rnd (of_int m) = of_int m"
  using rnd_exact[of m 0] by simp

subsection \<open>Numbers\<close>

datatype f64 = NaN | PosInf | NegInf | NegZero | Fin rat

fun fval :: "f64 \<Rightarrow> rat" where
  "fval (Fin q) = q"
| "fval _ = 0"

definition is_inf :: "f64 \<Rightarrow> bool" where "is_inf x \<longleftrightarrow> x = PosInf \<or> x = NegInf"

definition signbit :: "f64 \<Rightarrow> bool" where
  "signbit x \<longleftrightarrow> x = NegInf \<or> x = NegZero \<or> fval x < 0"

definition overflow :: rat where "overflow = of_int ((2 ^ 32) ^ 32)"  \<comment> \<open>\<open>2 ^ 1024\<close>\<close>

definition round_to :: "bool \<Rightarrow> rat \<Rightarrow> f64" where
  "round_to neg q = (let r = rnd q in
     if overflow \<le> r then PosInf else if r \<le> - overflow then NegInf
     else if r = 0 then (if neg then NegZero else Fin 0) else Fin r)"

text \<open>A number of the format, as opposed to an arbitrary rational.\<close>

definition f64_ok :: "f64 \<Rightarrow> bool" where
  "f64_ok x \<longleftrightarrow> rnd (fval x) = fval x \<and> \<bar>fval x\<bar> < overflow"

definition f_of_int :: "int \<Rightarrow> f64" where "f_of_int n = round_to False (of_int n)"

subsection \<open>Comparison\<close>

definition flt :: "f64 \<Rightarrow> f64 \<Rightarrow> bool" where
  "flt x y \<longleftrightarrow> x \<noteq> NaN \<and> y \<noteq> NaN \<and>
     (if x = PosInf \<or> y = NegInf then False else if x = NegInf \<or> y = PosInf then True else fval x < fval y)"

definition feq :: "f64 \<Rightarrow> f64 \<Rightarrow> bool" where
  "feq x y \<longleftrightarrow> x \<noteq> NaN \<and> y \<noteq> NaN \<and> (if is_inf x \<or> is_inf y then x = y else fval x = fval y)"

definition fle :: "f64 \<Rightarrow> f64 \<Rightarrow> bool" where "fle x y \<longleftrightarrow> flt x y \<or> feq x y"

abbreviation fgt :: "f64 \<Rightarrow> f64 \<Rightarrow> bool" where "fgt x y \<equiv> flt y x"
abbreviation fge :: "f64 \<Rightarrow> f64 \<Rightarrow> bool" where "fge x y \<equiv> fle y x"

subsection \<open>Arithmetic\<close>

fun fneg :: "f64 \<Rightarrow> f64" where
  "fneg NaN = NaN"
| "fneg PosInf = NegInf"
| "fneg NegInf = PosInf"
| "fneg NegZero = Fin 0"
| "fneg (Fin q) = (if q = 0 then NegZero else Fin (- q))"

definition fadd :: "f64 \<Rightarrow> f64 \<Rightarrow> f64" where
  "fadd x y =
     (if x = NaN \<or> y = NaN then NaN
      else if is_inf x then (if is_inf y \<and> y \<noteq> x then NaN else x)
      else if is_inf y then y
      else let s = fval x + fval y in
        if s = 0 then (if x = NegZero \<and> y = NegZero then NegZero else Fin 0) else round_to (s < 0) s)"

definition fsub :: "f64 \<Rightarrow> f64 \<Rightarrow> f64" where "fsub x y = fadd x (fneg y)"

definition fmul :: "f64 \<Rightarrow> f64 \<Rightarrow> f64" where
  "fmul x y =
     (let neg = (signbit x \<noteq> signbit y) in
      if x = NaN \<or> y = NaN then NaN
      else if is_inf x \<or> is_inf y then
        (if feq x (Fin 0) \<or> feq y (Fin 0) then NaN else if neg then NegInf else PosInf)
      else round_to neg (fval x * fval y))"

definition fdiv :: "f64 \<Rightarrow> f64 \<Rightarrow> f64" where
  "fdiv x y =
     (let neg = (signbit x \<noteq> signbit y) in
      if x = NaN \<or> y = NaN \<or> is_inf x \<and> is_inf y then NaN
      else if is_inf x then (if neg then NegInf else PosInf)
      else if is_inf y then (if neg then NegZero else Fin 0)
      else if fval y = 0 then (if fval x = 0 then NaN else if neg then NegInf else PosInf)
      else round_to neg (fval x / fval y))"

subsection \<open>The package \<open>math\<close>\<close>

definition fabs :: "f64 \<Rightarrow> f64" where "fabs x = (if signbit x then fneg x else x)"

definition with_sign :: "f64 \<Rightarrow> int \<Rightarrow> f64" where
  "with_sign x n = (if n = 0 then (if signbit x then NegZero else Fin 0) else Fin (of_int n))"

definition ffloor :: "f64 \<Rightarrow> f64" where
  "ffloor x = (if x = NaN \<or> is_inf x then x else with_sign x \<lfloor>fval x\<rfloor>)"

definition fceil :: "f64 \<Rightarrow> f64" where
  "fceil x = (if x = NaN \<or> is_inf x then x else with_sign x \<lceil>fval x\<rceil>)"

definition round_half_away :: "rat \<Rightarrow> int" where
  "round_half_away q = (if q < 0 then - \<lfloor>- q + 1/2\<rfloor> else \<lfloor>q + 1/2\<rfloor>)"

definition fround :: "f64 \<Rightarrow> f64" where
  "fround x = (if x = NaN \<or> is_inf x then x else with_sign x (round_half_away (fval x)))"

definition fmin :: "f64 \<Rightarrow> f64 \<Rightarrow> f64" where
  "fmin x y =
     (if x = NegInf \<or> y = NegInf then NegInf
      else if x = NaN \<or> y = NaN then NaN
      else if feq x (Fin 0) \<and> feq x y then (if signbit x then x else y)
      else if flt x y then x else y)"

definition fmax :: "f64 \<Rightarrow> f64 \<Rightarrow> f64" where
  "fmax x y =
     (if x = PosInf \<or> y = PosInf then PosInf
      else if x = NaN \<or> y = NaN then NaN
      else if feq x (Fin 0) \<and> feq x y then (if signbit x then y else x)
      else if flt y x then x else y)"

text \<open>\<open>math.Mod\<close>: the remainder of the truncated quotient, with the sign of the dividend.\<close>

definition rat_trunc :: "rat \<Rightarrow> int" where "rat_trunc q = (if q < 0 then \<lceil>q\<rceil> else \<lfloor>q\<rfloor>)"

definition fmod :: "f64 \<Rightarrow> f64 \<Rightarrow> f64" where
  "fmod x y =
     (if x = NaN \<or> y = NaN \<or> is_inf x \<or> feq y (Fin 0) then NaN
      else if is_inf y then x
      else let r = fval x - fval y * of_int (rat_trunc (fval x / fval y))
        in if r = 0 then (if signbit x then NegZero else Fin 0) else Fin r)"

text \<open>A constant of the source: the nearest number.\<close>

definition f_const :: "rat \<Rightarrow> f64" where "f_const q = Fin (rnd q)"

text \<open>Conversion to an integer truncates. A value outside the range is converted in a way that
  depends on the processor: the parameter \<open>oob\<close>.\<close>

definition to_int64 :: "(f64 \<Rightarrow> int) \<Rightarrow> f64 \<Rightarrow> int" where
  "to_int64 oob x = (if x \<noteq> NaN \<and> \<not> is_inf x \<and> in_int64 (rat_trunc (fval x)) then rat_trunc (fval x) else oob x)"

text \<open>amd64 converts every such value to the smallest integer.\<close>

definition amd64_oob :: "f64 \<Rightarrow> int" where "amd64_oob _ = - 9223372036854775808"

subsection \<open>\<open>strconv.ParseFloat\<close>\<close>

text \<open>
  Decimal and hexadecimal literals, \<open>inf\<close>, \<open>infinity\<close> and \<open>nan\<close> in any case. The value is the
  exact number of the literal, correctly rounded; a literal that overflows is an error, like a
  malformed one (\<open>None\<close>).
\<close>

definition hex_val :: "char \<Rightarrow> int option" where
  "hex_val c =
     (if is_digit c then Some (digit_val c)
      else let l = byte (ascii_lower c) in if 97 \<le> l \<and> l \<le> 102 then Some (int l - 87) else None)"

definition mant_digit :: "bool \<Rightarrow> char \<Rightarrow> int option" where
  "mant_digit hex c = (if hex then hex_val c else if is_digit c then Some (digit_val c) else None)"

text \<open>The mantissa: digits with at most one dot; its value as an integer, the number of digits
  after the dot, whether there was a digit, and the rest of the input.\<close>

fun scan_mantissa :: "bool \<Rightarrow> bool \<Rightarrow> string \<Rightarrow> int \<Rightarrow> nat \<Rightarrow> bool \<Rightarrow> int \<times> nat \<times> bool \<times> string" where
  "scan_mantissa hex dot [] m f seen = (m, f, seen, [])"
| "scan_mantissa hex dot (c # cs) m f seen =
     (if c = CHR ''_'' then scan_mantissa hex dot cs m f seen
      else if c = CHR ''.'' then
        (if dot then (m, f, seen, c # cs) else scan_mantissa hex True cs m f seen)
      else case mant_digit hex c of
          Some d \<Rightarrow> scan_mantissa hex dot cs ((if hex then 16 else 10) * m + d) (if dot then f + 1 else f) True
        | None \<Rightarrow> (m, f, seen, c # cs))"

text \<open>The exponent's digits stop counting at five: a larger one is out of range anyway.\<close>

fun scan_exponent :: "string \<Rightarrow> int \<Rightarrow> int \<times> string" where
  "scan_exponent [] e = (e, [])"
| "scan_exponent (c # cs) e =
     (if c = CHR ''_'' then scan_exponent cs e
      else if is_digit c then scan_exponent cs (if e < 10000 then 10 * e + digit_val c else e)
      else (e, c # cs))"

datatype last_seen = Start | Digit | Underscore | Other

fun underscore_scan :: "bool \<Rightarrow> last_seen \<Rightarrow> string \<Rightarrow> bool" where
  "underscore_scan hex i [] = (i \<noteq> Underscore)"
| "underscore_scan hex i (c # cs) =
     (if mant_digit hex c \<noteq> None then underscore_scan hex Digit cs
      else if c = CHR ''_'' then i = Digit \<and> underscore_scan hex Underscore cs
      else i \<noteq> Underscore \<and> underscore_scan hex Other cs)"

definition cut_sign :: "string \<Rightarrow> bool \<times> string" where
  "cut_sign s = (case s of c # cs \<Rightarrow> if c = CHR ''-'' then (True, cs) else if c = CHR ''+'' then (False, cs)
     else (False, s) | [] \<Rightarrow> (False, []))"

definition underscore_ok :: "string \<Rightarrow> bool" where
  "underscore_ok s =
     (case snd (cut_sign s) of
        z # b # cs \<Rightarrow>
          if z = CHR ''0'' \<and> ascii_lower b \<in> {CHR ''b'', CHR ''o'', CHR ''x''}
          then underscore_scan (ascii_lower b = CHR ''x'') Digit cs
          else underscore_scan False Start (z # b # cs)
      | t \<Rightarrow> underscore_scan False Start t)"

definition read_exponent :: "bool \<Rightarrow> string \<Rightarrow> int option" where
  "read_exponent hex t =
     (case t of
        [] \<Rightarrow> if hex then None else Some 0
      | c # cs \<Rightarrow>
          if ascii_lower c \<noteq> (if hex then CHR ''p'' else CHR ''e'') then None
          else let (neg, ds) = cut_sign cs in
            if ds = [] \<or> \<not> is_digit (hd ds) then None
            else let (e, rest) = scan_exponent ds 0 in
              if rest \<noteq> [] then None else Some (if neg then - e else e))"

definition read_number :: "string \<Rightarrow> f64 option" where
  "read_number s =
     (let (neg, t) = cut_sign s;
          hex = (length t > 2 \<and> hd t = CHR ''0'' \<and> ascii_lower (t ! 1) = CHR ''x'');
          (m, f, seen, rest) = scan_mantissa hex False (if hex then drop 2 t else t) 0 0 False
      in if \<not> seen then None
         else case read_exponent hex rest of
             None \<Rightarrow> None
           | Some e \<Rightarrow>
               if CHR ''_'' \<in> set s \<and> \<not> underscore_ok s then None
               else let v = of_int m * (if hex then 2 else 10) powi (e - (if hex then 4 else 1) * int f);
                        x = round_to neg (if neg then - v else v)
                    in if is_inf x then None else Some x)"

definition parse_float :: "string \<Rightarrow> f64 option" where
  "parse_float s =
     (let (neg, t) = cut_sign s; w = List.map ascii_lower t in
      if w = ''inf'' \<or> w = ''infinity'' then Some (if neg then NegInf else PosInf)
      else if List.map ascii_lower s = ''nan'' then Some NaN
      else read_number s)"

subsection \<open>Lemmas on the arithmetic\<close>

lemma rnd_bounds:
  assumes "rnd a = a" "rnd b = b" "a \<le> q" "q \<le> b" shows "a \<le> rnd q" "rnd q \<le> b"
  using rnd_mono[OF assms(3)] rnd_mono[OF assms(4)] assms(1,2) by auto

lemma rnd_rnd [simp]: "rnd (rnd q) = rnd q"
proof (cases "q = 0")
  case False
  let ?e = "ulp_exp q" and ?m = "rne (q / pw2 (ulp_exp q))"
  have "\<bar>q\<bar> < pw2 (ilog2 \<bar>q\<bar> + 1)" using ilog2_bounds(2) False by simp
  also have "\<dots> \<le> pw2 (53 + ?e)" by (intro pw2_mono) (simp add: ulp_exp_def)
  finally have "\<bar>q\<bar> / pw2 ?e < of_int (2 ^ 53)" by (simp add: pw2_add divide_less_eq)
  then have "q / pw2 ?e \<le> of_int (2 ^ 53)" "of_int (- (2 ^ 53)) \<le> q / pw2 ?e"
    by (simp_all add: abs_less_iff divide_less_eq le_divide_eq divide_le_eq)
  then have "\<bar>?m\<bar> \<le> 2 ^ 53" using rne_le rne_ge by (fastforce simp: abs_le_iff)
  moreover have "- 1074 \<le> ?e" by (simp add: ulp_exp_def)
  ultimately have "rnd (of_int ?m * pw2 ?e) = of_int ?m * pw2 ?e" by (rule rnd_exact)
  then show ?thesis using False by (simp add: rnd_def[of q] Let_def)
qed simp

lemma overflow_eq: "overflow = 2 ^ 1024"
  by (simp add: overflow_def)

lemma round_to_finite:
  assumes "\<bar>q\<bar> \<le> 2 ^ 1000"
  shows "fval (round_to neg q) = rnd q" "round_to neg q \<noteq> NaN" "\<not> is_inf (round_to neg q)"
    "signbit (round_to neg q) \<longleftrightarrow> rnd q < 0 \<or> rnd q = 0 \<and> neg"
proof -
  have "rnd (of_int 1 * pw2 1000) = of_int 1 * pw2 1000" by (intro rnd_exact) auto
  then have "rnd (2 ^ 1000) = 2 ^ 1000" by (simp add: power_int_def)
  then have b: "\<bar>rnd q\<bar> \<le> 2 ^ 1000" using rnd_mono[of q "2 ^ 1000"] rnd_mono[of "- q" "2 ^ 1000"] assms
    by (simp add: abs_le_iff rnd_uminus)
  have "(2::rat) ^ 1000 < 2 ^ 1024" by (rule power_strict_increasing) auto
  then have "\<bar>rnd q\<bar> < overflow" using b unfolding overflow_eq by linarith
  then show "fval (round_to neg q) = rnd q" "round_to neg q \<noteq> NaN" "\<not> is_inf (round_to neg q)"
    "signbit (round_to neg q) \<longleftrightarrow> rnd q < 0 \<or> rnd q = 0 \<and> neg"
    by (auto simp: round_to_def Let_def is_inf_def signbit_def abs_less_iff)
qed

definition finite64 :: "f64 \<Rightarrow> bool" where "finite64 x \<longleftrightarrow> x \<noteq> NaN \<and> \<not> is_inf x"

lemma finite64_simps [simp]:
  "finite64 (Fin q)" "finite64 NegZero" "\<not> finite64 NaN" "\<not> finite64 PosInf" "\<not> finite64 NegInf"
  by (simp_all add: finite64_def is_inf_def)

lemma finite64_cases: "finite64 x \<longleftrightarrow> x = NegZero \<or> (\<exists>q. x = Fin q)"
  by (cases x) auto

lemma flt_finite: "finite64 x \<Longrightarrow> finite64 y \<Longrightarrow> flt x y \<longleftrightarrow> fval x < fval y"
  and feq_finite: "finite64 x \<Longrightarrow> finite64 y \<Longrightarrow> feq x y \<longleftrightarrow> fval x = fval y"
  and fle_finite: "finite64 x \<Longrightarrow> finite64 y \<Longrightarrow> fle x y \<longleftrightarrow> fval x \<le> fval y"
  by (auto simp: finite64_cases flt_def feq_def fle_def is_inf_def)

lemma fneg_finite [simp]: "finite64 (fneg x) = finite64 x" and fval_fneg [simp]: "fval (fneg x) = - fval x"
  by (cases x; simp)+

lemma small_pow: "\<bar>q\<bar> \<le> 1000000 \<Longrightarrow> \<bar>q\<bar> \<le> (2::rat) ^ 1000"
  by (rule order_trans) auto

lemma fadd_finite:
  assumes "finite64 x" "finite64 y" "\<bar>fval x + fval y\<bar> \<le> 2 ^ 1000"
  shows "finite64 (fadd x y) \<and> fval (fadd x y) = rnd (fval x + fval y)"
  using assms round_to_finite[OF assms(3)]
  by (auto simp: fadd_def finite64_def Let_def is_inf_def)

lemma fsub_finite:
  assumes "finite64 x" "finite64 y" "\<bar>fval x - fval y\<bar> \<le> 2 ^ 1000"
  shows "finite64 (fsub x y) \<and> fval (fsub x y) = rnd (fval x - fval y)"
  using fadd_finite[of x "fneg y"] assms by (simp add: fsub_def)

lemma fmul_finite:
  assumes "finite64 x" "finite64 y" "\<bar>fval x * fval y\<bar> \<le> 2 ^ 1000"
  shows "finite64 (fmul x y) \<and> fval (fmul x y) = rnd (fval x * fval y)"
  using assms round_to_finite[OF assms(3)] by (auto simp: fmul_def finite64_def Let_def is_inf_def)

lemma fdiv_finite:
  assumes "finite64 x" "finite64 y" "fval y \<noteq> 0" "\<bar>fval x / fval y\<bar> \<le> 2 ^ 1000"
  shows "finite64 (fdiv x y) \<and> fval (fdiv x y) = rnd (fval x / fval y)"
  using assms round_to_finite[OF assms(4)] by (auto simp: fdiv_def finite64_def Let_def is_inf_def)

lemma with_sign_finite [simp]: "finite64 (with_sign x n)" "fval (with_sign x n) = of_int n"
  by (simp_all add: with_sign_def)

lemma rounding_functions_finite:
  assumes "finite64 x"
  shows "finite64 (ffloor x) \<and> fval (ffloor x) = of_int \<lfloor>fval x\<rfloor>"
    "finite64 (fceil x) \<and> fval (fceil x) = of_int \<lceil>fval x\<rceil>"
    "finite64 (fround x) \<and> fval (fround x) = of_int (round_half_away (fval x))"
  using assms by (auto simp: ffloor_def fceil_def fround_def finite64_def with_sign_def is_inf_def)

lemma f_of_int_exact:
  assumes "\<bar>n\<bar> \<le> 2 ^ 53" shows "f_of_int n = Fin (of_int n)"
proof -
  have "\<bar>of_int n :: rat\<bar> \<le> of_int (2 ^ 53)" using assms by (simp only: of_int_le_iff flip: of_int_abs)
  also have "\<dots> \<le> 2 ^ 1000" by simp
  also have "(2::rat) ^ 1000 < overflow" unfolding overflow_eq by (rule power_strict_increasing) auto
  finally have "\<not> overflow \<le> (of_int n :: rat)" "\<not> (of_int n :: rat) \<le> - overflow" by linarith+
  then show ?thesis using assms by (simp add: f_of_int_def round_to_def rnd_of_int)
qed

lemma fmin_finite: "finite64 x \<Longrightarrow> finite64 y \<Longrightarrow> finite64 (fmin x y) \<and> fval (fmin x y) = min (fval x) (fval y)"
  and fmax_finite: "finite64 x \<Longrightarrow> finite64 y \<Longrightarrow> finite64 (fmax x y) \<and> fval (fmax x y) = max (fval x) (fval y)"
  by (auto simp: fmin_def fmax_def finite64_cases flt_def feq_def is_inf_def)

lemma trunc_of_int [simp]: "rat_trunc (of_int n) = n"
  by (simp add: rat_trunc_def)

lemma to_int64_exact: "finite64 x \<Longrightarrow> fval x = of_int n \<Longrightarrow> in_int64 n \<Longrightarrow> to_int64 oob x = n"
  by (simp add: to_int64_def finite64_def)

subsection \<open>Decimal integers\<close>

lemma scan_mantissa_digits:
  "list_all is_digit ds \<Longrightarrow>
     scan_mantissa False False ds m f seen = (foldl (\<lambda>a c. 10 * a + digit_val c) m ds, f, seen \<or> ds \<noteq> [], [])"
  by (induction ds arbitrary: m seen) (auto simp: mant_digit_def is_digit_def byte_def)

lemma digit_not_special:
  assumes "is_digit c"
  shows "c \<noteq> CHR ''-''" "c \<noteq> CHR ''+''" "c \<noteq> CHR ''_''" "ascii_lower c = c" "c \<noteq> CHR ''x''" "c \<noteq> CHR ''n''" "c \<noteq> CHR ''i''"
  using assms by (auto simp: is_digit_def ascii_lower_def byte_def)

lemma read_number_digits:
  assumes d: "list_all is_digit ds" and ne: "ds \<noteq> []" and neg: "cut_sign s = (neg, ds)" and u: "CHR ''_'' \<notin> set s"
    and fin: "\<not> is_inf (round_to neg (if neg then - of_int (digits_val ds) else of_int (digits_val ds)))"
  shows "read_number s = Some (round_to neg (if neg then - of_int (digits_val ds) else of_int (digits_val ds)))"
proof -
  have "ascii_lower (ds ! 1) \<noteq> CHR ''x''" if "length ds > 2"
    using d that digit_not_special[of "ds ! 1"] by (auto simp: list_all_length)
  then have h: "(length ds > 2 \<and> hd ds = CHR ''0'' \<and> ascii_lower (ds ! 1) = CHR ''x'') = False" by blast
  have v: "foldl (\<lambda>a c. 10 * a + digit_val c) 0 ds = digits_val ds" by (simp add: digits_val_def)
  show ?thesis
    unfolding read_number_def neg Let_def prod.case h if_False scan_mantissa_digits[OF d] v
    using ne u fin by (cases neg) (simp_all add: read_exponent_def)
qed

lemma parse_float_int:
  assumes "\<bar>n\<bar> \<le> 2 ^ 53" shows "parse_float (int_to_string n) = Some (Fin (of_int n))"
proof -
  define ds where "ds = nat_to_string (nat \<bar>n\<bar>)"
  have d: "list_all is_digit ds" "ds \<noteq> []" "digits_val ds = \<bar>n\<bar>" by (simp_all add: ds_def)
  have hd: "is_digit (hd ds)" using d by (cases ds) auto
  have s: "int_to_string n = (if n < 0 then CHR ''-'' # ds else ds)" by (simp add: int_to_string_def ds_def)
  have c: "cut_sign (int_to_string n) = (n < 0, ds)"
    using d(2) digit_not_special[OF hd] by (auto simp: s cut_sign_def split: list.split)
  have u: "CHR ''_'' \<notin> set (int_to_string n)"
    using d(1) by (auto simp: s list_all_iff is_digit_def byte_def)
  have w: "hd (List.map ascii_lower ds) = hd ds" using d(2) digit_not_special[OF hd] by (cases ds) auto
  have "List.map ascii_lower ds \<noteq> ''inf''" "List.map ascii_lower ds \<noteq> ''infinity''"
    using w digit_not_special[OF hd] by auto
  moreover have "List.map ascii_lower (int_to_string n) \<noteq> ''nan''"
    using w digit_not_special[OF hd] by (auto simp: s ascii_lower_def byte_def)
  moreover have r: "round_to (n < 0) (of_int n) = Fin (of_int n)"
    using f_of_int_exact[OF assms] by (auto simp: f_of_int_def round_to_def Let_def rnd_of_int[OF assms] split: if_splits)
  moreover have v: "(if n < 0 then - of_int (digits_val ds) else of_int (digits_val ds)) = (of_int n :: rat)"
    by (simp add: d(3))
  ultimately show ?thesis
    using read_number_digits[OF d(1,2) c u] unfolding v r
    by (simp add: parse_float_def c Let_def is_inf_def)
qed

subsection \<open>The error of a rounding\<close>

lemma rnd_half_ulp: "\<bar>rnd q - q\<bar> \<le> pw2 (ulp_exp q) / 2"
proof (cases "q = 0")
  case False
  let ?u = "pw2 (ulp_exp q)"
  have "rnd q - q = (of_int (rne (q / ?u)) - q / ?u) * ?u" using False by (simp add: rnd_def Let_def left_diff_distrib)
  then have "\<bar>rnd q - q\<bar> = \<bar>of_int (rne (q / ?u)) - q / ?u\<bar> * ?u" by (simp add: abs_mult)
  also have "\<dots> \<le> 1/2 * ?u" by (intro mult_right_mono rne_error) simp
  finally show ?thesis by simp
qed simp

lemma ulp_exp_le:
  assumes "q \<noteq> 0" "\<bar>q\<bar> < pw2 (e + 53)" "- 1074 \<le> e" shows "ulp_exp q \<le> e"
proof -
  have "pw2 (ilog2 \<bar>q\<bar>) \<le> \<bar>q\<bar>" using ilog2_bounds(1)[of "\<bar>q\<bar>"] assms(1) by simp
  then have "pw2 (ilog2 \<bar>q\<bar>) < pw2 (e + 53)" using assms(2) by linarith
  then show ?thesis using pw2_less_cancel[of "ilog2 \<bar>q\<bar>" "e + 53"] assms(3) by (auto simp: ulp_exp_def)
qed

lemma rnd_error_below:
  assumes "\<bar>q\<bar> < pw2 (e + 53)" "- 1074 \<le> e" shows "\<bar>rnd q - q\<bar> \<le> pw2 (e - 1)"
proof (cases "q = 0")
  case False
  have "\<bar>rnd q - q\<bar> \<le> pw2 (ulp_exp q) / 2" by (rule rnd_half_ulp)
  also have "\<dots> \<le> pw2 e / 2" using pw2_mono[OF ulp_exp_le[OF False assms]] by simp
  finally show ?thesis by (simp add: power_int_diff)
qed simp

lemma rnd_rel_error: "\<bar>rnd q - q\<bar> \<le> \<bar>q\<bar> * pw2 (- 53) + pw2 (- 1075)"
proof (cases "q = 0")
  case False
  then have i: "pw2 (ilog2 \<bar>q\<bar>) \<le> \<bar>q\<bar>" using ilog2_bounds(1)[of "\<bar>q\<bar>"] by simp
  have "pw2 (ulp_exp q) / 2 = pw2 (ulp_exp q - 1)" by (simp add: power_int_diff)
  also have "\<dots> \<le> pw2 (ilog2 \<bar>q\<bar> + - 53) + pw2 (- 1075)"
    by (cases "ilog2 \<bar>q\<bar> - 52 \<le> - 1074") (simp_all add: ulp_exp_def max_def)
  also have "\<dots> \<le> \<bar>q\<bar> * pw2 (- 53) + pw2 (- 1075)"
    using i unfolding pw2_add by (intro add_right_mono mult_right_mono) auto
  finally show ?thesis using rnd_half_ulp[of q] by linarith
qed simp

text \<open>\<open>Duration.Seconds\<close> of a number of nanoseconds.\<close>

definition second_f :: f64 where "second_f = Fin 1000000000"

definition duration_seconds :: "int \<Rightarrow> f64" where
  "duration_seconds d = fadd (f_of_int (d sdiv 1000000000)) (fdiv (f_of_int (d smod 1000000000)) second_f)"

end
