(* ===== verification/GoTime.thy ===== *)
theory GoTime
  imports GoPrelude "HOL-Library.Monad_Syntax"
begin

text \<open>
  What the program uses of Go's package \<open>time\<close>: instants with a location, durations,
  the proleptic Gregorian calendar, and reading and printing RFC 3339 timestamps.

  An instant is the number of nanoseconds since the Unix epoch, an unbounded \<open>int\<close>: Go
  keeps 64-bit seconds, which no timestamp of the years 0 to 9999 plus or minus a
  \<open>Duration\<close> can overflow. A duration is an \<open>int64\<close> number of nanoseconds. The offsets of
  the process's local zone are a parameter \<open>lz\<close>, seconds east of UTC at a Unix second.
\<close>

datatype loc = UTC | Local | FixedZone int

record gotime =
  t_ns :: int
  t_loc :: loc

type_synonym duration = int
type_synonym local_zone = "int \<Rightarrow> int"

abbreviation Second :: duration where "Second \<equiv> 1000000000"
abbreviation Minute :: duration where "Minute \<equiv> 60000000000"
abbreviation Hour :: duration where "Hour \<equiv> 3600000000000"

definition time_after :: "gotime \<Rightarrow> gotime \<Rightarrow> bool" where
  "time_after t u \<longleftrightarrow> t_ns u < t_ns t"

definition time_equal :: "gotime \<Rightarrow> gotime \<Rightarrow> bool" where
  "time_equal t u \<longleftrightarrow> t_ns t = t_ns u"

definition time_add :: "gotime \<Rightarrow> duration \<Rightarrow> gotime" where
  "time_add t d = t\<lparr>t_ns := t_ns t + d\<rparr>"

text \<open>\<open>Time.Sub\<close> saturates at the extreme durations (about 292 years).\<close>

definition time_sub :: "gotime \<Rightarrow> gotime \<Rightarrow> duration" where
  "time_sub t u = max min_int64 (min max_int64 (t_ns t - t_ns u))"

definition time_utc :: "gotime \<Rightarrow> gotime" where
  "time_utc t = t\<lparr>t_loc := UTC\<rparr>"

definition truncate_second :: "gotime \<Rightarrow> gotime" where
  "truncate_second t = t\<lparr>t_ns := t_ns t div Second * Second\<rparr>"

lemma t_ns_time_add [simp]: "t_ns (time_add t d) = t_ns t + d"
  by (simp add: time_add_def)

lemma t_loc_time_add [simp]: "t_loc (time_add t d) = t_loc t"
  by (simp add: time_add_def)

lemma t_ns_time_utc [simp]: "t_ns (time_utc t) = t_ns t"
  by (simp add: time_utc_def)

lemma t_loc_time_utc [simp]: "t_loc (time_utc t) = UTC"
  by (simp add: time_utc_def)

lemma time_utc_id: "t_loc t = UTC \<Longrightarrow> time_utc t = t"
  by (simp add: time_utc_def)

lemma in_int64_time_sub: "in_int64 (time_sub t u)"
  by (simp add: time_sub_def in_int64_def)

lemma time_sub_exact: "in_int64 (t_ns t - t_ns u) \<Longrightarrow> time_sub t u = t_ns t - t_ns u"
  by (simp add: time_sub_def in_int64_def)

subsection \<open>The calendar\<close>

definition leap :: "int \<Rightarrow> bool" where
  "leap y \<longleftrightarrow> 4 dvd y \<and> \<not> 100 dvd y \<or> 400 dvd y"

text \<open>Days from 0001-01-01 to the first of January of year \<open>y\<close>.\<close>

definition year_start :: "int \<Rightarrow> int" where
  "year_start y = 365 * (y - 1) + (y - 1) div 4 - (y - 1) div 100 + (y - 1) div 400"

definition month_start :: "bool \<Rightarrow> int \<Rightarrow> int" where
  "month_start lp m =
     (if m \<le> 1 then 0 else if m = 2 then 31
      else (if m = 3 then 59 else if m = 4 then 90 else if m = 5 then 120
            else if m = 6 then 151 else if m = 7 then 181 else if m = 8 then 212
            else if m = 9 then 243 else if m = 10 then 273 else if m = 11 then 304
            else if m = 12 then 334 else 365) + (if lp then 1 else 0))"

definition days_in :: "int \<Rightarrow> int \<Rightarrow> int" where
  "days_in m y = month_start (leap y) (m + 1) - month_start (leap y) m"

text \<open>Days from the Unix epoch; 719162 days separate 0001-01-01 and 1970-01-01.\<close>

definition days_of_civil :: "int \<Rightarrow> int \<Rightarrow> int \<Rightarrow> int" where
  "days_of_civil y m d = year_start y + month_start (leap y) m + (d - 1) - 719162"

definition go_date :: "int \<Rightarrow> int \<Rightarrow> int \<Rightarrow> int \<Rightarrow> int \<Rightarrow> int \<Rightarrow> int \<Rightarrow> gotime" where
  "go_date y m d h mi s nsec =
     \<lparr>t_ns = (((days_of_civil y m d * 24 + h) * 60 + mi) * 60 + s) * Second + nsec, t_loc = UTC\<rparr>"

text \<open>The inverse: year, month and day of a day number.\<close>

text \<open>The zero \<open>time.Time\<close>.\<close>

definition zero_time :: gotime where
  "zero_time = go_date 1 1 1 0 0 0 0"

definition year_of_days :: "int \<Rightarrow> int \<times> int" where
  "year_of_days n =
     (let n = n + 719162;
          r = n mod 146097; c = min 3 (r div 36524);
          r = r - 36524 * c; q = r div 1461;
          r = r - 1461 * q; a = min 3 (r div 365)
      in (400 * (n div 146097) + 100 * c + 4 * q + a + 1, r - 365 * a))"

definition month_of_yday :: "bool \<Rightarrow> int \<Rightarrow> int" where
  "month_of_yday lp k =
     (if k < month_start lp 2 then 1 else if k < month_start lp 3 then 2
      else if k < month_start lp 4 then 3 else if k < month_start lp 5 then 4
      else if k < month_start lp 6 then 5 else if k < month_start lp 7 then 6
      else if k < month_start lp 8 then 7 else if k < month_start lp 9 then 8
      else if k < month_start lp 10 then 9 else if k < month_start lp 11 then 10
      else if k < month_start lp 12 then 11 else 12)"

definition civil_of_days :: "int \<Rightarrow> int \<times> int \<times> int" where
  "civil_of_days n =
     (let (y, k) = year_of_days n; m = month_of_yday (leap y) k
      in (y, m, k - month_start (leap y) m + 1))"

lemma year_of_days_spec:
  assumes "year_of_days n = (y, k)"
  shows "year_start y + k - 719162 = n" and "0 \<le> k" and "k < (if leap y then 366 else 365)"
proof -
  define N where "N = n + 719162"
  define b where "b = N div 146097"
  define r where "r = N mod 146097"
  define c where "c = min 3 (r div 36524)"
  define r1 where "r1 = r - 36524 * c"
  define q where "q = r1 div 1461"
  define r2 where "r2 = r1 - 1461 * q"
  define a where "a = min 3 (r2 div 365)"
  have "year_of_days n = (400 * b + 100 * c + 4 * q + a + 1, r2 - 365 * a)"
    by (simp only: year_of_days_def Let_def N_def b_def r_def c_def r1_def q_def r2_def a_def)
  then have yk: "y = 400 * b + 100 * c + 4 * q + a + 1" "k = r2 - 365 * a"
    using assms by simp_all
  have N: "N = 146097 * b + r" and r: "0 \<le> r" "r < 146097"
    by (simp_all add: b_def r_def)
  have c: "0 \<le> c" "c \<le> 3" "0 \<le> r1" "r1 \<le> 36524" "c < 3 \<Longrightarrow> r1 < 36524"
    using r div_bounds[of 36524 r] unfolding c_def r1_def by (auto simp: min_def)
  have q: "0 \<le> q" "q \<le> 24" "0 \<le> r2" "r2 \<le> 1460" "q = 24 \<Longrightarrow> c < 3 \<Longrightarrow> r2 < 1460"
    using c div_bounds[of 1461 r1] unfolding q_def r2_def by auto
  have a: "0 \<le> a" "a \<le> 3" "0 \<le> k" "a < 3 \<Longrightarrow> k < 365" "k \<le> 365" "k = 365 \<Longrightarrow> r2 = 1460"
    using q(3,4) div_bounds[of 365 r2] unfolding a_def yk(2) by (simp_all add: min_def split: if_splits)
  have y4: "(y - 1) div 4 = 100 * b + 25 * c + q"
    and y100: "(y - 1) div 100 = 4 * b + c" and y400: "(y - 1) div 400 = b"
    using yk(1) a(1,2) q(1,2) c(1,2) by (auto intro!: div_eqI)
  have "year_start y = 365 * (y - 1) + (100 * b + 25 * c + q) - (4 * b + c) + b"
    by (simp only: year_start_def y4 y100 y400)
  then show "year_start y + k - 719162 = n"
    using yk N N_def r1_def r2_def by (simp add: algebra_simps)
  show "0 \<le> k" by (fact a)
  have "leap y" if "k = 365"
  proof -
    from that a have "r2 = 1460" "a = 3" by linarith+
    then have y: "y = 4 * (100 * b + 25 * c + q + 1)" using yk(1) by simp
    show ?thesis
    proof (cases "q = 24")
      case True
      with q(5) c(2) \<open>r2 = 1460\<close> have "c = 3" by linarith
      with True y have "y = 400 * (b + 1)" by simp
      then show ?thesis unfolding leap_def by (simp only: dvd_triv_left simp_thms)
    next
      case False
      then have "4 * (q + 1) mod 100 = 4 * (q + 1)"
        using q(1,2) by (intro mod_pos_pos_trivial) auto
      moreover have "y = 4 * (q + 1) + (4 * b + c) * 100" using y by simp
      ultimately have "y mod 100 = 4 * (q + 1)" by (simp only: mod_mult_self1)
      then have "\<not> 100 dvd y" using q(1) by (simp add: dvd_eq_mod_eq_0)
      then show ?thesis unfolding leap_def y by simp
    qed
  qed
  then show "k < (if leap y then 366 else 365)" using a(5) by (cases "k = 365") auto
qed

lemma month_of_yday_spec:
  assumes "0 \<le> k" "k < (if lp then 366 else 365)"
  shows "1 \<le> month_of_yday lp k \<and> month_of_yday lp k \<le> 12 \<and>
    month_start lp (month_of_yday lp k) \<le> k \<and> k < month_start lp (month_of_yday lp k + 1)"
proof (cases lp)
  case True
  with assms show ?thesis by (simp add: month_of_yday_def month_start_def)
next
  case False
  with assms show ?thesis by (simp add: month_of_yday_def month_start_def)
qed

lemma civil_of_days_spec:
  assumes "civil_of_days n = (y, m, d)"
  shows "days_of_civil y m d = n" "1 \<le> m" "m \<le> 12" "1 \<le> d" "d \<le> days_in m y"
proof -
  obtain k where k: "year_of_days n = (y, k)" "m = month_of_yday (leap y) k"
      "d = k - month_start (leap y) m + 1"
    using assms by (auto simp: civil_of_days_def Let_def split: prod.splits)
  note Y = year_of_days_spec[OF k(1)]
  note M = month_of_yday_spec[OF Y(2,3)]
  show "days_of_civil y m d = n" "1 \<le> m" "m \<le> 12" "1 \<le> d" "d \<le> days_in m y"
    using Y(1) M k(2,3) by (simp_all add: days_of_civil_def days_in_def)
qed

text \<open>Midnight of the day of an instant, as \<open>time.Date(now.Year(), now.Month(), now.Day(), 0, 0, 0, 0, time.UTC)\<close>
  for a \<open>now\<close> in UTC.\<close>

definition utc_civil :: "gotime \<Rightarrow> int \<times> int \<times> int" where
  "utc_civil t = civil_of_days (t_ns t div (24 * Hour))"

definition utc_midnight :: "gotime \<Rightarrow> gotime" where
  "utc_midnight t = (let (y, m, d) = utc_civil t in go_date y m d 0 0 0 0)"

lemma utc_midnight_eq: "utc_midnight t = \<lparr>t_ns = t_ns t div (24 * Hour) * (24 * Hour), t_loc = UTC\<rparr>"
proof -
  obtain y m d where c: "civil_of_days (t_ns t div (24 * Hour)) = (y, m, d)" by (cases "civil_of_days (t_ns t div (24 * Hour))")
  show ?thesis
    using civil_of_days_spec(1)[OF c] c by (simp add: utc_midnight_def utc_civil_def go_date_def)
qed

end
