(* ===== verification/Observation.thy ===== *)
theory Observation
  imports GoFloat GoTime
begin

text \<open>
  The package \<open>observation\<close> (\<open>src/observation/observation.go\<close>, \<open>bounds.go\<close>, \<open>units.go\<close>): one station
  reading, the plausibility check that clears faulty fields, and the unit conversions. A nil pointer
  is \<open>None\<close>; the type of the extra values is a parameter. \<open>math.Log\<close> and \<open>math.Pow\<close> are parameters.
\<close>

subsection \<open>Readings\<close>

record 'a Observation =
  ob_StationID :: string
  ob_Source :: string
  ob_Timestamp :: gotime
  ob_Lat :: "f64 option"
  ob_Lon :: "f64 option"
  ob_Elevation :: "f64 option"
  ob_Temperature2m :: "f64 option"
  ob_Dewpoint :: "f64 option"
  ob_RelativeHumidity :: "f64 option"
  ob_WindSpeed :: "f64 option"
  ob_WindGust :: "f64 option"
  ob_WindDirection :: "f64 option"
  ob_SurfacePressure :: "f64 option"
  ob_Mslp :: "f64 option"
  ob_Precipitation :: "f64 option"
  ob_PrecipitationPeriodHours :: "f64 option"
  ob_PrecipitationRate :: "f64 option"
  ob_SolarRadiation :: "f64 option"
  ob_UVIndex :: "f64 option"
  ob_Extra :: "string \<Rightarrow> 'a option"

text \<open>A field is its name and a pointer into the reading: reading and writing through it.\<close>

record 'a obs_field =
  f_name :: string
  f_get :: "'a Observation \<Rightarrow> f64 option"
  f_put :: "f64 option \<Rightarrow> 'a Observation \<Rightarrow> 'a Observation"
  f_measurement :: bool

definition mk_field :: "string \<Rightarrow> ('a Observation \<Rightarrow> f64 option) \<Rightarrow> (f64 option \<Rightarrow> 'a Observation \<Rightarrow> 'a Observation)
    \<Rightarrow> bool \<Rightarrow> 'a obs_field" where
  "mk_field n g p ms = \<lparr>f_name = n, f_get = g, f_put = p, f_measurement = ms\<rparr>"

definition obs_fields :: "'a obs_field list" where
  "obs_fields =
    [mk_field ''lat'' ob_Lat (\<lambda>v. ob_Lat_update (\<lambda>_. v)) False,
     mk_field ''lon'' ob_Lon (\<lambda>v. ob_Lon_update (\<lambda>_. v)) False,
     mk_field ''elevation'' ob_Elevation (\<lambda>v. ob_Elevation_update (\<lambda>_. v)) False,
     mk_field ''temperature_2m'' ob_Temperature2m (\<lambda>v. ob_Temperature2m_update (\<lambda>_. v)) True,
     mk_field ''dewpoint'' ob_Dewpoint (\<lambda>v. ob_Dewpoint_update (\<lambda>_. v)) True,
     mk_field ''relative_humidity'' ob_RelativeHumidity (\<lambda>v. ob_RelativeHumidity_update (\<lambda>_. v)) True,
     mk_field ''wind_speed'' ob_WindSpeed (\<lambda>v. ob_WindSpeed_update (\<lambda>_. v)) True,
     mk_field ''wind_gust'' ob_WindGust (\<lambda>v. ob_WindGust_update (\<lambda>_. v)) True,
     mk_field ''wind_direction'' ob_WindDirection (\<lambda>v. ob_WindDirection_update (\<lambda>_. v)) True,
     mk_field ''surface_pressure'' ob_SurfacePressure (\<lambda>v. ob_SurfacePressure_update (\<lambda>_. v)) True,
     mk_field ''mslp'' ob_Mslp (\<lambda>v. ob_Mslp_update (\<lambda>_. v)) True,
     mk_field ''precipitation'' ob_Precipitation (\<lambda>v. ob_Precipitation_update (\<lambda>_. v)) True,
     mk_field ''precipitation_period_hours'' ob_PrecipitationPeriodHours (\<lambda>v. ob_PrecipitationPeriodHours_update (\<lambda>_. v)) False,
     mk_field ''precipitation_rate'' ob_PrecipitationRate (\<lambda>v. ob_PrecipitationRate_update (\<lambda>_. v)) True,
     mk_field ''solar_radiation'' ob_SolarRadiation (\<lambda>v. ob_SolarRadiation_update (\<lambda>_. v)) True,
     mk_field ''uv_index'' ob_UVIndex (\<lambda>v. ob_UVIndex_update (\<lambda>_. v)) True]"

definition HasMeasurement :: "'a Observation \<Rightarrow> bool" where
  "HasMeasurement ob \<longleftrightarrow> list_ex (\<lambda>f. f_measurement f \<and> f_get f ob \<noteq> None) obs_fields"

subsection \<open>Plausibility\<close>

record obs_Bounds =
  ob_Min :: f64
  ob_Max :: f64

record Violation =
  vi_Field :: string
  vi_Value :: f64
  vi_Min :: f64
  vi_Max :: f64
  vi_Reason :: string

definition DefaultBounds :: "string \<Rightarrow> obs_Bounds option" where
  "DefaultBounds = map_of
    [(''lat'', \<lparr>ob_Min = Fin (-90), ob_Max = Fin 90\<rparr>),
     (''lon'', \<lparr>ob_Min = Fin (-180), ob_Max = Fin 180\<rparr>),
     (''elevation'', \<lparr>ob_Min = Fin (-500), ob_Max = Fin 9000\<rparr>),
     (''temperature_2m'', \<lparr>ob_Min = Fin (-90), ob_Max = Fin 65\<rparr>),
     (''dewpoint'', \<lparr>ob_Min = Fin (-100), ob_Max = Fin 45\<rparr>),
     (''relative_humidity'', \<lparr>ob_Min = Fin 0, ob_Max = Fin 100\<rparr>),
     (''wind_speed'', \<lparr>ob_Min = Fin 0, ob_Max = Fin 120\<rparr>),
     (''wind_gust'', \<lparr>ob_Min = Fin 0, ob_Max = Fin 150\<rparr>),
     (''wind_direction'', \<lparr>ob_Min = Fin 0, ob_Max = Fin 360\<rparr>),
     (''surface_pressure'', \<lparr>ob_Min = Fin 300, ob_Max = Fin 1100\<rparr>),
     (''mslp'', \<lparr>ob_Min = Fin 850, ob_Max = Fin 1090\<rparr>),
     (''precipitation'', \<lparr>ob_Min = Fin 0, ob_Max = Fin 2000\<rparr>),
     (''precipitation_period_hours'', \<lparr>ob_Min = Fin 0, ob_Max = Fin 8784\<rparr>),
     (''precipitation_rate'', \<lparr>ob_Min = Fin 0, ob_Max = Fin 500\<rparr>),
     (''solar_radiation'', \<lparr>ob_Min = Fin 0, ob_Max = Fin 2000\<rparr>),
     (''uv_index'', \<lparr>ob_Min = Fin 0, ob_Max = Fin 25\<rparr>)]"

definition not_finite :: "f64 \<Rightarrow> bool" where "not_finite v \<longleftrightarrow> v = NaN \<or> is_inf v"

text \<open>What \<open>Sanitize\<close> makes of one reported value: the violation it records, if any. The bounds of a
  field without an entry are the zero value.\<close>

definition check_field :: "(string \<Rightarrow> obs_Bounds option) \<Rightarrow> string \<Rightarrow> f64 \<Rightarrow> Violation option" where
  "check_field bounds name v =
     (let b = (case bounds name of Some b \<Rightarrow> b | None \<Rightarrow> \<lparr>ob_Min = Fin 0, ob_Max = Fin 0\<rparr>) in
      if not_finite v then
        Some \<lparr>vi_Field = name, vi_Value = Fin 0, vi_Min = ob_Min b, vi_Max = ob_Max b, vi_Reason = ''not finite''\<rparr>
      else if bounds name \<noteq> None \<and> (flt v (ob_Min b) \<or> fgt v (ob_Max b)) then
        Some \<lparr>vi_Field = name, vi_Value = v, vi_Min = ob_Min b, vi_Max = ob_Max b, vi_Reason = ''out of range''\<rparr>
      else None)"

fun sanitize_fields :: "(string \<Rightarrow> obs_Bounds option) \<Rightarrow> 'a obs_field list \<Rightarrow> 'a Observation
    \<Rightarrow> Violation list \<times> 'a Observation" where
  "sanitize_fields bounds [] ob = ([], ob)"
| "sanitize_fields bounds (f # fs) ob =
     (case f_get f ob of
        None \<Rightarrow> sanitize_fields bounds fs ob
      | Some v \<Rightarrow> (case check_field bounds (f_name f) v of
            None \<Rightarrow> sanitize_fields bounds fs ob
          | Some x \<Rightarrow> (case sanitize_fields bounds fs (f_put f None ob) of (out, ob') \<Rightarrow> (x # out, ob'))))"

definition Sanitize :: "(string \<Rightarrow> obs_Bounds option) \<Rightarrow> 'a Observation \<Rightarrow> Violation list \<times> 'a Observation" where
  "Sanitize bounds ob = sanitize_fields bounds obs_fields ob"

subsection \<open>Units\<close>

definition mpsPerMph :: f64 where "mpsPerMph = f_const (44704 / 100000)"
definition mpsPerKnot :: f64 where "mpsPerKnot = f_const (1852 / 3600)"
definition hPaPerInHg :: f64 where "hPaPerInHg = f_const (338638866667 / 10000000000)"
definition mmPerInch :: f64 where "mmPerInch = f_const (254 / 10)"
definition kmhPerMps :: f64 where "kmhPerMps = f_const (36 / 10)"
definition paPerHPa :: f64 where "paPerHPa = Fin 100"
definition magnusA :: f64 where "magnusA = f_const (1762 / 100)"
definition magnusBDegC :: f64 where "magnusBDegC = f_const (24312 / 100)"

definition FahrenheitToCelsius :: "f64 \<Rightarrow> f64" where
  "FahrenheitToCelsius f = fdiv (fmul (fsub f (Fin 32)) (Fin 5)) (Fin 9)"

definition MphToMps :: "f64 \<Rightarrow> f64" where "MphToMps v = fmul v mpsPerMph"
definition KmhToMps :: "f64 \<Rightarrow> f64" where "KmhToMps v = fdiv v kmhPerMps"
definition KnotsToMps :: "f64 \<Rightarrow> f64" where "KnotsToMps v = fmul v mpsPerKnot"
definition InHgToHPa :: "f64 \<Rightarrow> f64" where "InHgToHPa v = fmul v hPaPerInHg"
definition PaToHPa :: "f64 \<Rightarrow> f64" where "PaToHPa v = fdiv v paPerHPa"
definition InchToMm :: "f64 \<Rightarrow> f64" where "InchToMm v = fmul v mmPerInch"

definition DewpointMagnus :: "(f64 \<Rightarrow> f64) \<Rightarrow> f64 \<Rightarrow> f64 \<Rightarrow> f64" where
  "DewpointMagnus ln_f tempC relativeHumidity =
     (if fle relativeHumidity (Fin 0) \<or> fgt relativeHumidity (Fin 100) then NaN
      else let gamma = fadd (ln_f (fdiv relativeHumidity (Fin 100)))
                 (fdiv (fmul magnusA tempC) (fadd magnusBDegC tempC))
        in fdiv (fmul magnusBDegC gamma) (fsub magnusA gamma))"

definition Round :: "(f64 \<Rightarrow> f64 \<Rightarrow> f64) \<Rightarrow> f64 \<Rightarrow> int \<Rightarrow> f64" where
  "Round pow v places = (let p = pow (Fin 10) (f_of_int places) in fdiv (fround (fmul v p)) p)"

subsection \<open>Correctness of \<open>Sanitize\<close>\<close>

text \<open>The pointers of the list are distinct: the laws of reading and writing through them.\<close>

definition lens_laws :: "'a obs_field list \<Rightarrow> bool" where
  "lens_laws fs \<longleftrightarrow> sorted_wrt (\<lambda>f g. \<forall>v ob. f_get g (f_put f v ob) = f_get g ob \<and> f_get f (f_put g v ob) = f_get f ob) fs
     \<and> (\<forall>f\<in>set fs. \<forall>v ob. f_get f (f_put f v ob) = v)"

lemma obs_fields_laws: "lens_laws obs_fields"
  by (simp add: lens_laws_def obs_fields_def mk_field_def)

lemma obs_fields_rest:
  "f \<in> set obs_fields \<Longrightarrow> ob_StationID (f_put f v ob) = ob_StationID ob \<and> ob_Source (f_put f v ob) = ob_Source ob
     \<and> ob_Timestamp (f_put f v ob) = ob_Timestamp ob \<and> ob_Extra (f_put f v ob) = ob_Extra ob"
  by (auto simp: obs_fields_def mk_field_def)

text \<open>The value a field has after the check, and the violations of a list of fields.\<close>

definition kept :: "(string \<Rightarrow> obs_Bounds option) \<Rightarrow> 'a Observation \<Rightarrow> 'a obs_field \<Rightarrow> f64 option" where
  "kept bounds ob f = Option.bind (f_get f ob) (\<lambda>v. if check_field bounds (f_name f) v = None then Some v else None)"

definition violation :: "(string \<Rightarrow> obs_Bounds option) \<Rightarrow> 'a Observation \<Rightarrow> 'a obs_field \<Rightarrow> Violation option" where
  "violation bounds ob f = Option.bind (f_get f ob) (check_field bounds (f_name f))"

lemma sanitize_fields_other:
  assumes "\<And>f v ob. f \<in> set fs \<Longrightarrow> g (f_put f v ob) = g ob" "sanitize_fields bounds fs ob = (out, ob')"
  shows "g ob' = g ob"
  using assms
proof (induction fs arbitrary: ob out)
  case (Cons f fs)
  then show ?case by (auto split: option.splits prod.splits)
qed simp

lemma check_field_value: "check_field bounds n v = Some x \<Longrightarrow> finite64 (vi_Value x)"
  by (auto simp: check_field_def Let_def finite64_def not_finite_def is_inf_def split: if_splits)

lemma bind_case: "Option.bind x f = (case x of None \<Rightarrow> None | Some v \<Rightarrow> f v)"
  by (cases x) simp_all

lemma sanitize_fields_none: "sanitize_fields bounds fs ob = (out, ob') \<Longrightarrow> out = [] \<Longrightarrow> ob' = ob"
  by (induction fs arbitrary: ob out) (auto split: option.splits prod.splits)

lemma sanitize_fields_spec:
  "sanitize_fields bounds fs ob = (out, ob') \<Longrightarrow> lens_laws fs \<Longrightarrow>
     out = List.map_filter (violation bounds ob) fs \<and> (\<forall>f\<in>set fs. f_get f ob' = kept bounds ob f)"
proof (induction fs arbitrary: ob out)
  case (Cons f fs)
  have laws: "lens_laws fs" and self: "f_get f (f_put f v x) = v"
    and other: "g \<in> set fs \<Longrightarrow> f_get g (f_put f v x) = f_get g x" "g \<in> set fs \<Longrightarrow> f_get f (f_put g v x) = f_get f x" for v x g
    using Cons.prems(2) by (simp_all add: lens_laws_def)
  show ?case
  proof (cases "violation bounds ob f")
    case None
    then have s: "sanitize_fields bounds fs ob = (out, ob')" "kept bounds ob f = f_get f ob"
      using Cons.prems(1) by (auto simp: violation_def kept_def bind_eq_None_conv split: option.splits)
    note ih = Cons.IH[OF s(1) laws]
    have "f_get f ob' = f_get f ob" by (rule sanitize_fields_other[OF other(2) s(1)])
    then show ?thesis using ih None s(2) by (simp add: List.map_filter_simps)
  next
    case (Some x)
    then obtain v where v: "f_get f ob = Some v" "check_field bounds (f_name f) v = Some x"
      by (auto simp: violation_def bind_eq_Some_conv)
    obtain out1 where s: "sanitize_fields bounds fs (f_put f None ob) = (out1, ob')" "out = x # out1"
      using Cons.prems(1) v by (auto split: prod.splits)
    note ih = Cons.IH[OF s(1) laws]
    have same: "violation bounds (f_put f None ob) g = violation bounds ob g" "kept bounds (f_put f None ob) g = kept bounds ob g"
      if "g \<in> set fs" for g using other(1)[OF that] by (simp_all add: violation_def kept_def)
    have "f_get f ob' = f_get f (f_put f None ob)" by (rule sanitize_fields_other[OF other(2) s(1)])
    then have "f_get f ob' = kept bounds ob f" using self v by (simp add: kept_def)
    moreover have "List.map_filter (violation bounds (f_put f None ob)) fs = List.map_filter (violation bounds ob) fs"
      using same(1) by (simp add: List.map_filter_def cong: filter_cong)
    ultimately show ?thesis using ih Some s(2) same(2) self by (simp add: List.map_filter_simps)
  qed
qed (simp add: List.map_filter_simps)

text \<open>C29. \<open>Sanitize\<close> clears exactly the implausible fields and reports each of them once. After it every
  field holds the reported value if that is finite and within its bounds and is unset otherwise; the
  identity, source, time and extra values are untouched; the violations are those of the cleared
  fields in field order, and their value is always a finite number, so that they can be encoded; and
  a second call clears nothing.\<close>

theorem Sanitize_exact:
  assumes "Sanitize bounds ob = (out, ob')"
  shows "(\<forall>f\<in>set obs_fields. f_get f ob' =
        (case f_get f ob of
           Some v \<Rightarrow> if finite64 v \<and> (case bounds (f_name f) of None \<Rightarrow> True | Some b \<Rightarrow> \<not> flt v (ob_Min b) \<and> \<not> flt (ob_Max b) v)
                     then Some v else None
         | None \<Rightarrow> None))
    \<and> ob_StationID ob' = ob_StationID ob \<and> ob_Source ob' = ob_Source ob \<and> ob_Timestamp ob' = ob_Timestamp ob
    \<and> ob_Extra ob' = ob_Extra ob
    \<and> List.map vi_Field out = List.map f_name (filter (\<lambda>f. f_get f ob' \<noteq> f_get f ob) obs_fields)
    \<and> list_all (\<lambda>x. finite64 (vi_Value x)) out
    \<and> Sanitize bounds ob' = ([], ob')"
proof -
  have s: "sanitize_fields bounds obs_fields ob = (out, ob')" using assms by (simp add: Sanitize_def)
  note spec = sanitize_fields_spec[OF s obs_fields_laws]
  have chk: "check_field bounds n v = None \<longleftrightarrow>
      finite64 v \<and> (case bounds n of None \<Rightarrow> True | Some b \<Rightarrow> \<not> flt v (ob_Min b) \<and> \<not> flt (ob_Max b) v)" for n v
    by (auto simp: check_field_def Let_def not_finite_def finite64_def split: option.splits)
  have 1: "\<forall>f\<in>set obs_fields. f_get f ob' =
        (case f_get f ob of
           Some v \<Rightarrow> if finite64 v \<and> (case bounds (f_name f) of None \<Rightarrow> True | Some b \<Rightarrow> \<not> flt v (ob_Min b) \<and> \<not> flt (ob_Max b) v)
                     then Some v else None
         | None \<Rightarrow> None)"
    using spec by (simp add: kept_def chk bind_case)
  have 2: "ob_StationID ob' = ob_StationID ob" "ob_Source ob' = ob_Source ob" "ob_Timestamp ob' = ob_Timestamp ob"
      "ob_Extra ob' = ob_Extra ob"
    using obs_fields_rest by (blast intro: sanitize_fields_other[OF _ s])+
  have name: "violation bounds ob f \<noteq> None \<Longrightarrow> vi_Field (the (violation bounds ob f)) = f_name f" for f
    by (auto simp: violation_def check_field_def Let_def bind_eq_Some_conv split: if_splits)
  have cleared: "violation bounds ob f \<noteq> None \<longleftrightarrow> f_get f ob' \<noteq> f_get f ob" if "f \<in> set obs_fields" for f
    using spec that by (auto simp: violation_def kept_def bind_case split: option.splits)
  have 3: "List.map vi_Field out = List.map f_name (filter (\<lambda>f. f_get f ob' \<noteq> f_get f ob) obs_fields)"
    using spec name cleared by (simp add: List.map_filter_def o_def cong: filter_cong)
  have 4: "list_all (\<lambda>x. finite64 (vi_Value x)) out"
    using spec by (auto simp: list_all_iff List.map_filter_def violation_def bind_eq_Some_conv dest: check_field_value)
  obtain out2 ob2 where s2: "sanitize_fields bounds obs_fields ob' = (out2, ob2)"
    by (cases "sanitize_fields bounds obs_fields ob'")
  have "violation bounds ob' f = None" if "f \<in> set obs_fields" for f
    using spec that by (auto simp: violation_def kept_def bind_case split: option.splits)
  then have "out2 = []" using sanitize_fields_spec[OF s2 obs_fields_laws] by (simp add: List.map_filter_def)
  then have "Sanitize bounds ob' = ([], ob')" using sanitize_fields_none[OF s2] s2 by (simp add: Sanitize_def)
  with 1 2 3 4 show ?thesis by (intro conjI)
qed

definition blank :: "unit Observation" where
  "blank = \<lparr>ob_StationID = ''s1'', ob_Source = ''ecowitt'', ob_Timestamp = zero_time, ob_Lat = None, ob_Lon = None,
     ob_Elevation = None, ob_Temperature2m = Some (Fin (358/5)), ob_Dewpoint = None, ob_RelativeHumidity = Some (Fin 55),
     ob_WindSpeed = None, ob_WindGust = None, ob_WindDirection = Some (Fin 360), ob_SurfacePressure = Some NaN,
     ob_Mslp = None, ob_Precipitation = None, ob_PrecipitationPeriodHours = None, ob_PrecipitationRate = None,
     ob_SolarRadiation = None, ob_UVIndex = None, ob_Extra = (\<lambda>_. None)\<rparr>"

theorem Sanitize_exact_witness:
  "\<exists>out ob'. Sanitize DefaultBounds blank = (out, ob') \<and> List.map vi_Field out = [''temperature_2m'', ''surface_pressure'']
     \<and> ob' = blank\<lparr>ob_Temperature2m := None, ob_SurfacePressure := None\<rparr> \<and> Sanitize DefaultBounds ob' = ([], ob')"
proof -
  obtain out ob' where s: "Sanitize DefaultBounds blank = (out, ob')" by fastforce
  have "List.map vi_Field out = [''temperature_2m'', ''surface_pressure'']
      \<and> ob' = blank\<lparr>ob_Temperature2m := None, ob_SurfacePressure := None\<rparr>"
    using s by (simp add: Sanitize_def obs_fields_def mk_field_def blank_def check_field_def DefaultBounds_def not_finite_def
        is_inf_def flt_def) auto
  moreover have "Sanitize DefaultBounds ob' = ([], ob')" using Sanitize_exact[OF s] by (elim conjE)
  ultimately show ?thesis using s by (intro exI[of _ out] exI[of _ ob']) simp
qed

end
