(* ===== verification/GoJson.thy ===== *)
theory GoJson
  imports GoFloat "HOL-Library.Monad_Syntax"
begin

text \<open>
  What the program uses of \<open>encoding/json\<close>: a JSON document by its syntax tree, numbers kept
  as their literal, and the decoding of scalars and structs. A \<open>json.RawMessage\<close> is the
  document it holds, or \<open>None\<close> for bytes that are not one JSON value.

  As in Go, \<open>null\<close> decodes into a scalar or a struct by leaving it as it is, keys that name
  no field are ignored, a field is matched by its name up to case folding, and the last of
  several matching keys decides.
\<close>

datatype json =
    JNull
  | JBool bool
  | JNum string
  | JStr string
  | JArr "json list"
  | JObj "(string \<times> json) list"

type_synonym raw_message = "json option"

text \<open>Case folding of a key: ASCII case, the long s (bytes C5 BF) and the Kelvin sign
  (bytes E2 84 AA), the only characters that fold to ASCII letters.\<close>

fun json_fold :: "string \<Rightarrow> string" where
  "json_fold [] = []"
| "json_fold [a] = [ascii_lower a]"
| "json_fold [a, b] =
     (if byte a = 197 \<and> byte b = 191 then ''s'' else ascii_lower a # json_fold [b])"
| "json_fold (a # b # c # s) =
     (if byte a = 197 \<and> byte b = 191 then CHR ''s'' # json_fold (c # s)
      else if byte a = 226 \<and> byte b = 132 \<and> byte c = 170 then CHR ''k'' # json_fold s
      else ascii_lower a # json_fold (b # c # s))"

definition decode_bool :: "json \<Rightarrow> bool \<Rightarrow> bool option" where
  "decode_bool j old = (case j of JBool b \<Rightarrow> Some b | JNull \<Rightarrow> Some old | _ \<Rightarrow> None)"

definition decode_string :: "json \<Rightarrow> string \<Rightarrow> string option" where
  "decode_string j old = (case j of JStr s \<Rightarrow> Some s | JNull \<Rightarrow> Some old | _ \<Rightarrow> None)"

definition decode_int :: "json \<Rightarrow> int \<Rightarrow> int option" where
  "decode_int j old = (case j of JNum lit \<Rightarrow> atoi lit | JNull \<Rightarrow> Some old | _ \<Rightarrow> None)"

definition decode_float :: "json \<Rightarrow> f64 \<Rightarrow> f64 option" where
  "decode_float j old = (case j of JNum lit \<Rightarrow> parse_float lit | JNull \<Rightarrow> Some old | _ \<Rightarrow> None)"

text \<open>A pointer field: \<open>null\<close> is the nil pointer.\<close>

definition decode_ptr :: "(json \<Rightarrow> 'a \<Rightarrow> 'a option) \<Rightarrow> 'a \<Rightarrow> json \<Rightarrow> 'a option \<Rightarrow> 'a option option" where
  "decode_ptr dec zero j old =
     (case j of JNull \<Rightarrow> Some None
      | _ \<Rightarrow> map_option Some (dec j (case old of None \<Rightarrow> zero | Some x \<Rightarrow> x)))"

text \<open>A slice: \<open>null\<close> is the nil slice; an element is decoded into the element the slice already has
  at its index (of an earlier array under the same key), else into the zero value.\<close>

definition decode_slice :: "(json \<Rightarrow> 'a \<Rightarrow> 'a option) \<Rightarrow> 'a \<Rightarrow> json \<Rightarrow> 'a list \<Rightarrow> 'a list option" where
  "decode_slice dec zero j old =
     (case j of JNull \<Rightarrow> Some []
      | JArr js \<Rightarrow> those (map2 dec js (take (length js) old @ replicate (length js - length old) zero))
      | _ \<Rightarrow> None)"

text \<open>What an error of \<open>json.Unmarshal\<close> says: the bytes are not JSON, or a value of that kind does
  not fit the Go type. A number that overflows a \<open>float64\<close> is quoted.\<close>

datatype json_error = JSyntax | JTypeError string string

fun json_kind :: "json \<Rightarrow> string" where
  "json_kind JNull = ''null''"
| "json_kind (JBool b) = ''bool''"
| "json_kind (JNum lit) = ''number''"
| "json_kind (JStr s) = ''string''"
| "json_kind (JArr js) = ''array''"
| "json_kind (JObj kvs) = ''object''"

definition unmarshal :: "string \<Rightarrow> (json \<Rightarrow> 'a \<Rightarrow> 'a option) \<Rightarrow> 'a \<Rightarrow> raw_message \<Rightarrow> json_error + 'a" where
  "unmarshal tyname dec zero raw =
     (case raw of
        None \<Rightarrow> Inl JSyntax
      | Some j \<Rightarrow> of_option (JTypeError (json_kind j) tyname) (dec j zero))"

definition unmarshal_float :: "raw_message \<Rightarrow> json_error + f64" where
  "unmarshal_float raw =
     (case raw of
        Some (JNum lit) \<Rightarrow> of_option (JTypeError (''number '' @ lit) ''float64'') (parse_float lit)
      | _ \<Rightarrow> unmarshal ''float64'' decode_float (Fin 0) raw)"

text \<open>A struct: each key of the object updates the field it matches.\<close>

fun decode_keys :: "(string \<times> (json \<Rightarrow> 's \<Rightarrow> 's option)) list \<Rightarrow> (string \<times> json) list \<Rightarrow> 's \<Rightarrow> 's option" where
  "decode_keys fs [] st = Some st"
| "decode_keys fs ((k, j) # kvs) st =
     (case find (\<lambda>(n, _). json_fold n = json_fold k) fs of
        None \<Rightarrow> decode_keys fs kvs st
      | Some (_, upd) \<Rightarrow> Option.bind (upd j st) (decode_keys fs kvs))"

definition decode_struct :: "(string \<times> (json \<Rightarrow> 's \<Rightarrow> 's option)) list \<Rightarrow> json \<Rightarrow> 's \<Rightarrow> 's option" where
  "decode_struct fs j st =
     (case j of JObj kvs \<Rightarrow> decode_keys fs kvs st | JNull \<Rightarrow> Some st | _ \<Rightarrow> None)"

definition field_of :: "string \<Rightarrow> ('s \<Rightarrow> 'a) \<Rightarrow> (('a \<Rightarrow> 'a) \<Rightarrow> 's \<Rightarrow> 's) \<Rightarrow> (json \<Rightarrow> 'a \<Rightarrow> 'a option)
    \<Rightarrow> string \<times> (json \<Rightarrow> 's \<Rightarrow> 's option)" where
  "field_of name get upd dec =
     (name, \<lambda>j st. map_option (\<lambda>v. upd (\<lambda>_. v) st) (dec j (get st)))"

end
