(* ===== verification/HttpUtils.thy ===== *)
theory HttpUtils
  imports GoJson
begin

text \<open>
  The package \<open>httputils\<close> (\<open>src/httputils/errors.go\<close>, \<open>responses.go\<close>): the error envelope and
  the functions that send it. Gin is third-party code; what the program relies on is the
  request context below: the request's method, path, client address and headers, the keys set
  by middlewares, whether the chain was aborted, the response written, and the log. A response
  body is the JSON the envelope marshals to. \<open>logger = False\<close> is a nil logger.
\<close>

subsection \<open>The request context\<close>

datatype log_level = Info | Warn | Err
datatype log_value = LStr string | LInt int | LBool bool

record log_entry =
  le_level :: log_level
  le_message :: string
  le_fields :: "(string \<times> log_value) list"

type_synonym http_header = "string \<Rightarrow> string list"

record Claims =
  Email :: string
  Sub :: string
  Tier :: string
  Roles :: "string list"

datatype ctx_value = CVString string | CVClaims Claims | CVOther

record gin_ctx =
  g_method :: string
  g_path :: string
  g_clientIP :: string
  g_header :: http_header
  g_keys :: "string \<Rightarrow> ctx_value option"
  g_trust :: "http_header option"          \<comment> \<open>the trust headers on the request's context\<close>
  g_aborted :: bool
  g_response :: "(int \<times> json) option"
  g_log :: "log_entry list"

definition log_to :: "log_level \<Rightarrow> string \<Rightarrow> (string \<times> log_value) list \<Rightarrow> gin_ctx \<Rightarrow> gin_ctx" where
  "log_to lv msg fs c = c\<lparr>g_log := g_log c @ [\<lparr>le_level = lv, le_message = msg, le_fields = fs\<rparr>]\<rparr>"

text \<open>\<open>c.AbortWithStatusJSON\<close>, \<open>c.JSON\<close>, \<open>c.Abort\<close>. A response that is already there stays:
  its status line has been sent.\<close>

definition write_json :: "int \<Rightarrow> json \<Rightarrow> gin_ctx \<Rightarrow> gin_ctx" where
  "write_json status body c =
     c\<lparr>g_response := (case g_response c of None \<Rightarrow> Some (status, body) | Some r \<Rightarrow> Some r)\<rparr>"

definition gin_abort :: "gin_ctx \<Rightarrow> gin_ctx" where
  "gin_abort c = c\<lparr>g_aborted := True\<rparr>"

definition abort_with_json :: "int \<Rightarrow> json \<Rightarrow> gin_ctx \<Rightarrow> gin_ctx" where
  "abort_with_json status body c = write_json status body (gin_abort c)"

lemmas ctx_defs [step_defs] = log_to_def write_json_def gin_abort_def abort_with_json_def

subsection \<open>Error codes and envelopes\<close>

definition CodeValidationError :: string where "CodeValidationError = ''VALIDATION_ERROR''"
definition CodeAuthFailed :: string where "CodeAuthFailed = ''AUTHENTICATION_FAILED''"
definition CodeForbidden :: string where "CodeForbidden = ''FORBIDDEN''"
definition CodeNotFound :: string where "CodeNotFound = ''NOT_FOUND''"
definition CodeQuotaExceeded :: string where "CodeQuotaExceeded = ''QUOTA_EXCEEDED''"
definition CodeInternalError :: string where "CodeInternalError = ''INTERNAL_ERROR''"
definition CodeUpstreamError :: string where "CodeUpstreamError = ''UPSTREAM_ERROR''"
definition CodeDataSourceUnavail :: string where "CodeDataSourceUnavail = ''DATA_SOURCE_UNAVAILABLE''"

lemmas code_defs = CodeValidationError_def CodeAuthFailed_def CodeForbidden_def CodeNotFound_def
  CodeQuotaExceeded_def CodeInternalError_def CodeUpstreamError_def CodeDataSourceUnavail_def

record FieldError =
  fe_code :: string
  fe_field :: string
  fe_message :: string

record APIError =
  ae_status :: int
  ae_code :: string
  ae_message :: string
  ae_errors :: "FieldError list"

text \<open>The structs as \<open>json.Marshal\<close> writes them, \<open>omitempty\<close> fields left out when empty.\<close>

definition FieldError_json :: "FieldError \<Rightarrow> json" where
  "FieldError_json f = JObj ((''code'', JStr (fe_code f))
     # (if fe_field f = [] then [] else [(''field'', JStr (fe_field f))])
     @ [(''message'', JStr (fe_message f))])"

definition APIError_json :: "APIError \<Rightarrow> json" where
  "APIError_json e = JObj ([(''httpStatus'', JNum (int_to_string (ae_status e))),
      (''code'', JStr (ae_code e)), (''message'', JStr (ae_message e))]
     @ (if ae_errors e = [] then [] else [(''errors'', JArr (List.map FieldError_json (ae_errors e)))]))"

definition APIError_Error :: "APIError \<Rightarrow> string" where
  "APIError_Error e = ae_code e @ '': '' @ ae_message e @ '' (HTTP '' @ int_to_string (ae_status e) @ '')''"

definition ValidationError_Error :: "FieldError list \<Rightarrow> string" where
  "ValidationError_Error fs = join_with ''; ''
     (List.map (\<lambda>f. if fe_field f \<noteq> [] then fe_field f @ '': '' @ fe_message f else fe_message f) fs)"

subsection \<open>Sending errors\<close>

definition req_fields :: "gin_ctx \<Rightarrow> (string \<times> log_value) list" where
  "req_fields c = [(''method'', LStr (g_method c)), (''path'', LStr (g_path c)), (''clientIP'', LStr (g_clientIP c))]"

definition SendAPIError :: "gin_ctx \<Rightarrow> int \<Rightarrow> string \<Rightarrow> string \<Rightarrow> FieldError list \<Rightarrow> gin_ctx" where
  "SendAPIError c status code message fs =
     (let resp = \<lparr>ae_status = status, ae_code = code, ae_message = message, ae_errors = fs\<rparr>;
          logFields = [(''errorCode'', LStr code), (''httpStatus'', LInt status)] @ req_fields c
      in abort_with_json status (APIError_json resp)
           (log_to (if status \<ge> 500 then Err else Warn) ''Error response'' logFields c))"

definition SendValidationError :: "gin_ctx \<Rightarrow> FieldError list \<Rightarrow> gin_ctx" where
  "SendValidationError c fs =
     (let noun = (if length fs = 1 then ''parameter'' else ''parameters'');
          msg = nat_to_string (length fs) @ '' request '' @ noun @ '' failed validation. See errors[].''
      in SendAPIError c 400 CodeValidationError msg fs)"

text \<open>The senders that take an internal error (its text, or \<open>None\<close> for nil) log it and keep it
  out of the response.\<close>

definition log_internal :: "log_level \<Rightarrow> string \<Rightarrow> bool \<Rightarrow> (string \<times> log_value) list \<Rightarrow> string option
    \<Rightarrow> (string \<times> log_value) list \<Rightarrow> gin_ctx \<Rightarrow> gin_ctx" where
  "log_internal lv msg logger pre internalErr post c =
     (case internalErr of
        Some e \<Rightarrow> if logger then log_to lv msg (pre @ [(''error'', LStr e)] @ req_fields c @ post) c else c
      | None \<Rightarrow> c)"

definition SendAuthError :: "gin_ctx \<Rightarrow> bool \<Rightarrow> string option \<Rightarrow> gin_ctx" where
  "SendAuthError c logger internalErr =
     abort_with_json 401 (APIError_json \<lparr>ae_status = 401, ae_code = CodeAuthFailed,
         ae_message = ''Authentication failed. Please provide a valid access token.'', ae_errors = []\<rparr>)
       (log_internal Warn ''Authentication failed'' logger [] internalErr [] c)"

definition SendQuotaError :: "gin_ctx \<Rightarrow> bool \<Rightarrow> string option \<Rightarrow> gin_ctx" where
  "SendQuotaError c logger internalErr =
     abort_with_json 429 (APIError_json \<lparr>ae_status = 429, ae_code = CodeQuotaExceeded,
         ae_message = ''API quota exceeded. Please try again later.'', ae_errors = []\<rparr>)
       (log_internal Warn ''Quota exceeded'' logger [] internalErr [] c)"

definition SendUpstreamError :: "unicode \<Rightarrow> gin_ctx \<Rightarrow> bool \<Rightarrow> string \<Rightarrow> string option \<Rightarrow> gin_ctx" where
  "SendUpstreamError U c logger sourceName internalErr =
     (let f = \<lparr>fe_code = CodeDataSourceUnavail,
               fe_field = to_lower U (replace_char CHR '' '' CHR ''_'' sourceName),
               fe_message = sourceName @ '' is temporarily unavailable; please retry.''\<rparr>
      in abort_with_json 502 (APIError_json \<lparr>ae_status = 502, ae_code = CodeUpstreamError,
           ae_message = ''Upstream data source unavailable.'', ae_errors = [f]\<rparr>)
         (log_internal Err ''Upstream data source error'' logger [(''source'', LStr sourceName)] internalErr [] c))"

definition request_id :: "gin_ctx \<Rightarrow> string" where
  "request_id c = (case g_keys c ''X-Request-Id'' of Some (CVString s) \<Rightarrow> s | _ \<Rightarrow> [])"

definition SendInternalError :: "gin_ctx \<Rightarrow> bool \<Rightarrow> string option \<Rightarrow> gin_ctx" where
  "SendInternalError c logger internalErr =
     (let rid = request_id c;
          post = (if rid \<noteq> [] then [(''requestId'', LStr rid)] else []);
          msg = (if rid \<noteq> []
                 then ''An unexpected error occurred. Reference request ID '' @ rid @ '' when contacting support.''
                 else ''An unexpected error occurred. Please try again later.'')
      in abort_with_json 500 (APIError_json \<lparr>ae_status = 500, ae_code = CodeInternalError,
           ae_message = msg, ae_errors = []\<rparr>)
         (log_internal Err ''Internal server error'' logger [] internalErr post c))"

definition SendNotFound :: "gin_ctx \<Rightarrow> bool \<Rightarrow> gin_ctx" where
  "SendNotFound c logger =
     abort_with_json 404 (APIError_json \<lparr>ae_status = 404, ae_code = CodeNotFound,
         ae_message = ''The requested endpoint does not exist.'', ae_errors = []\<rparr>)
       (if logger then log_to Warn ''Not found'' (req_fields c) c else c)"

definition SendForbidden :: "gin_ctx \<Rightarrow> bool \<Rightarrow> string option \<Rightarrow> gin_ctx" where
  "SendForbidden c logger internalErr =
     abort_with_json 403 (APIError_json \<lparr>ae_status = 403, ae_code = CodeForbidden,
         ae_message = ''Insufficient permissions to access this resource.'', ae_errors = []\<rparr>)
       (log_internal Warn ''Forbidden'' logger [] internalErr [] c)"

lemmas send_defs = SendAPIError_def SendValidationError_def SendAuthError_def SendQuotaError_def
  SendUpstreamError_def SendInternalError_def SendNotFound_def SendForbidden_def

subsection \<open>Success responses\<close>

record ResponseServer =
  rs_status :: int
  rs_data :: json
  rs_message :: string

definition NewServerResponse :: ResponseServer where
  "NewServerResponse = \<lparr>rs_status = 200, rs_data = JStr ''Data'', rs_message = ''Data Message''\<rparr>"

definition WithMessage :: "string \<Rightarrow> ResponseServer \<Rightarrow> ResponseServer" where
  "WithMessage m r = r\<lparr>rs_message := m\<rparr>"

definition WithData :: "json \<Rightarrow> ResponseServer \<Rightarrow> ResponseServer" where
  "WithData d r = r\<lparr>rs_data := d\<rparr>"

definition WithHTTPStatus :: "int \<Rightarrow> ResponseServer \<Rightarrow> ResponseServer" where
  "WithHTTPStatus s r = r\<lparr>rs_status := s\<rparr>"

subsection \<open>Properties\<close>

text \<open>A response is an error envelope when its body carries the status it is sent with.\<close>

definition error_response :: "int \<Rightarrow> string \<Rightarrow> gin_ctx \<Rightarrow> bool" where
  "error_response status code c \<longleftrightarrow>
     (\<exists>msg errs. g_response c = Some (status, APIError_json
        \<lparr>ae_status = status, ae_code = code, ae_message = msg, ae_errors = errs\<rparr>))"

lemma log_internal_simps [simp]:
  "g_response (log_internal lv m lg pre e post c) = g_response c"
  "g_aborted (log_internal lv m lg pre e post c) = g_aborted c"
  "g_keys (log_internal lv m lg pre e post c) = g_keys c"
  "g_header (log_internal lv m lg pre e post c) = g_header c"
  "g_trust (log_internal lv m lg pre e post c) = g_trust c"
  by (simp_all add: log_internal_def log_to_def split: option.split)

lemma abort_with_json_simps [simp]:
  "g_aborted (abort_with_json st b c)"
  "g_response c = None \<Longrightarrow> g_response (abort_with_json st b c) = Some (st, b)"
  "g_log (abort_with_json st b c) = g_log c"
  "g_keys (abort_with_json st b c) = g_keys c"
  "g_header (abort_with_json st b c) = g_header c"
  "g_trust (abort_with_json st b c) = g_trust c"
  by (simp_all add: ctx_defs)

lemma abort_with_json_response:
  "g_response (abort_with_json st b c) = (case g_response c of None \<Rightarrow> Some (st, b) | Some r \<Rightarrow> Some r)"
  by (simp add: ctx_defs)

lemma log_to_simps [simp]:
  "g_response (log_to lv m fs c) = g_response c" "g_aborted (log_to lv m fs c) = g_aborted c"
  "g_keys (log_to lv m fs c) = g_keys c" "g_header (log_to lv m fs c) = g_header c"
  "g_trust (log_to lv m fs c) = g_trust c"
  "g_log (log_to lv m fs c) = g_log c @ [\<lparr>le_level = lv, le_message = m, le_fields = fs\<rparr>]"
  by (simp_all add: log_to_def)

text \<open>Nothing of an internal error reaches the client. For each of the five senders that
  take one, the response, the abort flag and the keys are the same whatever the error is (its
  text only reaches the log), also with a nil error or a nil logger.\<close>

lemma internal_error_not_disclosed:
  "g_response (SendAuthError c l e) = g_response (SendAuthError c l' e')
   \<and> g_response (SendQuotaError c l e) = g_response (SendQuotaError c l' e')
   \<and> g_response (SendUpstreamError U c l src e) = g_response (SendUpstreamError U c l' src e')
   \<and> g_response (SendInternalError c l e) = g_response (SendInternalError c l' e')
   \<and> g_response (SendForbidden c l e) = g_response (SendForbidden c l' e')"
  by (simp add: send_defs Let_def abort_with_json_response)

text \<open>Every sender aborts the chain and answers with one envelope whose \<open>httpStatus\<close> is the
  status of the response and whose code is the one of the catalogue.\<close>

lemma senders_envelope:
  assumes "g_response c = None"
  shows "error_response status code (SendAPIError c status code msg fs)
   \<and> error_response 400 CodeValidationError (SendValidationError c fs)
   \<and> error_response 401 CodeAuthFailed (SendAuthError c l e)
   \<and> error_response 429 CodeQuotaExceeded (SendQuotaError c l e)
   \<and> error_response 502 CodeUpstreamError (SendUpstreamError U c l src e)
   \<and> error_response 500 CodeInternalError (SendInternalError c l e)
   \<and> error_response 404 CodeNotFound (SendNotFound c l)
   \<and> error_response 403 CodeForbidden (SendForbidden c l e)
   \<and> (\<forall>c'\<in>{SendAPIError c status code msg fs, SendValidationError c fs, SendAuthError c l e, SendQuotaError c l e,
        SendUpstreamError U c l src e, SendInternalError c l e, SendNotFound c l, SendForbidden c l e}. g_aborted c')"
  using assms by (auto simp: error_response_def send_defs Let_def)

definition fresh_ctx :: gin_ctx where
  "fresh_ctx = \<lparr>g_method = ''GET'', g_path = ''/'', g_clientIP = ''10.0.0.1'', g_header = (\<lambda>_. []),
     g_keys = (\<lambda>_. None), g_trust = None, g_aborted = False, g_response = None, g_log = []\<rparr>"

theorem senders_envelope_witness:
  "error_response 404 CodeNotFound (SendNotFound fresh_ctx True) \<and> g_aborted (SendNotFound fresh_ctx True)"
  using senders_envelope[of fresh_ctx] by (simp add: fresh_ctx_def)

text \<open>\<open>SendAPIError\<close> writes exactly one log entry, at error level for 5xx and at warning
  level otherwise.\<close>

lemma SendAPIError_logs:
  "\<exists>en. g_log (SendAPIError c status code msg fs) = g_log c @ [en]
     \<and> le_level en = (if status \<ge> 500 then Err else Warn)
     \<and> (''errorCode'', LStr code) \<in> set (le_fields en)"
  by (simp add: SendAPIError_def Let_def)

end
