(* ===== verification/ClaimsAuth.thy ===== *)
theory ClaimsAuth
  imports HttpUtils
begin

text \<open>
  The package \<open>claims\<close> (\<open>src/claims/headers.go\<close>, \<open>claims.go\<close>): the gateway-trust headers, the
  middlewares \<open>FromHeader\<close> and \<open>RequireAdmin\<close>, and the east-west propagation of the headers.
  The process environment is a map of variables; a middleware is a function on the request
  context, and Gin runs the next handler of a chain unless the context was aborted.
\<close>

subsection \<open>Headers\<close>

definition HeaderUserEmail :: string where "HeaderUserEmail = ''X-Atmosoar-User-Email''"
definition HeaderUserSub :: string where "HeaderUserSub = ''X-Atmosoar-User-Sub''"
definition HeaderUserTier :: string where "HeaderUserTier = ''X-Atmosoar-User-Tier''"
definition HeaderUserRoles :: string where "HeaderUserRoles = ''X-Atmosoar-User-Roles''"
definition HeaderUserOrgs :: string where "HeaderUserOrgs = ''X-Atmosoar-User-Orgs''"
definition HeaderUserTeams :: string where "HeaderUserTeams = ''X-Atmosoar-User-Teams''"
definition HeaderIdentityVersion :: string where "HeaderIdentityVersion = ''X-Atmosoar-Identity-Version''"
definition HeaderAdmin :: string where "HeaderAdmin = ''X-Atmosoar-Admin''"
definition AdminHeaderValue :: string where "AdminHeaderValue = ''1''"
definition CurrentIdentityVersion :: string where "CurrentIdentityVersion = ''1''"

lemmas header_defs = HeaderUserEmail_def HeaderUserSub_def HeaderUserTier_def HeaderUserRoles_def
  HeaderUserOrgs_def HeaderUserTeams_def HeaderIdentityVersion_def HeaderAdmin_def

definition ContextKey :: string where "ContextKey = ''claims''"

definition AllTrustHeaders :: "string list" where
  "AllTrustHeaders = [HeaderUserEmail, HeaderUserSub, HeaderUserTier, HeaderUserRoles,
     HeaderUserOrgs, HeaderUserTeams, HeaderIdentityVersion, HeaderAdmin]"

definition PropagatedTrustHeaders :: "string list" where
  "PropagatedTrustHeaders = [HeaderUserEmail, HeaderUserSub, HeaderUserTier, HeaderUserRoles,
     HeaderIdentityVersion]"

text \<open>\<open>http.Header\<close>: values by canonical name. The names above are canonical, so \<open>Get\<close> reads
  the first value of exactly that name and \<open>Set\<close> replaces all of them.\<close>

definition header_get :: "http_header \<Rightarrow> string \<Rightarrow> string" where
  "header_get h name = (case h name of [] \<Rightarrow> [] | v # _ \<Rightarrow> v)"

definition header_set :: "string \<Rightarrow> string \<Rightarrow> http_header \<Rightarrow> http_header" where
  "header_set name v h = h(name := [v])"

definition empty_header :: http_header where "empty_header = (\<lambda>_. [])"

definition GetHeader :: "gin_ctx \<Rightarrow> string \<Rightarrow> string" where
  "GetHeader c name = header_get (g_header c) name"

text \<open>The trust headers on a request's context.\<close>

definition WithTrustHeaders :: "http_header option \<Rightarrow> gin_ctx \<Rightarrow> gin_ctx" where
  "WithTrustHeaders h c = c\<lparr>g_trust := h\<rparr>"

definition TrustHeadersFromContext :: "gin_ctx \<Rightarrow> http_header option" where
  "TrustHeadersFromContext c = g_trust c"

subsection \<open>The trust switch\<close>

type_synonym environ = "string \<Rightarrow> string option"

definition EnvTrustHeaders :: string where "EnvTrustHeaders = ''ATMOSOAR_TRUST_GATEWAY_HEADERS''"
definition EnvInsecureAdmin :: string where "EnvInsecureAdmin = ''ATMOSOAR_INSECURE_ADMIN''"

definition legacyTrustEnvVars :: "string list" where
  "legacyTrustEnvVars = [''MMA_TRUST_GATEWAY_HEADERS'', ''RADAR_TRUST_GATEWAY_HEADERS'',
     ''OBSERVATIONS_TRUST_GATEWAY_HEADERS'', ''OBSERVATION_TRUST_GATEWAY_HEADERS'',
     ''METAR_TRUST_GATEWAY_HEADERS'', ''ELEVATION_TRUST_GATEWAY_HEADERS'']"

text \<open>\<open>strings.EqualFold\<close> against an ASCII constant.\<close>

definition equal_fold :: "string \<Rightarrow> string \<Rightarrow> bool" where
  "equal_fold s t \<longleftrightarrow> json_fold s = json_fold t"

fun legacy_source :: "environ \<Rightarrow> string list \<Rightarrow> bool \<times> string" where
  "legacy_source env [] = (True, [])"
| "legacy_source env (k # ks) =
     (case env k of Some v \<Rightarrow> (\<not> equal_fold v ''false'', k) | None \<Rightarrow> legacy_source env ks)"

definition trustSource :: "environ \<Rightarrow> bool \<times> string" where
  "trustSource env =
     (case env EnvTrustHeaders of
        Some v \<Rightarrow> (\<not> equal_fold v ''false'', EnvTrustHeaders)
      | None \<Rightarrow> legacy_source env legacyTrustEnvVars)"

definition TrustEnabled :: "environ \<Rightarrow> bool" where
  "TrustEnabled env = fst (trustSource env)"

definition insecureAdminEnabled :: "environ \<Rightarrow> bool" where
  "insecureAdminEnabled env = equal_fold (case env EnvInsecureAdmin of Some v \<Rightarrow> v | None \<Rightarrow> []) ''true''"

subsection \<open>Claims\<close>

definition appRoles :: "string \<Rightarrow> bool" where
  "appRoles r \<longleftrightarrow> r \<in> {''administrator'', ''dispatcher'', ''pilot''}"

definition GetApplicationRoles :: "Claims \<Rightarrow> string list" where
  "GetApplicationRoles c = filter appRoles (Roles c)"

definition splitRoles :: "unicode \<Rightarrow> string \<Rightarrow> string list" where
  "splitRoles U header =
     (if header = [] then []
      else filter (\<lambda>s. s \<noteq> []) (List.map (trim_space U) (split_on CHR '','' header)))"

subsection \<open>Propagation\<close>

text \<open>\<open>captureTrustHeaders\<close> and \<open>PropagateTrustHeaders\<close> copy the same list of names, skipping
  empty values. The process-wide logger and its one-shot warning are the state \<open>propagate\<close>.\<close>

fun copy_headers :: "string list \<Rightarrow> http_header \<Rightarrow> http_header \<Rightarrow> http_header" where
  "copy_headers [] src dst = dst"
| "copy_headers (n # ns) src dst =
     copy_headers ns src (if header_get src n \<noteq> [] then header_set n (header_get src n) dst else dst)"

definition captureTrustHeaders :: "gin_ctx \<Rightarrow> http_header" where
  "captureTrustHeaders c = copy_headers PropagatedTrustHeaders (g_header c) empty_header"

record propagate =
  p_logger :: bool
  p_warned :: bool
  p_log :: "log_entry list"

definition SetPropagateLogger :: "bool \<Rightarrow> propagate \<Rightarrow> propagate" where
  "SetPropagateLogger l p = (if \<not> p_logger p then p\<lparr>p_logger := l\<rparr> else p)"

definition propagate_warning :: log_entry where
  "propagate_warning = \<lparr>le_level = Warn, le_message =
     ''east-west call without gateway trust headers; outbound request will be unauthenticated. If ATMOSOAR_TRUST_GATEWAY_HEADERS=false this is expected in local dev; in production this indicates a misrouted request or middleware misconfiguration'',
     le_fields = []\<rparr>"

definition PropagateTrustHeaders :: "gin_ctx \<Rightarrow> http_header \<Rightarrow> propagate \<Rightarrow> http_header \<times> propagate" where
  "PropagateTrustHeaders ctx req p =
     (case TrustHeadersFromContext ctx of
        None \<Rightarrow> (req, if p_logger p \<and> \<not> p_warned p
                  then p\<lparr>p_warned := True, p_log := p_log p @ [propagate_warning]\<rparr> else p)
      | Some src \<Rightarrow> (copy_headers PropagatedTrustHeaders src req, p))"

subsection \<open>Middlewares\<close>

definition FromHeader :: "unicode \<Rightarrow> environ \<Rightarrow> gin_ctx \<Rightarrow> gin_ctx" where
  "FromHeader U env c0 =
     (let trust = fst (trustSource env);
          c = WithTrustHeaders (Some (captureTrustHeaders c0)) c0 in
      if \<not> trust then c
      else let version = GetHeader c HeaderIdentityVersion in
        if version = [] then
          gin_abort (SendAPIError
            (log_to Warn ''Gateway identity headers missing''
               ((''missing_header'', LStr HeaderIdentityVersion) # req_fields c) c)
            401 CodeAuthFailed
            ''Gateway identity headers missing. Requests must originate from the Atmosoar Gateway.'' [])
        else if version \<noteq> CurrentIdentityVersion then
          gin_abort (SendInternalError c True (Some (
            ''unsupported '' @ HeaderIdentityVersion @ ''='' @ go_quote U version @ '' (expected '' @
            go_quote U CurrentIdentityVersion @
            ''); gateway and backend must be rolled together for contract bumps'')))
        else c\<lparr>g_keys := (g_keys c)(ContextKey \<mapsto> CVClaims
               \<lparr>Email = GetHeader c HeaderUserEmail, Sub = GetHeader c HeaderUserSub,
                Tier = GetHeader c HeaderUserTier, Roles = splitRoles U (GetHeader c HeaderUserRoles)\<rparr>)\<rparr>)"

definition adminPassThrough :: "environ \<Rightarrow> bool" where
  "adminPassThrough env \<longleftrightarrow> \<not> fst (trustSource env) \<and> insecureAdminEnabled env"

definition RequireAdmin :: "environ \<Rightarrow> gin_ctx \<Rightarrow> gin_ctx" where
  "RequireAdmin env c =
     (if adminPassThrough env then c
      else if GetHeader c HeaderAdmin \<noteq> AdminHeaderValue then
        gin_abort (SendForbidden
          (log_to Warn ''admin route accessed without gateway admin header'' (req_fields c) c)
          True (Some (''missing '' @ HeaderAdmin @ ''; caller lacks api:admin access'')))
      else c)"

definition FromContext :: "gin_ctx \<Rightarrow> Claims option" where
  "FromContext c = (case g_keys c ContextKey of Some (CVClaims cl) \<Rightarrow> Some cl | _ \<Rightarrow> None)"

text \<open>Gin's chain: the handlers run in order, each only if nothing before it aborted.\<close>

fun run_chain :: "(gin_ctx \<Rightarrow> gin_ctx) list \<Rightarrow> gin_ctx \<Rightarrow> gin_ctx" where
  "run_chain [] c = c"
| "run_chain (h # hs) c = (if g_aborted c then c else run_chain hs (h c))"

subsection \<open>Lemmas\<close>

lemma trust_headers_distinct: "distinct AllTrustHeaders"
  by (simp add: AllTrustHeaders_def header_defs)

lemma copy_headers_other: "n \<notin> set ns \<Longrightarrow> copy_headers ns src dst n = dst n"
  by (induction ns arbitrary: dst) (auto simp: header_set_def)

lemma copy_headers_in:
  "distinct ns \<Longrightarrow> n \<in> set ns \<Longrightarrow>
     copy_headers ns src dst n = (if header_get src n \<noteq> [] then [header_get src n] else dst n)"
  by (induction ns arbitrary: dst) (auto simp: header_set_def copy_headers_other)

lemma HeaderAdmin_not_propagated: "HeaderAdmin \<notin> set PropagatedTrustHeaders"
  by (simp add: PropagatedTrustHeaders_def header_defs)

lemma propagated_subset: "set PropagatedTrustHeaders \<subseteq> set AllTrustHeaders"
  by (auto simp: PropagatedTrustHeaders_def AllTrustHeaders_def)

lemma propagated_distinct: "distinct PropagatedTrustHeaders"
  by (simp add: PropagatedTrustHeaders_def header_defs)

lemma run_chain_aborted [simp]: "g_aborted c \<Longrightarrow> run_chain hs c = c"
  by (cases hs) auto

lemma error_response_abort [simp]: "error_response st code (gin_abort c) = error_response st code c"
  by (simp add: error_response_def gin_abort_def)

lemma error_response_forbidden:
  "g_response c = None \<Longrightarrow> error_response 403 CodeForbidden (SendForbidden c l e)"
  by (auto simp: error_response_def SendForbidden_def)

lemma gin_abort_simps [simp]:
  "g_aborted (gin_abort c)" "g_response (gin_abort c) = g_response c" "g_keys (gin_abort c) = g_keys c"
  "g_trust (gin_abort c) = g_trust c"
  by (simp_all add: gin_abort_def)

lemma WithTrustHeaders_simps [simp]:
  "g_trust (WithTrustHeaders h c) = h" "g_header (WithTrustHeaders h c) = g_header c"
  "g_keys (WithTrustHeaders h c) = g_keys c" "g_aborted (WithTrustHeaders h c) = g_aborted c"
  "g_response (WithTrustHeaders h c) = g_response c" "g_log (WithTrustHeaders h c) = g_log c"
  by (simp_all add: WithTrustHeaders_def)

lemma FromHeader_trust: "TrustHeadersFromContext (FromHeader U env c) = Some (captureTrustHeaders c)"
  by (simp add: TrustHeadersFromContext_def FromHeader_def Let_def SendAPIError_def SendInternalError_def)

subsection \<open>Properties\<close>

text \<open>C3. No way past the admin check. When a handler mounted behind \<open>FromHeader\<close> and
  \<open>RequireAdmin\<close> runs (the chain is not aborted before it), either the request carried the
  admin header with exactly the gateway's value, or trust enforcement and admin protection
  were both switched off in the environment; and with trust on, the identity version was the
  current one.\<close>

theorem admin_chain_guard:
  assumes "\<not> g_aborted (run_chain [FromHeader U env, RequireAdmin env] c)"
  shows "(GetHeader c HeaderAdmin = AdminHeaderValue \<or> \<not> TrustEnabled env \<and> insecureAdminEnabled env)
    \<and> (TrustEnabled env \<longrightarrow> GetHeader c HeaderIdentityVersion = CurrentIdentityVersion)"
  using assms
  by (auto simp: FromHeader_def RequireAdmin_def adminPassThrough_def TrustEnabled_def GetHeader_def Let_def
      split: if_splits)

definition admin_ctx :: gin_ctx where
  "admin_ctx = fresh_ctx\<lparr>g_header := header_set HeaderAdmin ''1'' (header_set HeaderIdentityVersion ''1'' empty_header)\<rparr>"

theorem admin_chain_guard_witness:
  "\<not> g_aborted (run_chain [FromHeader ascii_only (\<lambda>_. None), RequireAdmin (\<lambda>_. None)] admin_ctx)
   \<and> GetHeader admin_ctx HeaderAdmin = AdminHeaderValue"
proof -
  have n: "\<not> g_aborted (run_chain [FromHeader ascii_only (\<lambda>_. None), RequireAdmin (\<lambda>_. None)] admin_ctx)"
    by (simp add: FromHeader_def RequireAdmin_def adminPassThrough_def trustSource_def legacyTrustEnvVars_def
        GetHeader_def admin_ctx_def header_get_def header_set_def Let_def fresh_ctx_def
        CurrentIdentityVersion_def AdminHeaderValue_def header_defs)
  have "TrustEnabled (\<lambda>_. None)" by (simp add: TrustEnabled_def trustSource_def legacyTrustEnvVars_def)
  with admin_chain_guard[OF n] n show ?thesis by simp
qed

text \<open>The trust switch alone never opens the admin routes: with enforcement off but no
  insecure-admin opt-in, a request without the admin header is refused with a 403 envelope.\<close>

lemma trust_off_keeps_admin_closed:
  assumes "\<not> insecureAdminEnabled env" "GetHeader c HeaderAdmin \<noteq> AdminHeaderValue" "g_response c = None"
  shows "g_aborted (RequireAdmin env c) \<and> error_response 403 CodeForbidden (RequireAdmin env c)"
  using assms by (simp add: RequireAdmin_def adminPassThrough_def error_response_forbidden)

theorem trust_off_keeps_admin_closed_witness:
  "g_aborted (RequireAdmin (\<lambda>v. if v = EnvTrustHeaders then Some ''false'' else None) fresh_ctx)
   \<and> \<not> TrustEnabled (\<lambda>v. if v = EnvTrustHeaders then Some ''false'' else None)"
proof -
  let ?env = "\<lambda>v. if v = EnvTrustHeaders then Some ''false'' else None"
  have "\<not> insecureAdminEnabled ?env" by (simp add: insecureAdminEnabled_def EnvInsecureAdmin_def EnvTrustHeaders_def equal_fold_def)
  moreover have "\<not> TrustEnabled ?env" by (simp add: TrustEnabled_def trustSource_def equal_fold_def)
  ultimately show ?thesis
    using trust_off_keeps_admin_closed[of ?env fresh_ctx]
    by (simp add: fresh_ctx_def GetHeader_def header_get_def AdminHeaderValue_def)
qed

text \<open>C6. Admin privilege is not forwarded. An outbound request made from the context of a request
  that \<open>FromHeader\<close> saw carries the non-empty propagated headers of that inbound request, with
  their inbound value, and every other header of the outbound request is left alone, the admin
  header among them. No log entry is written and the one-shot warning is not used up.\<close>

theorem propagation_exact:
  assumes "PropagateTrustHeaders (FromHeader U env c) req p = (req', p')"
  shows "p' = p \<and> req' HeaderAdmin = req HeaderAdmin
    \<and> (\<forall>n. req' n = (if n \<in> set PropagatedTrustHeaders \<and> GetHeader c n \<noteq> [] then [GetHeader c n] else req n))"
proof -
  have cap: "header_get (captureTrustHeaders c) n = GetHeader c n" if "n \<in> set PropagatedTrustHeaders" for n
    using copy_headers_in[OF propagated_distinct that, of "g_header c" empty_header]
    by (simp add: captureTrustHeaders_def header_get_def empty_header_def GetHeader_def)
  have r: "req' = copy_headers PropagatedTrustHeaders (captureTrustHeaders c) req" "p' = p"
    using assms by (auto simp: PropagateTrustHeaders_def FromHeader_trust)
  have n: "req' n = (if n \<in> set PropagatedTrustHeaders \<and> GetHeader c n \<noteq> [] then [GetHeader c n] else req n)" for n
    by (cases "n \<in> set PropagatedTrustHeaders")
      (simp_all add: r copy_headers_in[OF propagated_distinct] copy_headers_other cap)
  then show ?thesis using HeaderAdmin_not_propagated r(2) by simp
qed

definition quiet :: propagate where "quiet = \<lparr>p_logger = False, p_warned = False, p_log = []\<rparr>"

theorem propagation_exact_witness:
  "fst (PropagateTrustHeaders (FromHeader ascii_only (\<lambda>_. None) admin_ctx) empty_header quiet) HeaderAdmin = []
   \<and> fst (PropagateTrustHeaders (FromHeader ascii_only (\<lambda>_. None) admin_ctx) empty_header quiet) HeaderIdentityVersion = [''1'']"
proof -
  obtain req' p' where e: "PropagateTrustHeaders (FromHeader ascii_only (\<lambda>_. None) admin_ctx) empty_header quiet = (req', p')"
    by fastforce
  have "GetHeader admin_ctx HeaderIdentityVersion = ''1''"
    by (simp add: GetHeader_def admin_ctx_def header_get_def header_set_def header_defs)
  then show ?thesis
    using propagation_exact[OF e] e HeaderAdmin_not_propagated
    by (simp add: empty_header_def PropagatedTrustHeaders_def)
qed

text \<open>\<open>splitRoles\<close> inverts the gateway's \<open>strings.Join(roles, ",")\<close>: role names that are
  not empty, contain no comma and carry no surrounding space come back unchanged and in order.\<close>

lemma splitRoles_join:
  assumes "\<forall>r\<in>set roles. r \<noteq> [] \<and> CHR '','' \<notin> set r \<and> trim_space U r = r"
  shows "splitRoles U (join_with '','' roles) = roles"
proof (cases "roles = []")
  case False
  have "List.map (trim_space U) roles = roles" "filter (\<lambda>s. s \<noteq> []) roles = roles"
    using assms by (auto intro: map_idI filter_True)
  moreover have "join_with '','' roles \<noteq> []"
    using False assms by (cases roles; cases "tl roles") auto
  ultimately show ?thesis using split_join[OF False] assms by (simp add: splitRoles_def)
qed (simp add: splitRoles_def)

theorem splitRoles_join_witness:
  "splitRoles ascii_only (join_with '','' [''pilot'', ''dispatcher'']) = [''pilot'', ''dispatcher'']"
  by (rule splitRoles_join) code_simp

text \<open>After \<open>FromHeader\<close> let a request pass with trust on, \<open>FromContext\<close> returns the claims
  of exactly that request's headers.\<close>

lemma FromHeader_claims:
  assumes "TrustEnabled env" "\<not> g_aborted (FromHeader U env c)"
  shows "FromContext (FromHeader U env c) = Some \<lparr>Email = GetHeader c HeaderUserEmail,
    Sub = GetHeader c HeaderUserSub, Tier = GetHeader c HeaderUserTier,
    Roles = splitRoles U (GetHeader c HeaderUserRoles)\<rparr>"
  using assms by (auto simp: FromHeader_def FromContext_def TrustEnabled_def GetHeader_def Let_def split: if_splits)

theorem FromHeader_claims_witness:
  "FromContext (FromHeader ascii_only (\<lambda>_. None) admin_ctx) = Some \<lparr>Email = [], Sub = [], Tier = [], Roles = []\<rparr>"
proof -
  have "\<not> g_aborted (FromHeader ascii_only (\<lambda>_. None) admin_ctx)"
    by (simp add: FromHeader_def trustSource_def legacyTrustEnvVars_def
        GetHeader_def admin_ctx_def header_get_def header_set_def Let_def fresh_ctx_def
        CurrentIdentityVersion_def header_defs)
  moreover have "TrustEnabled (\<lambda>_. None)" by (simp add: TrustEnabled_def trustSource_def legacyTrustEnvVars_def)
  ultimately show ?thesis using FromHeader_claims[of "\<lambda>_. None" ascii_only admin_ctx]
    by (simp add: GetHeader_def admin_ctx_def header_get_def header_set_def header_defs empty_header_def splitRoles_def)
qed

end
