(* ===== verification/GoUrl.thy ===== *)
theory GoUrl
  imports GoPrelude "HOL-Library.Multiset" "HOL-Library.List_Lexorder" "HOL-Library.Char_ord"
begin

text \<open>
  The part of \<open>net/url\<close> the program uses: query strings as lists of values per name
  (\<open>ParseQuery\<close>, \<open>Values.Set\<close>, \<open>Values.Encode\<close>), percent encoding, and \<open>URL.String\<close>. The
  second half shows that an encoded query is read back.
\<close>

subsection \<open>Percent encoding\<close>

datatype encoding = EncPath | EncUserPassword | EncHost | EncQuery | EncFragment

definition upper_hex :: "nat \<Rightarrow> char" where
  "upper_hex d = (if d < 10 then char_of (48 + d) else char_of (55 + d))"

definition unhex :: "char \<Rightarrow> nat option" where
  "unhex c = (if 48 \<le> byte c \<and> byte c \<le> 57 then Some (byte c - 48)
     else if 97 \<le> byte c \<and> byte c \<le> 102 then Some (byte c - 87)
     else if 65 \<le> byte c \<and> byte c \<le> 70 then Some (byte c - 55) else None)"

definition alphanumeric :: "char \<Rightarrow> bool" where
  "alphanumeric c \<longleftrightarrow> 97 \<le> byte c \<and> byte c \<le> 122 \<or> 65 \<le> byte c \<and> byte c \<le> 90 \<or> 48 \<le> byte c \<and> byte c \<le> 57"

definition shouldEscape :: "encoding \<Rightarrow> char \<Rightarrow> bool" where
  "shouldEscape mode c =
     (if alphanumeric c then False
      else if mode = EncHost \<and> c \<in> set (CHR 0x22 # ''!$&'' @ CHR 0x27 # ''()*+,;=:[]<>'') then False
      else if c \<in> set ''-_.~'' then False
      else if c \<in> set ''$&+,/:;=?@'' then
        (case mode of
           EncPath \<Rightarrow> c = CHR ''?''
         | EncUserPassword \<Rightarrow> c \<in> set ''@/?:''
         | EncQuery \<Rightarrow> True
         | EncFragment \<Rightarrow> False
         | EncHost \<Rightarrow> True)
      else if mode = EncFragment \<and> c \<in> set ''!()*'' then False
      else True)"

definition percent :: "char \<Rightarrow> string" where
  "percent c = [CHR ''%'', upper_hex (byte c div 16), upper_hex (byte c mod 16)]"

definition escape_byte :: "encoding \<Rightarrow> char \<Rightarrow> string" where
  "escape_byte mode c =
     (if c = CHR '' '' \<and> mode = EncQuery then ''+''
      else if shouldEscape mode c then percent c else [c])"

definition url_escape :: "encoding \<Rightarrow> string \<Rightarrow> string" where
  "url_escape mode s = concat (List.map (escape_byte mode) s)"

text \<open>\<open>unescape\<close> for the modes of paths, queries and fragments; an incomplete escape is an error.\<close>

fun url_unescape :: "encoding \<Rightarrow> string \<Rightarrow> string option" where
  "url_unescape mode [] = Some []"
| "url_unescape mode (c # s) =
     (if c = CHR ''%'' then
        (case s of
           a # b # r \<Rightarrow>
             (case (unhex a, unhex b) of
                (Some h, Some l) \<Rightarrow> map_option ((#) (char_of (16 * h + l))) (url_unescape mode r)
              | _ \<Rightarrow> None)
         | _ \<Rightarrow> None)
      else map_option ((#) (if c = CHR ''+'' \<and> mode = EncQuery then CHR '' '' else c)) (url_unescape mode s))"

subsection \<open>Query strings\<close>

text \<open>\<open>url.Values\<close>, the names in the order of their first occurrence (a Go map has none; \<open>Encode\<close>
  sorts). \<open>values_get\<close> is \<open>v[k]\<close>, nil for a missing name.\<close>

type_synonym url_values = "(string \<times> string list) list"

definition values_get :: "url_values \<Rightarrow> string \<Rightarrow> string list" where
  "values_get m k = (case map_of m k of None \<Rightarrow> [] | Some vs \<Rightarrow> vs)"

fun add_value :: "string \<Rightarrow> string \<Rightarrow> url_values \<Rightarrow> url_values" where
  "add_value k v [] = [(k, [v])]"
| "add_value k v ((k', vs) # m) = (if k = k' then (k', vs @ [v]) # m else (k', vs) # add_value k v m)"

text \<open>\<open>ParseQuery\<close>: \<open>None\<close> is an error, of which the program only uses that there is one.\<close>

definition maxQueryParams :: nat where "maxQueryParams = 10000"

definition parse_param :: "string \<Rightarrow> (string \<times> string) option" where
  "parse_param part =
     (let (key, v) = (case cut_at CHR ''='' part of None \<Rightarrow> (part, []) | Some kv \<Rightarrow> kv) in
      case url_unescape EncQuery key of
        None \<Rightarrow> None
      | Some k \<Rightarrow> map_option (Pair k) (url_unescape EncQuery v))"

fun parse_query_parts :: "string list \<Rightarrow> url_values \<Rightarrow> url_values option" where
  "parse_query_parts [] m = Some m"
| "parse_query_parts (part # ps) m =
     (if contains_char CHR '';'' part then None
      else if part = [] then parse_query_parts ps m
      else (case parse_param part of None \<Rightarrow> None | Some (k, v) \<Rightarrow> parse_query_parts ps (add_value k v m)))"

definition ParseQuery :: "string \<Rightarrow> url_values option" where
  "ParseQuery q =
     (if maxQueryParams < count_list q CHR ''&'' + 1 then None
      else parse_query_parts (split_on CHR ''&'' q) [])"

definition encode_pair :: "string \<Rightarrow> string \<Rightarrow> string" where
  "encode_pair k v = url_escape EncQuery k @ CHR ''='' # url_escape EncQuery v"

definition sorted_pairs :: "url_values \<Rightarrow> (string \<times> string) list" where
  "sorted_pairs m = concat (List.map (\<lambda>k. List.map (Pair k) (values_get m k)) (sort (List.map fst m)))"

definition Values_Encode :: "url_values \<Rightarrow> string" where
  "Values_Encode m = join_with ''&'' (List.map (\<lambda>(k, v). encode_pair k v) (sorted_pairs m))"

subsection \<open>URLs\<close>

record userinfo =
  ui_username :: string
  ui_password :: "string option"

record url =
  u_Scheme :: string
  u_Opaque :: string
  u_User :: "userinfo option"
  u_Host :: string
  u_Path :: string
  u_RawPath :: string
  u_OmitHost :: bool
  u_ForceQuery :: bool
  u_RawQuery :: string
  u_Fragment :: string
  u_RawFragment :: string

definition Userinfo_String :: "userinfo \<Rightarrow> string" where
  "Userinfo_String ui =
     url_escape EncUserPassword (ui_username ui)
       @ (case ui_password ui of None \<Rightarrow> [] | Some p \<Rightarrow> CHR '':'' # url_escape EncUserPassword p)"

definition validEncoded :: "encoding \<Rightarrow> string \<Rightarrow> bool" where
  "validEncoded mode s =
     list_all (\<lambda>c. c \<in> set (CHR 0x27 # ''!$&()*+,;=:@[]%'') \<or> \<not> shouldEscape mode c) s"

definition raw_or_escaped :: "encoding \<Rightarrow> string \<Rightarrow> string \<Rightarrow> string option" where
  "raw_or_escaped mode raw plain =
     (if raw \<noteq> [] \<and> validEncoded mode raw \<and> url_unescape mode raw = Some plain then Some raw else None)"

definition EscapedPath :: "url \<Rightarrow> string" where
  "EscapedPath u =
     (case raw_or_escaped EncPath (u_RawPath u) (u_Path u) of
        Some p \<Rightarrow> p
      | None \<Rightarrow> if u_Path u = ''*'' then ''*'' else url_escape EncPath (u_Path u))"

definition EscapedFragment :: "url \<Rightarrow> string" where
  "EscapedFragment u =
     (case raw_or_escaped EncFragment (u_RawFragment u) (u_Fragment u) of
        Some p \<Rightarrow> p | None \<Rightarrow> url_escape EncFragment (u_Fragment u))"

definition url_authority :: "url \<Rightarrow> string" where
  "url_authority u =
     (if u_Scheme u \<noteq> [] \<or> u_Host u \<noteq> [] \<or> u_User u \<noteq> None then
        (if u_OmitHost u \<and> u_Host u = [] \<and> u_User u = None then []
         else (if u_Host u \<noteq> [] \<or> u_Path u \<noteq> [] \<or> u_User u \<noteq> None then ''//'' else [])
           @ (case u_User u of None \<Rightarrow> [] | Some ui \<Rightarrow> Userinfo_String ui @ ''@'')
           @ url_escape EncHost (u_Host u))
      else [])"

definition first_segment :: "string \<Rightarrow> string" where
  "first_segment path = takeWhile (\<lambda>c. c \<noteq> CHR ''/'') path"

definition url_hierarchy :: "string \<Rightarrow> url \<Rightarrow> string" where
  "url_hierarchy scheme u =
     (let path = EscapedPath u;
          head = scheme @ url_authority u @ (if path \<noteq> [] \<and> hd path \<noteq> CHR ''/'' \<and> u_Host u \<noteq> [] then ''/'' else [])
      in head @ (if head = [] \<and> contains_char CHR '':'' (first_segment path) then ''./'' else []) @ path)"

definition URL_String :: "url \<Rightarrow> string" where
  "URL_String u =
     (let scheme = (if u_Scheme u \<noteq> [] then u_Scheme u @ '':'' else []) in
      (if u_Opaque u \<noteq> [] then scheme @ u_Opaque u else url_hierarchy scheme u)
      @ (if u_ForceQuery u \<or> u_RawQuery u \<noteq> [] then CHR ''?'' # u_RawQuery u else [])
      @ (if u_Fragment u \<noteq> [] then CHR ''#'' # EscapedFragment u else []))"

subsection \<open>Reading an escaped text back\<close>

lemma byte_less [simp]: "byte c < 256"
  by (simp add: byte_def)

lemma unhex_upper_hex [simp]: "d < 16 \<Longrightarrow> unhex (upper_hex d) = Some d"
  by (auto simp: upper_hex_def unhex_def byte_def of_char_of)

lemma upper_hex_alphanumeric: "d < 16 \<Longrightarrow> alphanumeric (upper_hex d)"
  by (auto simp: upper_hex_def alphanumeric_def byte_def of_char_of)

lemma percent_unescape: "url_unescape mode (percent c @ s) = map_option ((#) c) (url_unescape mode s)"
proof -
  have "16 * (byte c div 16) + byte c mod 16 = byte c" by simp
  then have "char_of (16 * (byte c div 16) + byte c mod 16) = c" by (simp add: byte_def)
  moreover have "byte c div 16 < 16" using byte_less [of c] by (simp add: less_mult_imp_div_less)
  ultimately show ?thesis by (simp add: percent_def)
qed

lemma plain_unescape: "\<not> shouldEscape EncQuery c \<Longrightarrow> c \<noteq> CHR ''%'' \<and> c \<noteq> CHR ''+''"
  by (auto simp: shouldEscape_def alphanumeric_def byte_def)

lemma unescape_escape_byte:
  "url_unescape EncQuery (escape_byte EncQuery c @ s) = map_option ((#) c) (url_unescape EncQuery s)"
  using plain_unescape [of c] by (auto simp: escape_byte_def percent_unescape)

lemma unescape_escape [simp]: "url_unescape EncQuery (url_escape EncQuery s) = Some s"
  by (induction s) (simp_all add: url_escape_def unescape_escape_byte)

definition query_safe :: "char \<Rightarrow> bool" where
  "query_safe c \<longleftrightarrow> alphanumeric c \<or> c \<in> set ''-_.~%+''"

lemma escape_byte_safe: "list_all query_safe (escape_byte EncQuery c)"
proof -
  have "byte c div 16 < 16" using byte_less [of c] by (simp add: less_mult_imp_div_less)
  then show ?thesis
    by (auto simp: escape_byte_def percent_def query_safe_def upper_hex_alphanumeric shouldEscape_def)
qed

lemma escape_safe: "list_all query_safe (url_escape EncQuery s)"
  using escape_byte_safe by (induction s) (auto simp: url_escape_def list_all_iff)

lemma unsafe_chars: "\<not> query_safe CHR ''&''" "\<not> query_safe CHR '';''" "\<not> query_safe CHR ''=''"
  by (simp_all add: query_safe_def alphanumeric_def byte_def)

lemma escape_free:
  "CHR ''&'' \<notin> set (url_escape EncQuery s)" "CHR '';'' \<notin> set (url_escape EncQuery s)"
  "CHR ''='' \<notin> set (url_escape EncQuery s)"
  using escape_safe [of s] unsafe_chars by (auto simp: list_all_iff)

lemma parse_encode_pair [simp]: "parse_param (encode_pair k v) = Some (k, v)"
proof -
  have "cut_at CHR ''='' (encode_pair k v) = Some (url_escape EncQuery k, url_escape EncQuery v)"
    by (simp add: cut_at_Some encode_pair_def escape_free)
  then show ?thesis by (simp add: parse_param_def)
qed

lemma encode_pair_free [simp]:
  "CHR ''&'' \<notin> set (encode_pair k v)" "CHR '';'' \<notin> set (encode_pair k v)" "encode_pair k v \<noteq> []"
  by (simp_all add: encode_pair_def escape_free)

subsection \<open>Reading an encoded query back\<close>

text \<open>Every name of parsed values occurs once, with at least one value.\<close>

definition values_ok :: "url_values \<Rightarrow> bool" where
  "values_ok m \<longleftrightarrow> distinct (List.map fst m) \<and> (\<forall>(k, vs) \<in> set m. vs \<noteq> [])"

lemma values_get_simps [simp]:
  "values_get [] k = []"
  "values_get ((k', vs) # m) k = (if k = k' then vs else values_get m k)"
  by (simp_all add: values_get_def)

lemma values_get_add: "values_get (add_value k v m) k' = values_get m k' @ (if k' = k then [v] else [])"
  by (induction k v m rule: add_value.induct) auto

lemma add_value_names: "fst ` set (add_value k v m) = insert k (fst ` set m)"
  by (induction k v m rule: add_value.induct) auto

lemma values_ok_add: "values_ok m \<Longrightarrow> values_ok (add_value k v m)"
  by (induction k v m rule: add_value.induct)
    (auto simp: values_ok_def add_value_names)

lemma values_ok_names: "values_ok m \<Longrightarrow> k \<in> fst ` set m \<longleftrightarrow> values_get m k \<noteq> []"
  by (induction m) (force simp: values_ok_def split: if_splits)+

lemma values_ok_Nil [simp]: "values_ok []"
  by (simp add: values_ok_def)

lemma parse_query_parts_ok: "parse_query_parts ps m = Some m' \<Longrightarrow> values_ok m \<Longrightarrow> values_ok m'"
  by (induction ps arbitrary: m) (auto split: if_splits option.splits simp: values_ok_add)

lemma ParseQuery_ok: "ParseQuery q = Some m \<Longrightarrow> values_ok m"
  using parse_query_parts_ok [of "split_on CHR ''&'' q" "[]" m] by (simp add: ParseQuery_def split: if_splits)

text \<open>The number of values a map holds, which the bound on parameters limits.\<close>

definition values_count :: "url_values \<Rightarrow> nat" where
  "values_count m = sum_list (List.map (\<lambda>(k, vs). length vs) m)"

lemma values_count_add: "values_count (add_value k v m) = Suc (values_count m)"
  by (induction k v m rule: add_value.induct) (auto simp: values_count_def)

lemma parse_query_parts_count:
  "parse_query_parts ps m = Some m' \<Longrightarrow> values_count m' \<le> values_count m + length ps"
  by (induction ps arbitrary: m) (force split: if_splits option.splits simp: values_count_add)+

lemma ParseQuery_count:
  assumes "ParseQuery q = Some m" shows "values_count m \<le> maxQueryParams"
proof -
  have "parse_query_parts (split_on CHR ''&'' q) [] = Some m" and "Suc (count_list q CHR ''&'') \<le> maxQueryParams"
    using assms by (auto simp: ParseQuery_def split: if_splits)
  then show ?thesis using parse_query_parts_count by (fastforce simp: length_split_on values_count_def)
qed

text \<open>Adding pairs one after the other appends their values name by name.\<close>

lemma parse_encoded_parts:
  "parse_query_parts (List.map (\<lambda>(k, v). encode_pair k v) kvs) m = Some (fold (\<lambda>(k, v). add_value k v) kvs m)"
  by (induction kvs arbitrary: m) (auto simp: contains_char_def)

lemma values_get_fold:
  "values_get (fold (\<lambda>(k, v). add_value k v) kvs m) k
     = values_get m k @ List.map snd (filter (\<lambda>kv. fst kv = k) kvs)"
  by (induction kvs arbitrary: m) (auto simp: values_get_add)

lemma filter_pairs:
  "distinct ks \<Longrightarrow> List.map snd (filter (\<lambda>kv. fst kv = k) (concat (List.map (\<lambda>k. List.map (Pair k) (f k)) ks)))
     = (if k \<in> set ks then f k else [])"
proof (induction ks)
  case (Cons k' ks)
  have "filter (\<lambda>kv. fst kv = k) (List.map (Pair k') (f k')) = (if k' = k then List.map (Pair k') (f k') else [])"
    by (auto simp: filter_empty_conv intro: filter_True)
  then show ?case using Cons by (auto simp: o_def)
qed simp

lemma values_get_sorted_pairs:
  assumes "values_ok m"
  shows "values_get (fold (\<lambda>(k, v). add_value k v) (sorted_pairs m) []) k = values_get m k"
proof -
  have "distinct (sort (List.map fst m))" using assms by (simp add: values_ok_def)
  from filter_pairs [OF this, of k "values_get m"]
  show ?thesis using values_ok_names [OF assms, of k] by (auto simp: values_get_fold sorted_pairs_def)
qed

lemma sorted_pairs_count: "values_ok m \<Longrightarrow> length (sorted_pairs m) = values_count m"
proof -
  assume ok: "values_ok m"
  have "length (sorted_pairs m) = sum_list (List.map (\<lambda>k. length (values_get m k)) (sort (List.map fst m)))"
    by (simp add: sorted_pairs_def length_concat o_def)
  also have "\<dots> = (\<Sum>k \<in> set (List.map fst m). length (values_get m k))"
    using ok by (simp add: sum_list_distinct_conv_sum_set values_ok_def)
  also have "\<dots> = sum_list (List.map (\<lambda>k. length (values_get m k)) (List.map fst m))"
    using ok by (subst sum_list_distinct_conv_sum_set) (simp_all add: values_ok_def)
  also have "\<dots> = values_count m"
    using ok by (auto simp: values_count_def values_ok_def o_def values_get_def intro!: arg_cong [where f = sum_list] map_cong)
  finally show ?thesis .
qed

lemma count_join:
  assumes "\<forall>p \<in> set ps. c \<notin> set p" and "ps \<noteq> []"
  shows "Suc (count_list (join_with [c] ps) c) = length ps"
  using split_join [of ps c] length_split_on [of c "join_with [c] ps"] assms by simp

lemma encode_parts_free: "\<forall>p \<in> set (List.map (\<lambda>(k, v). encode_pair k v) kvs). CHR ''&'' \<notin> set p"
  by auto

lemma ParseQuery_Encode:
  assumes ok: "values_ok m" and few: "values_count m \<le> maxQueryParams"
  obtains m' where "ParseQuery (Values_Encode m) = Some m'" and "\<And>k. values_get m' k = values_get m k"
proof (cases "sorted_pairs m = []")
  case True
  then have "ParseQuery (Values_Encode m) = Some []"
    by (simp add: ParseQuery_def Values_Encode_def maxQueryParams_def contains_char_def)
  moreover have "values_get m k = []" for k using values_get_sorted_pairs [OF ok, of k] True by simp
  ultimately show ?thesis using that by simp
next
  case False
  let ?ps = "List.map (\<lambda>(k, v). encode_pair k v) (sorted_pairs m)"
  have ps: "split_on CHR ''&'' (Values_Encode m) = ?ps"
    unfolding Values_Encode_def using False encode_parts_free by (intro split_join) auto
  moreover have "Suc (count_list (Values_Encode m) CHR ''&'') = values_count m"
    using length_split_on [of "CHR ''&''" "Values_Encode m"] ps sorted_pairs_count [OF ok] by simp
  ultimately have "ParseQuery (Values_Encode m) = Some (fold (\<lambda>(k, v). add_value k v) (sorted_pairs m) [])"
    using few by (simp add: ParseQuery_def parse_encoded_parts)
  then show ?thesis using that values_get_sorted_pairs [OF ok] by blast
qed

text \<open>What is encoded is determined by the values of each name, whatever the order of the names.\<close>

lemma Values_Encode_cong:
  assumes "values_ok m" and "values_ok m'" and "\<And>k. values_get m k = values_get m' k"
  shows "Values_Encode m = Values_Encode m'"
proof -
  have "set (List.map fst m) = set (List.map fst m')"
    using values_ok_names [OF assms(1)] values_ok_names [OF assms(2)] assms(3) by (simp add: set_eq_iff)
  then have "mset (List.map fst m) = mset (List.map fst m')"
    using assms(1,2) set_eq_iff_mset_eq_distinct by (metis values_ok_def)
  then have "sort (List.map fst m) = sort (List.map fst m')"
    by (metis mset_sort properties_for_sort sorted_sort)
  then show ?thesis using assms(3) by (simp add: Values_Encode_def sorted_pairs_def)
qed

end
