(* ===== verification/Observability.thy ===== *)
theory Observability
  imports ClaimsAuth GoUrl GoTime
begin

text \<open>
  The package \<open>observability\<close>: what is recorded of a request and how (\<open>src/observability/redact.go\<close>,
  \<open>route_template.go\<close>, \<open>metrics.go\<close>, \<open>tracing_middleware.go\<close>, \<open>span.go\<close>) and its configuration
  (\<open>config.go\<close>, \<open>tracing.go\<close>, \<open>logger.go\<close>). Gin, Prometheus, OpenTelemetry and zap are third-party code:
  a handler is a function of the exchange that returns or panics, a middleware yields the calls it makes
  on the collectors and on its span, and the tracer, the exporter and the loggers are arguments.
\<close>

subsection \<open>Redaction\<close>

definition sensitiveQueryParams :: "string \<Rightarrow> bool" where
  "sensitiveQueryParams k \<longleftrightarrow> k \<in> set [''access_token'', ''token'', ''refresh_token'', ''id_token'', ''code'',
     ''client_secret'', ''api_key'', ''apikey'', ''key'', ''password'', ''passkey'', ''pwd'', ''secret'']"

definition redactedValue :: string where "redactedValue = ''REDACTED''"

type_synonym PathRedactor = "string \<Rightarrow> string"

definition sensitive_name :: "unicode \<Rightarrow> string \<Rightarrow> bool" where
  "sensitive_name U key \<longleftrightarrow> sensitiveQueryParams (to_lower U key)"

definition redact_values :: "unicode \<Rightarrow> url_values \<Rightarrow> url_values" where
  "redact_values U vs = List.map (\<lambda>(key, xs). (key, if sensitive_name U key then [redactedValue] else xs)) vs"

text \<open>The query to record: \<open>None\<close> when it cannot be parsed, the query itself when nothing is redacted.\<close>

definition redact_query :: "unicode \<Rightarrow> string \<Rightarrow> string option" where
  "redact_query U q =
     (case ParseQuery q of
        None \<Rightarrow> None
      | Some vs \<Rightarrow> Some (if list_ex (\<lambda>(key, _). sensitive_name U key) vs
          then Values_Encode (redact_values U vs) else q))"

definition redact_user :: "userinfo \<Rightarrow> userinfo" where
  "redact_user ui = (case ui_password ui of None \<Rightarrow> ui
     | Some _ \<Rightarrow> \<lparr>ui_username = ui_username ui, ui_password = Some redactedValue\<rparr>)"

definition redact_path :: "PathRedactor option \<Rightarrow> url \<Rightarrow> url" where
  "redact_path redactor u = (case redactor of None \<Rightarrow> u
     | Some f \<Rightarrow> u\<lparr>u_Path := f (u_Path u), u_RawPath := []\<rparr>)"

definition RedactURLWithPath :: "unicode \<Rightarrow> url option \<Rightarrow> PathRedactor option \<Rightarrow> string" where
  "RedactURLWithPath U uo redactor =
     (case uo of
        None \<Rightarrow> []
      | Some u \<Rightarrow>
          (let c1 = redact_path redactor u;
               c2 = c1\<lparr>u_User := map_option redact_user (u_User c1)\<rparr>
           in if u_RawQuery c2 = [] then URL_String c2
              else (case redact_query U (u_RawQuery c2) of
                      None \<Rightarrow> u_Path c2
                    | Some q \<Rightarrow> URL_String (c2\<lparr>u_RawQuery := q\<rparr>))))"

definition RedactURL :: "unicode \<Rightarrow> url option \<Rightarrow> string" where
  "RedactURL U u = RedactURLWithPath U u None"

subsection \<open>The exchange of a request\<close>

text \<open>The request's context carries the route template and what OpenTelemetry keeps in it (the identity
  of the trace); the writer's status is the one read by \<open>c.Writer.Status()\<close>.\<close>

record req_context =
  cx_template :: "string option"
  cx_trace :: "string option"

record exchange =
  ex_method :: string
  ex_url :: url
  ex_header :: http_header
  ex_fullPath :: string
  ex_ctx :: req_context
  ex_status :: int

text \<open>A handler returns, or panics with a value (its text under \<open>%v\<close>), having changed the exchange.\<close>

datatype outcome = Returned exchange | Panicked string exchange

primrec exchange_after :: "outcome \<Rightarrow> exchange" where
  "exchange_after (Returned x) = x"
| "exchange_after (Panicked r x) = x"

type_synonym handler = "exchange \<Rightarrow> outcome"

definition WithRouteTemplate :: "req_context \<Rightarrow> string \<Rightarrow> req_context" where
  "WithRouteTemplate ctx t = (if t = [] then ctx else ctx\<lparr>cx_template := Some t\<rparr>)"

definition RouteTemplate :: "req_context \<Rightarrow> string \<times> bool" where
  "RouteTemplate ctx = (case cx_template ctx of None \<Rightarrow> ([], False) | Some t \<Rightarrow> (t, t \<noteq> []))"

subsection \<open>Metrics\<close>

record collector =
  co_Name :: string
  co_Help :: string
  co_Labels :: "string list"
  co_Buckets :: "f64 list"

definition HTTPRequestsTotal :: collector where
  "HTTPRequestsTotal = \<lparr>co_Name = ''http_requests_total'', co_Help = ''Total number of HTTP requests processed.'',
     co_Labels = [''method'', ''path'', ''status''], co_Buckets = []\<rparr>"

text \<open>\<open>prometheus.DefBuckets\<close> is documented as these eleven bounds, in seconds.\<close>

definition DefBuckets :: "f64 list" where
  "DefBuckets = List.map f_const [0.005, 0.01, 0.025, 0.05, 0.1, 0.25, 0.5, 1, 2.5, 5, 10]"

definition httpDurationBuckets :: "f64 list" where
  "httpDurationBuckets = DefBuckets @ List.map f_const [30, 60, 120, 200]"

definition HTTPRequestDuration :: collector where
  "HTTPRequestDuration = \<lparr>co_Name = ''http_request_duration_seconds'', co_Help = ''Histogram of HTTP request latencies.'',
     co_Labels = [''method'', ''path''], co_Buckets = httpDurationBuckets\<rparr>"

definition HTTPRequestsInFlight :: collector where
  "HTTPRequestsInFlight = \<lparr>co_Name = ''http_requests_in_flight'',
     co_Help = ''Number of HTTP requests currently being processed.'', co_Labels = [], co_Buckets = []\<rparr>"

text \<open>\<open>prometheus.Register\<close> is an argument: a step of the default registry with an error or none.
  \<open>registerOnce\<close> and \<open>registerErr\<close> are the state.\<close>

type_synonym 'r registrar = "collector \<Rightarrow> 'r \<Rightarrow> string option \<times> 'r"

record register_state =
  registerOnce :: bool
  registerErr :: "string option"

fun register_collectors :: "'r registrar \<Rightarrow> collector list \<Rightarrow> 'r \<Rightarrow> string option \<times> 'r" where
  "register_collectors reg [] r = (None, r)"
| "register_collectors reg (c # cs) r =
     (case reg c r of (Some e, r') \<Rightarrow> (Some e, r') | (None, r') \<Rightarrow> register_collectors reg cs r')"

definition RegisterDefaultCollectors ::
    "'r registrar \<Rightarrow> register_state \<times> 'r \<Rightarrow> string option \<times> register_state \<times> 'r" where
  "RegisterDefaultCollectors reg st =
     (let (once, r) = st in
      if registerOnce once then (registerErr once, once, r)
      else (let (e, r') = register_collectors reg [HTTPRequestsTotal, HTTPRequestDuration, HTTPRequestsInFlight] r
            in (e, \<lparr>registerOnce = True, registerErr = e\<rparr>, r')))"

definition RegisterCollector :: "'r registrar \<Rightarrow> collector \<Rightarrow> 'r \<Rightarrow> string option \<times> 'r" where
  "RegisterCollector reg c r = reg c r"

text \<open>The calls on the collectors.\<close>

datatype metric_call =
    InFlightInc
  | InFlightDec
  | RequestsInc string string string
  | DurationObserve string string f64

definition path_label :: "exchange \<Rightarrow> string" where
  "path_label x =
     (if ex_fullPath x = [] then
        (let (template, ok) = RouteTemplate (ex_ctx x) in if ok then template else ''/unknown'')
      else ex_fullPath x)"

definition metrics_enter :: "metric_call list" where "metrics_enter = [InFlightInc]"

definition metrics_leave :: "duration \<Rightarrow> outcome \<Rightarrow> metric_call list" where
  "metrics_leave elapsed res =
     (let x = exchange_after res;
          path = path_label x;
          code = (case res of Panicked _ _ \<Rightarrow> 500 | Returned _ \<Rightarrow> ex_status x)
      in [InFlightDec, RequestsInc (ex_method x) path (int_to_string code),
          DurationObserve (ex_method x) path (duration_seconds elapsed)])"

definition metrics_skipped :: "string \<Rightarrow> exchange \<Rightarrow> bool" where
  "metrics_skipped skipPath x \<longleftrightarrow> u_Path (ex_url x) = (if skipPath = [] then ''/metrics'' else skipPath)"

text \<open>The two clock readings are arguments.\<close>

definition HTTPMetricsMiddleware ::
    "string \<Rightarrow> gotime \<Rightarrow> gotime \<Rightarrow> handler \<Rightarrow> exchange \<Rightarrow> outcome \<times> metric_call list" where
  "HTTPMetricsMiddleware skipPath start now handler x =
     (if metrics_skipped skipPath x then (handler x, [])
      else (let res = handler x in (res, metrics_enter @ metrics_leave (time_sub now start) res)))"

subsection \<open>Tracing\<close>

datatype attr_value = AttrString string | AttrInt int
type_synonym attributes = "(string \<times> attr_value) list"
datatype span_kind = SpanKindInternal | SpanKindServer | SpanKindClient | SpanKindProducer | SpanKindConsumer

text \<open>OpenTelemetry: extracting a remote parent from headers, and starting a span of a named tracer, which
  yields the context of the span and whether it is recording.\<close>

record otel =
  ot_extract :: "http_header \<Rightarrow> req_context \<Rightarrow> req_context"
  ot_start :: "string \<Rightarrow> req_context \<Rightarrow> string \<Rightarrow> span_kind \<Rightarrow> attributes \<Rightarrow> req_context \<times> bool"

definition tracerPrefix :: string where "tracerPrefix = ''atmosoar-api-libraries/observability/''"

definition StartSpan :: "otel \<Rightarrow> req_context \<Rightarrow> string \<Rightarrow> string \<Rightarrow> span_kind \<Rightarrow> attributes \<Rightarrow> req_context \<times> bool" where
  "StartSpan ot ctx component name kind attrs = ot_start ot (tracerPrefix @ component) ctx name kind attrs"

record tracingConfig =
  extractRemote :: bool
  pathRedactor :: "PathRedactor option"

type_synonym TracingOption = "tracingConfig \<Rightarrow> tracingConfig"

definition WithoutRemoteExtraction :: TracingOption where
  "WithoutRemoteExtraction c = c\<lparr>extractRemote := False\<rparr>"

definition WithPathRedactor :: "PathRedactor \<Rightarrow> TracingOption" where
  "WithPathRedactor redactor c = c\<lparr>pathRedactor := Some redactor\<rparr>"

definition tracing_config :: "TracingOption list \<Rightarrow> tracingConfig" where
  "tracing_config opts = fold (\<lambda>f c. f c) opts \<lparr>extractRemote = True, pathRedactor = None\<rparr>"

datatype span_call = SetStatusError string | SetAttributes attributes | EndSpan

record span_log =
  sl_name :: string
  sl_parent :: req_context
  sl_calls :: "span_call list"

definition tracing_leave :: "outcome \<Rightarrow> span_call list" where
  "tracing_leave res =
     (let status = (case res of Panicked _ _ \<Rightarrow> 500 | Returned x \<Rightarrow> ex_status x) in
      (case res of
         Panicked r _ \<Rightarrow> [SetStatusError (''panic: '' @ r)]
       | Returned _ \<Rightarrow> if status \<ge> 500 then [SetStatusError (''HTTP '' @ int_to_string status)] else [])
      @ [SetAttributes [(''http.status_code'', AttrInt status)], EndSpan])"

definition route_attributes :: "unicode \<Rightarrow> tracingConfig \<Rightarrow> string \<Rightarrow> exchange \<Rightarrow> attributes" where
  "route_attributes U cfg route x =
     [(''http.method'', AttrString (ex_method x)), (''http.route'', AttrString route),
      (''http.url'', AttrString (RedactURLWithPath U (Some (ex_url x)) (pathRedactor cfg)))]"

definition TracingMiddleware ::
    "unicode \<Rightarrow> otel \<Rightarrow> string list \<Rightarrow> TracingOption list \<Rightarrow> handler \<Rightarrow> exchange \<Rightarrow> outcome \<times> span_log option" where
  "TracingMiddleware U ot skipPaths opts handler x =
     (let cfg = tracing_config opts in
      if u_Path (ex_url x) \<in> set skipPaths then (handler x, None)
      else
        (let route = (if ex_fullPath x = [] then ''/unknown'' else ex_fullPath x);
             spanName = ex_method x @ '' '' @ route;
             startCtx = (if extractRemote cfg then ot_extract ot (ex_header x) (ex_ctx x) else ex_ctx x);
             (ctx, recording) = ot_start ot (tracerPrefix @ ''http'') startCtx spanName SpanKindServer [];
             x1 = x\<lparr>ex_ctx := ctx\<rparr>;
             before = (if recording then [SetAttributes (route_attributes U cfg route x1)] else []);
             res = handler x1
         in (res, Some \<lparr>sl_name = spanName, sl_parent = startCtx, sl_calls = before @ tracing_leave res\<rparr>)))"

subsection \<open>Configuration\<close>

definition StageDevelopment :: string where "StageDevelopment = ''development''"
definition StageLocal :: string where "StageLocal = ''local''"
definition StageProduction :: string where "StageProduction = ''production''"

record Config =
  cf_Stage :: string
  cf_ServiceName :: string
  cf_TracingEnabled :: bool
  cf_OTLPEndpoint :: string
  cf_OTLPTLS :: bool
  cf_MetricsSkipPath :: string
  cf_TraceSkipPaths :: "string list"

definition Getenv :: "environ \<Rightarrow> string \<Rightarrow> string" where
  "Getenv env k = (case env k of None \<Rightarrow> [] | Some v \<Rightarrow> v)"

definition ConfigFromEnv :: "unicode \<Rightarrow> environ \<Rightarrow> string \<Rightarrow> string \<Rightarrow> string list \<Rightarrow> Config" where
  "ConfigFromEnv U env stage metricsSkipPath traceSkipPaths =
     (let enabled = equal_fold (Getenv env ''OTEL_TRACES_ENABLED'') ''true'' in
      \<lparr>cf_Stage = stage,
       cf_ServiceName = Getenv env ''OTEL_SERVICE_NAME'',
       cf_TracingEnabled = enabled,
       cf_OTLPEndpoint = Getenv env ''OTEL_EXPORTER_OTLP_ENDPOINT'',
       cf_OTLPTLS = equal_fold (trim_space U (Getenv env ''OTEL_EXPORTER_OTLP_INSECURE'')) ''false'',
       cf_MetricsSkipPath = metricsSkipPath,
       cf_TraceSkipPaths = traceSkipPaths\<rparr>)"

datatype zap_preset = ZapDevelopment | ZapProduction

text \<open>\<open>zap.NewDevelopment\<close> and \<open>zap.NewProduction\<close> are the argument \<open>zap\<close>.\<close>

definition NewLogger :: "(zap_preset \<Rightarrow> string + 'l) \<Rightarrow> Config \<Rightarrow> string + 'l" where
  "NewLogger zap cfg =
     map_err (\<lambda>e. ''observability: init zap logger: '' @ e)
       (zap (if cf_Stage cfg = StageDevelopment \<or> cf_Stage cfg = StageLocal then ZapDevelopment else ZapProduction))"

text \<open>\<open>InitTracing\<close>: the constructor of the exporter gets the endpoint and whether to use TLS. The result
  is what is installed globally (the exporter and the service name; \<open>None\<close> is the no-op) and the log.\<close>

definition trace_endpoint :: "Config \<Rightarrow> string" where
  "trace_endpoint cfg =
     (let endpoint = (if cf_OTLPEndpoint cfg = [] then ''localhost:4317'' else cf_OTLPEndpoint cfg)
      in trim_prefix (trim_prefix endpoint ''http://'') ''https://'')"

definition InitTracing ::
    "(string \<Rightarrow> bool \<Rightarrow> string + 'x) \<Rightarrow> bool \<Rightarrow> Config \<Rightarrow> ('x \<times> string) option \<times> log_entry list" where
  "InitTracing newExporter logger cfg =
     (let write = (\<lambda>lv msg fs. if logger then [\<lparr>le_level = lv, le_message = msg, le_fields = fs\<rparr>] else []) in
      if \<not> cf_TracingEnabled cfg
      then (None, write Info ''OpenTelemetry tracing disabled (TracingEnabled=false)'' [])
      else
        (let serviceName = (if cf_ServiceName cfg = [] then ''dev-atmosoar-api'' else cf_ServiceName cfg);
             endpoint = trace_endpoint cfg
         in case newExporter endpoint (cf_OTLPTLS cfg) of
              Inl e \<Rightarrow> (None, write Warn ''Failed to create OTLP trace exporter, tracing disabled''
                        [(''endpoint'', LStr endpoint), (''error'', LStr e)])
            | Inr ex \<Rightarrow> (Some (ex, serviceName), write Info ''OpenTelemetry tracing enabled''
                        [(''endpoint'', LStr endpoint), (''tls'', LBool (cf_OTLPTLS cfg)),
                         (''service'', LStr serviceName), (''sampler'', LStr ''AlwaysOn'')])))"

text \<open>The start-up hook of the module logs a failed registration and goes on.\<close>

definition registerDefaultCollectorsHook ::
    "'r registrar \<Rightarrow> register_state \<times> 'r \<Rightarrow> (register_state \<times> 'r) \<times> log_entry list" where
  "registerDefaultCollectorsHook reg st =
     (let (err, st') = RegisterDefaultCollectors reg st in
      (st', case err of None \<Rightarrow> []
        | Some e \<Rightarrow> [\<lparr>le_level = Warn, le_message = ''observability: default collector registration returned error'',
             le_fields = [(''error'', LStr e)]\<rparr>]))"

text \<open>Registering again is a no-op that repeats the first answer.\<close>

lemma RegisterDefaultCollectors_once:
  "RegisterDefaultCollectors reg st = (e, st') \<Longrightarrow> RegisterDefaultCollectors reg st' = (e, st')"
  by (auto simp: RegisterDefaultCollectors_def Let_def split: prod.splits if_splits)

text \<open>With nothing set in the environment, nothing is exported.\<close>

lemma InitTracing_unset:
  "fst (InitTracing newExporter logger (ConfigFromEnv U (\<lambda>_. None) stage mp tps)) = None"
proof -
  have "\<not> equal_fold [] ''true''" by (simp add: equal_fold_def)
  then show ?thesis by (simp add: InitTracing_def ConfigFromEnv_def Getenv_def Let_def)
qed

end
