(* ===== verification/ObservabilityCorrect.thy ===== *)
theory ObservabilityCorrect
  imports Observability
begin

text \<open>
  What \<open>observability\<close> promises: a recorded URL tells nothing of the secrets in it and keeps everything
  else, the metrics account for every request however requests interleave and end, and a span is
  completed and marked whatever the handler does.
\<close>

subsection \<open>Redaction\<close>

lemma map_redact_names [simp]: "List.map fst (redact_values U m) = List.map fst m"
  by (auto simp: redact_values_def)

lemma values_get_redact:
  "values_get (redact_values U m) k
     = (if sensitive_name U k \<and> k \<in> fst ` set m then [redactedValue] else values_get m k)"
  by (induction m) (force simp: redact_values_def)+

lemma values_ok_redact: "values_ok m \<Longrightarrow> values_ok (redact_values U m)"
  by (auto simp: values_ok_def) (auto simp: redact_values_def split: if_splits)

lemma values_count_redact: "values_ok m \<Longrightarrow> values_count (redact_values U m) \<le> values_count m"
proof (induction m)
  case (Cons kv m)
  obtain k xs where kv: "kv = (k, xs)" by (cases kv)
  have "1 \<le> length xs" using Cons.prems by (auto simp: kv values_ok_def Suc_le_eq)
  moreover have "values_ok m" using Cons.prems by (simp add: values_ok_def)
  ultimately show ?case using Cons.IH by (auto simp: kv values_count_def redact_values_def)
qed (simp add: redact_values_def)

text \<open>Two queries differ at most in secrets: both are refused by the parser, or they have the same
  sensitive names, at least one, and the same values under every other name.\<close>

definition same_query_but_secrets :: "unicode \<Rightarrow> string \<Rightarrow> string \<Rightarrow> bool" where
  "same_query_but_secrets U q q' \<longleftrightarrow> q = q'
     \<or> ParseQuery q = None \<and> ParseQuery q' = None
     \<or> (\<exists>m m'. ParseQuery q = Some m \<and> ParseQuery q' = Some m'
          \<and> (\<exists>k. sensitive_name U k \<and> values_get m k \<noteq> [])
          \<and> (\<forall>k. if sensitive_name U k then values_get m k = [] \<longleftrightarrow> values_get m' k = []
                 else values_get m k = values_get m' k))"

definition same_user_but_password :: "userinfo option \<Rightarrow> userinfo option \<Rightarrow> bool" where
  "same_user_but_password a b \<longleftrightarrow> a = b
     \<or> (\<exists>n p p'. a = Some \<lparr>ui_username = n, ui_password = Some p\<rparr> \<and> b = Some \<lparr>ui_username = n, ui_password = Some p'\<rparr>)"

text \<open>Two URLs differ at most in secrets: in the query, in the password, and in what the redactor of
  paths masks.\<close>

definition same_url_but_secrets :: "unicode \<Rightarrow> PathRedactor option \<Rightarrow> url \<Rightarrow> url \<Rightarrow> bool" where
  "same_url_but_secrets U redactor u u' \<longleftrightarrow>
     u' = u\<lparr>u_Path := u_Path u', u_RawPath := u_RawPath u', u_User := u_User u', u_RawQuery := u_RawQuery u'\<rparr>
     \<and> (case redactor of None \<Rightarrow> u_Path u = u_Path u' \<and> u_RawPath u = u_RawPath u'
        | Some f \<Rightarrow> f (u_Path u) = f (u_Path u'))
     \<and> same_user_but_password (u_User u) (u_User u')
     \<and> same_query_but_secrets U (u_RawQuery u) (u_RawQuery u')"

lemma parsed_non_empty: "ParseQuery q = Some m \<Longrightarrow> values_get m k \<noteq> [] \<Longrightarrow> q \<noteq> []"
  by (auto simp: ParseQuery_def maxQueryParams_def contains_char_def)

lemma sensitive_present:
  "values_ok m \<Longrightarrow> list_ex (\<lambda>(k, _). sensitive_name U k) m \<longleftrightarrow> (\<exists>k. sensitive_name U k \<and> values_get m k \<noteq> [])"
  using values_ok_names [of m] by (auto simp: list_ex_iff image_iff) force+

lemma redact_query_secret:
  assumes "ParseQuery q = Some m" and "sensitive_name U k" and "values_get m k \<noteq> []"
  shows "redact_query U q = Some (Values_Encode (redact_values U m))"
  using assms sensitive_present [OF ParseQuery_ok [OF assms(1)], of U] by (auto simp: redact_query_def)

lemma redact_query_hides:
  assumes "same_query_but_secrets U q q'"
  shows "redact_query U q = redact_query U q'" and "q = [] \<longleftrightarrow> q' = []"
proof -
  have "redact_query U q = redact_query U q' \<and> (q = [] \<longleftrightarrow> q' = [])"
    using assms unfolding same_query_but_secrets_def
  proof (elim disjE exE conjE)
    assume n: "ParseQuery q = None" "ParseQuery q' = None"
    moreover have "ParseQuery [] \<noteq> None" by (simp add: ParseQuery_def maxQueryParams_def contains_char_def)
    ultimately show ?thesis by (auto simp: redact_query_def)
  next
    fix m m' k
    assume p: "ParseQuery q = Some m" "ParseQuery q' = Some m'" and k: "sensitive_name U k" "values_get m k \<noteq> []"
      and same: "\<forall>k. if sensitive_name U k then values_get m k = [] \<longleftrightarrow> values_get m' k = []
                 else values_get m k = values_get m' k"
    note ok = p [THEN ParseQuery_ok]
    have k': "values_get m' k \<noteq> []" using same k by (simp split: if_splits)
    have "values_get (redact_values U m) j = values_get (redact_values U m') j" for j
      using same [rule_format, of j] by (auto simp: values_get_redact ok values_ok_names split: if_splits)
    then have "Values_Encode (redact_values U m) = Values_Encode (redact_values U m')"
      using ok by (intro Values_Encode_cong values_ok_redact)
    then show ?thesis
      using redact_query_secret p k k' parsed_non_empty by metis
  qed simp
  then show "redact_query U q = redact_query U q'" and "q = [] \<longleftrightarrow> q' = []" by simp_all
qed

lemma redact_user_hides:
  "same_user_but_password a b \<Longrightarrow> map_option redact_user a = map_option redact_user b"
  by (auto simp: same_user_but_password_def redact_user_def)

definition redact_clone :: "PathRedactor option \<Rightarrow> url \<Rightarrow> url" where
  "redact_clone redactor u =
     (redact_path redactor u)\<lparr>u_User := map_option redact_user (u_User (redact_path redactor u))\<rparr>"

lemma redact_clone_query: "u_RawQuery (redact_clone redactor u) = u_RawQuery u"
  by (simp add: redact_clone_def redact_path_def split: option.split)

lemma RedactURL_clone:
  "RedactURLWithPath U (Some u) redactor =
     (if u_RawQuery u = [] then URL_String (redact_clone redactor u)
      else (case redact_query U (u_RawQuery u) of
              None \<Rightarrow> u_Path (redact_clone redactor u)
            | Some q \<Rightarrow> URL_String ((redact_clone redactor u)\<lparr>u_RawQuery := q\<rparr>)))"
  using redact_clone_query [of redactor u]
  by (simp add: RedactURLWithPath_def redact_clone_def Let_def split: option.split)

lemma redaction_same_text:
  assumes "same_url_but_secrets U redactor u u'"
  shows "RedactURLWithPath U (Some u) redactor = RedactURLWithPath U (Some u') redactor"
proof -
  have "same_query_but_secrets U (u_RawQuery u) (u_RawQuery u')" using assms by (simp add: same_url_but_secrets_def)
  note q = redact_query_hides [OF this]
  have user: "map_option redact_user (u_User u) = map_option redact_user (u_User u')"
    using assms by (simp add: same_url_but_secrets_def redact_user_hides)
  obtain p rp us qq where u': "u' = u\<lparr>u_Path := p, u_RawPath := rp, u_User := us, u_RawQuery := qq\<rparr>"
    using assms unfolding same_url_but_secrets_def by blast
  have c: "redact_clone redactor u' = (redact_clone redactor u)\<lparr>u_RawQuery := u_RawQuery u'\<rparr>"
    using assms user by (simp add: u' same_url_but_secrets_def redact_path_def redact_clone_def split: option.splits)
  show ?thesis
  proof (cases "u_RawQuery u = []")
    case True
    then have "redact_clone redactor u' = redact_clone redactor u" using c q(2) by (simp add: redact_clone_query)
    then show ?thesis using True q(2) by (simp add: RedactURL_clone)
  next
    case False
    then show ?thesis using q c by (simp add: RedactURL_clone split: option.split)
  qed
qed

text \<open>C37. A recorded URL tells nothing of the secrets in the request: two URLs that differ only in the
  values of the sensitive query parameters, in the password of the user information and in what the path
  redactor masks are recorded as the same text, whether or not the query can be parsed.\<close>

theorem redaction_hides_secrets:
  assumes "same_url_but_secrets U redactor u u'"
  shows "RedactURLWithPath U (Some u) redactor = RedactURLWithPath U (Some u') redactor"
  using assms by (rule redaction_same_text)

definition demo_url :: "string \<Rightarrow> string \<Rightarrow> url" where
  "demo_url secret query = \<lparr>u_Scheme = ''http'', u_Opaque = [],
     u_User = Some \<lparr>ui_username = ''st'', ui_password = Some secret\<rparr>, u_Host = ''h'', u_Path = ''/x'', u_RawPath = [],
     u_OmitHost = False, u_ForceQuery = False, u_RawQuery = query, u_Fragment = [], u_RawFragment = []\<rparr>"

lemma demo_parsed:
  "ParseQuery ''Token=a&b=1'' = Some [(''Token'', [''a'']), (''b'', [''1''])]"
  "ParseQuery ''Token=zz%20&b=1'' = Some [(''Token'', [''zz '']), (''b'', [''1''])]"
  by code_simp+

lemma demo_sensitive: "sensitive_name ascii_only ''Token''" "\<not> sensitive_name ascii_only ''b''"
  by code_simp+

theorem redaction_hides_secrets_witness:
  "RedactURLWithPath ascii_only (Some (demo_url ''p'' ''Token=a&b=1'')) None
     = RedactURLWithPath ascii_only (Some (demo_url ''q'' ''Token=zz%20&b=1'')) None"
proof (rule redaction_hides_secrets)
  have "same_query_but_secrets ascii_only ''Token=a&b=1'' ''Token=zz%20&b=1''"
    unfolding same_query_but_secrets_def demo_parsed using demo_sensitive
    by (auto intro: exI [of _ "''Token''"])
  then show "same_url_but_secrets ascii_only None (demo_url ''p'' ''Token=a&b=1'') (demo_url ''q'' ''Token=zz%20&b=1'')"
    by (simp add: same_url_but_secrets_def demo_url_def same_user_but_password_def)
qed

text \<open>C39. Redaction keeps the shape of the request: a query that parses is recorded as one that
  parses again, with the same names, the value REDACTED for each sensitive name and the values of every
  other name in their order; and a query without a sensitive name is recorded as it was.\<close>

theorem redacted_query_reads_back:
  assumes p: "ParseQuery q = Some m"
  shows "\<exists>q' m'. redact_query U q = Some q' \<and> ParseQuery q' = Some m'
     \<and> (\<forall>k. values_get m' k = (if sensitive_name U k \<and> values_get m k \<noteq> [] then [redactedValue] else values_get m k))
     \<and> ((\<forall>k. values_get m k \<noteq> [] \<longrightarrow> \<not> sensitive_name U k) \<longrightarrow> q' = q)"
proof (cases "\<exists>k. sensitive_name U k \<and> values_get m k \<noteq> []")
  case False
  then have "\<not> list_ex (\<lambda>(k, _). sensitive_name U k) m"
    using sensitive_present [OF ParseQuery_ok [OF p], of U] by simp
  then have "redact_query U q = Some q" using p by (simp add: redact_query_def)
  then show ?thesis using p False by auto
next
  case True
  then have r: "redact_query U q = Some (Values_Encode (redact_values U m))" using p redact_query_secret by blast
  note ok = ParseQuery_ok [OF p]
  have "values_count (redact_values U m) \<le> maxQueryParams"
    using values_count_redact [OF ok] ParseQuery_count [OF p] le_trans by blast
  then obtain m' where m': "ParseQuery (Values_Encode (redact_values U m)) = Some m'"
      "\<And>k. values_get m' k = values_get (redact_values U m) k"
    using ParseQuery_Encode [OF values_ok_redact [OF ok]] by blast
  have "\<forall>k. values_get m' k = (if sensitive_name U k \<and> values_get m k \<noteq> [] then [redactedValue] else values_get m k)"
    by (simp add: m'(2) values_get_redact values_ok_names [OF ok])
  then show ?thesis using r True m'(1) by blast
qed

theorem redacted_query_reads_back_witness:
  "\<exists>q' m'. redact_query ascii_only ''Token=a&b=1'' = Some q' \<and> ParseQuery q' = Some m'
     \<and> values_get m' ''Token'' = [redactedValue] \<and> values_get m' ''b'' = [''1'']"
  using redacted_query_reads_back [OF demo_parsed(1), of ascii_only] demo_sensitive by fastforce

subsection \<open>Metrics under interleaving\<close>

text \<open>What the collectors show after a list of calls.\<close>

definition in_flight :: "metric_call list \<Rightarrow> int" where
  "in_flight cs = int (count_list cs InFlightInc) - int (count_list cs InFlightDec)"

definition requests_total :: "metric_call list \<Rightarrow> string \<times> string \<times> string \<Rightarrow> nat" where
  "requests_total cs = (\<lambda>(method, path, status). count_list cs (RequestsInc method path status))"

fun observed :: "string \<times> string \<Rightarrow> metric_call \<Rightarrow> bool" where
  "observed series (DurationObserve method path d) \<longleftrightarrow> series = (method, path)"
| "observed series _ \<longleftrightarrow> False"

definition observations :: "metric_call list \<Rightarrow> string \<times> string \<Rightarrow> nat" where
  "observations cs series = length (filter (observed series) cs)"

text \<open>A server under load: the calls made so far, the requests inside the middleware with the time they
  started, and how the requests that left it ended. Requests enter and leave in any order, and a request
  may end in any way.\<close>

record load =
  ld_calls :: "metric_call list"
  ld_active :: "nat \<Rightarrow> gotime option"
  ld_ended :: "outcome list"

inductive serving :: "load \<Rightarrow> bool" where
  idle: "serving \<lparr>ld_calls = [], ld_active = Map.empty, ld_ended = []\<rparr>"
| enters: "serving s \<Longrightarrow> ld_active s r = None \<Longrightarrow>
     serving (s\<lparr>ld_calls := ld_calls s @ metrics_enter, ld_active := (ld_active s)(r \<mapsto> start)\<rparr>)"
| leaves: "serving s \<Longrightarrow> ld_active s r = Some start \<Longrightarrow>
     serving (s\<lparr>ld_calls := ld_calls s @ metrics_leave (time_sub now start) res,
                ld_active := (ld_active s)(r := None), ld_ended := res # ld_ended s\<rparr>)"

text \<open>A single request through the middleware is an entry followed by a leaving.\<close>

lemma middleware_serves:
  assumes "serving s" and "ld_active s r = None" and "\<not> metrics_skipped skip x"
  shows "serving (s\<lparr>ld_calls := ld_calls s @ snd (HTTPMetricsMiddleware skip start now handler x),
                   ld_ended := fst (HTTPMetricsMiddleware skip start now handler x) # ld_ended s\<rparr>)"
proof -
  have "(ld_active s)(r := None) = ld_active s" using assms(2) by auto
  then show ?thesis
    using leaves [OF enters [OF assms(1,2)], where r = r and start = start and now = now and res = "handler x"] assms(3)
    by (simp add: HTTPMetricsMiddleware_def Let_def)
qed

text \<open>The labels of an ended request, told from how it ended.\<close>

definition route_of :: "exchange \<Rightarrow> string" where
  "route_of x = (if ex_fullPath x \<noteq> [] then ex_fullPath x
     else if cx_template (ex_ctx x) \<in> {None, Some []} then ''/unknown'' else the (cx_template (ex_ctx x)))"

fun series_of :: "outcome \<Rightarrow> string \<times> string \<times> string" where
  "series_of (Returned x) = (ex_method x, route_of x, int_to_string (ex_status x))"
| "series_of (Panicked _ x) = (ex_method x, route_of x, ''500'')"

lemma path_label_route: "path_label x = route_of x"
  by (auto simp: path_label_def route_of_def RouteTemplate_def split: option.splits)

lemma status_500: "int_to_string 500 = ''500''"
  by code_simp

lemma metrics_leave_series:
  "metrics_leave d res = (case series_of res of (method, path, status) \<Rightarrow>
     [InFlightDec, RequestsInc method path status, DurationObserve method path (duration_seconds d)])"
  by (cases res) (simp_all add: metrics_leave_def path_label_route status_500 Let_def)

lemma serving_active: "serving s \<Longrightarrow> finite (dom (ld_active s))"
  by (induction rule: serving.induct) (simp_all del: fun_upd_apply)

lemma in_flight_simps [simp]:
  "in_flight [] = 0" "in_flight (cs @ metrics_enter) = in_flight cs + 1"
  "in_flight (cs @ metrics_leave d res) = in_flight cs - 1"
  by (simp_all add: in_flight_def metrics_enter_def metrics_leave_series split: prod.split)

lemma requests_total_simps [simp]:
  "requests_total [] series = 0" "requests_total (cs @ metrics_enter) series = requests_total cs series"
  "requests_total (cs @ metrics_leave d res) series = requests_total cs series + (if series_of res = series then 1 else 0)"
  by (auto simp: requests_total_def metrics_enter_def metrics_leave_series split: prod.split)

lemma observations_simps [simp]:
  "observations [] series = 0" "observations (cs @ metrics_enter) series = observations cs series"
  "observations (cs @ metrics_leave d res) series
     = observations cs series + (if (case series_of res of (m, p, _) \<Rightarrow> (m, p)) = series then 1 else 0)"
  by (auto simp: observations_def metrics_enter_def metrics_leave_series split: prod.split)

text \<open>C36. However requests interleave and end, panics included: the gauge shows the number of requests
  inside the middleware, the counter of each series the number of requests that ended with its method,
  its route and its status (500 for a panic), and the histogram of each method and route has one
  observation for each of them. A route is never the requested path itself, but the matched one, the
  template the handler stored, or \<open>/unknown\<close>.\<close>

theorem metrics_account_for_every_request:
  assumes "serving s"
  shows "in_flight (ld_calls s) = int (card (dom (ld_active s)))
     \<and> (\<forall>series. requests_total (ld_calls s) series = count_list (List.map series_of (ld_ended s)) series)
     \<and> (\<forall>method path. observations (ld_calls s) (method, path)
          = length (filter (\<lambda>res. fst (series_of res) = method \<and> fst (snd (series_of res)) = path) (ld_ended s)))"
  using assms
proof (induction rule: serving.induct)
  case (leaves s r start res now)
  have "r \<in> dom (ld_active s)" using leaves.hyps(2) by auto
  moreover from this have "0 < card (dom (ld_active s))"
    using serving_active [OF leaves.hyps(1)] by (auto simp: card_gt_0_iff)
  ultimately show ?case using leaves.IH by (auto simp: card_Diff_singleton of_nat_diff Suc_leI simp del: fun_upd_apply split: prod.split)
next
  case (enters s r start)
  have "r \<notin> dom (ld_active s)" using enters.hyps(2) by auto
  then show ?case using enters.IH serving_active [OF enters.hyps(1)] by (simp del: fun_upd_apply)
qed simp

definition demo_exchange :: exchange where
  "demo_exchange = \<lparr>ex_method = ''GET'', ex_url = demo_url ''p'' [], ex_header = (\<lambda>_. []), ex_fullPath = [],
     ex_ctx = \<lparr>cx_template = Some ''/x/:id'', cx_trace = None\<rparr>, ex_status = 200\<rparr>"

theorem metrics_account_for_every_request_witness:
  "requests_total (snd (HTTPMetricsMiddleware [] zero_time zero_time (Panicked ''nil'') demo_exchange))
     (''GET'', ''/x/:id'', ''500'') = 1"
proof -
  let ?s = "\<lparr>ld_calls = [], ld_active = Map.empty, ld_ended = []\<rparr>"
  have "\<not> metrics_skipped [] demo_exchange" by (simp add: metrics_skipped_def demo_exchange_def demo_url_def)
  from metrics_account_for_every_request [OF middleware_serves [OF idle _ this]]
  show ?thesis
    by (simp add: HTTPMetricsMiddleware_def Let_def route_of_def \<open>\<not> metrics_skipped [] demo_exchange\<close> demo_exchange_def
        split: if_splits)
qed

subsection \<open>Spans\<close>

text \<open>How a handler ended: the text of the panic, if any, and the status the client gets.\<close>

primrec ending :: "outcome \<Rightarrow> string option \<times> int" where
  "ending (Returned x) = (None, ex_status x)"
| "ending (Panicked r x) = (Some r, 500)"

definition failed :: "outcome \<Rightarrow> bool" where
  "failed res \<longleftrightarrow> fst (ending res) \<noteq> None \<or> 500 \<le> snd (ending res)"

text \<open>A span that is closed once, after everything else, with the status of the exchange, and that is
  marked as an error exactly when the handler failed.\<close>

definition closed_span :: "outcome \<Rightarrow> span_call list \<Rightarrow> bool" where
  "closed_span res cs \<longleftrightarrow>
     (\<exists>before. cs = before @ [EndSpan] \<and> EndSpan \<notin> set before
        \<and> SetAttributes [(''http.status_code'', AttrInt (snd (ending res)))] \<in> set before
        \<and> ((\<exists>t. SetStatusError t \<in> set before) \<longleftrightarrow> failed res))"

definition library_option :: "TracingOption \<Rightarrow> bool" where
  "library_option f \<longleftrightarrow> f = WithoutRemoteExtraction \<or> (\<exists>r. f = WithPathRedactor r)"

lemma library_option_remote: "library_option f \<Longrightarrow> \<not> extractRemote c \<Longrightarrow> \<not> extractRemote (f c)"
  by (auto simp: library_option_def WithoutRemoteExtraction_def WithPathRedactor_def)

lemma library_options_remote:
  "\<forall>f \<in> set opts. library_option f \<Longrightarrow> \<not> extractRemote c \<Longrightarrow> \<not> extractRemote (fold (\<lambda>f c. f c) opts c)"
  by (induction opts arbitrary: c) (auto simp: library_option_remote)

lemma without_remote:
  assumes "\<forall>f \<in> set opts. library_option f" and "WithoutRemoteExtraction \<in> set opts"
  shows "\<not> extractRemote (tracing_config opts)"
proof -
  obtain a b where opts: "opts = a @ WithoutRemoteExtraction # b" using assms(2) by (auto dest: split_list)
  then have "\<forall>f \<in> set b. library_option f" using assms(1) by simp
  from library_options_remote [OF this] show ?thesis
    by (simp add: tracing_config_def opts WithoutRemoteExtraction_def)
qed

lemma tracing_leave_closed: "closed_span res (before @ tracing_leave res)"
  if "EndSpan \<notin> set before" "\<forall>t. SetStatusError t \<notin> set before"
  using that
  by (cases res) (auto simp: closed_span_def tracing_leave_def failed_def Let_def)

lemma tracing_leave_ending: "ending res = ending res' \<Longrightarrow> tracing_leave res = tracing_leave res'"
  by (cases res; cases res') (auto simp: tracing_leave_def)

lemma route_attributes_hides:
  assumes "same_url_but_secrets U (pathRedactor cfg) (ex_url x) u'"
  shows "route_attributes U cfg route (x\<lparr>ex_url := u'\<rparr>) = route_attributes U cfg route x"
  using redaction_same_text [OF assms] by (simp add: route_attributes_def)

text \<open>C38. A request that is not skipped runs its handler with the context of the span, and the middleware
  returns or panics as the handler did. The span is closed once, after everything else, carries the
  status, and is an error exactly for a panic or a status of 500 and above. It tells nothing of the
  secrets in the URL. With \<open>WithoutRemoteExtraction\<close> among the options the span continues the server's own
  context, whatever the request's headers.\<close>

theorem traced_request:
  assumes "u_Path (ex_url x) \<notin> set skipPaths"
  shows "\<exists>ctx sp. TracingMiddleware U ot skipPaths opts handler x = (handler (x\<lparr>ex_ctx := ctx\<rparr>), Some sp)
     \<and> closed_span (handler (x\<lparr>ex_ctx := ctx\<rparr>)) (sl_calls sp)
     \<and> ((\<forall>f \<in> set opts. library_option f) \<and> WithoutRemoteExtraction \<in> set opts \<longrightarrow> sl_parent sp = ex_ctx x)
     \<and> (\<forall>u' handler'. same_url_but_secrets U (pathRedactor (tracing_config opts)) (ex_url x) u'
          \<and> u_Path u' \<notin> set skipPaths
          \<and> (\<forall>c. ending (handler' (x\<lparr>ex_url := u', ex_ctx := c\<rparr>)) = ending (handler (x\<lparr>ex_ctx := c\<rparr>)))
          \<longrightarrow> snd (TracingMiddleware U ot skipPaths opts handler' (x\<lparr>ex_url := u'\<rparr>)) = Some sp)"
proof -
  define cfg where "cfg = tracing_config opts"
  define route where "route = (if ex_fullPath x = [] then ''/unknown'' else ex_fullPath x)"
  define name where "name = ex_method x @ CHR '' '' # route"
  define parent where "parent = (if extractRemote cfg then ot_extract ot (ex_header x) (ex_ctx x) else ex_ctx x)"
  obtain ctx rec where start: "ot_start ot (tracerPrefix @ ''http'') parent name SpanKindServer [] = (ctx, rec)"
    by fastforce
  define before where "before = (if rec then [SetAttributes (route_attributes U cfg route (x\<lparr>ex_ctx := ctx\<rparr>))] else [])"
  define sp where "sp = (\<lambda>res. \<lparr>sl_name = name, sl_parent = parent, sl_calls = before @ tracing_leave res\<rparr>)"
  note defs = TracingMiddleware_def Let_def before_def sp_def cfg_def route_def parent_def name_def
  have run: "TracingMiddleware U ot skipPaths opts handler x = (handler (x\<lparr>ex_ctx := ctx\<rparr>), Some (sp (handler (x\<lparr>ex_ctx := ctx\<rparr>))))"
    using assms start by (simp add: defs cong: if_cong split del: if_split)
  have closed: "closed_span res (sl_calls (sp res))" for res
    unfolding sp_def by (simp add: tracing_leave_closed before_def)
  have own: "sl_parent (sp res) = ex_ctx x" if "\<forall>f \<in> set opts. library_option f" "WithoutRemoteExtraction \<in> set opts" for res
    using without_remote [OF that] by (simp add: sp_def parent_def cfg_def)
  have same: "snd (TracingMiddleware U ot skipPaths opts handler' (x\<lparr>ex_url := u'\<rparr>)) = Some (sp (handler (x\<lparr>ex_ctx := ctx\<rparr>)))"
    if "same_url_but_secrets U (pathRedactor cfg) (ex_url x) u'" "u_Path u' \<notin> set skipPaths"
      "\<forall>c. ending (handler' (x\<lparr>ex_url := u', ex_ctx := c\<rparr>)) = ending (handler (x\<lparr>ex_ctx := c\<rparr>))" for u' handler'
  proof -
    have "route_attributes U cfg route (x\<lparr>ex_url := u', ex_ctx := ctx\<rparr>) = route_attributes U cfg route (x\<lparr>ex_ctx := ctx\<rparr>)"
      using route_attributes_hides [of U cfg "x\<lparr>ex_ctx := ctx\<rparr>" u' route] that(1)
      by (simp add: route_attributes_def)
    then show ?thesis
      using that(2) start tracing_leave_ending [OF that(3) [rule_format, of ctx]]
      by (simp add: defs cong: if_cong split del: if_split)
  qed
  show ?thesis using run closed own same unfolding cfg_def by (intro exI conjI) blast+
qed

text \<open>A tracer whose spans record and carry a trace of their own, or continue that of the caller.\<close>

definition demo_otel :: otel where
  "demo_otel = \<lparr>ot_extract = (\<lambda>h ctx. ctx\<lparr>cx_trace := Some (concat (h ''Traceparent''))\<rparr>),
     ot_start = (\<lambda>_ ctx _ _ _. (ctx\<lparr>cx_trace := Some ''own''\<rparr>, True))\<rparr>"

theorem traced_request_witness:
  "\<exists>sp. snd (TracingMiddleware ascii_only demo_otel [''/health''] [WithoutRemoteExtraction] (Panicked ''nil'') demo_exchange)
       = Some sp \<and> sl_parent sp = ex_ctx demo_exchange \<and> last (sl_calls sp) = EndSpan"
proof -
  have "u_Path (ex_url demo_exchange) \<notin> set [''/health'']" by (simp add: demo_exchange_def demo_url_def)
  from traced_request [OF this, of ascii_only demo_otel "[WithoutRemoteExtraction]" "Panicked ''nil''"]
  show ?thesis by (auto simp: closed_span_def library_option_def)
qed

end
