(* ===== verification/GoRFC3339.thy ===== *)
theory GoRFC3339
  imports GoTime
begin

text \<open>
  \<open>time.Parse(time.RFC3339, s)\<close> and \<open>Time.Format(time.RFC3339)\<close>. The parser is Go's:
  it takes a fraction of a second after a point or a comma, an hour of one digit, and zone
  offsets up to 24:60. \<open>Time.UnmarshalJSON\<close> uses the same parser.
\<close>

subsection \<open>Reading\<close>

text \<open>\<open>getnum\<close>: one or two digits, exactly two when \<open>fixed\<close>.\<close>

fun getnum :: "bool \<Rightarrow> string \<Rightarrow> (int \<times> string) option" where
  "getnum fixed [] = None"
| "getnum fixed [a] = (if is_digit a \<and> \<not> fixed then Some (digit_val a, []) else None)"
| "getnum fixed (a # b # s) =
     (if \<not> is_digit a then None
      else if is_digit b then Some (10 * digit_val a + digit_val b, s)
      else if fixed then None else Some (digit_val a, b # s))"

fun get_year :: "string \<Rightarrow> (int \<times> string) option" where
  "get_year (a # b # c # d # s) =
     (if list_all is_digit [a, b, c, d] then Some (digits_val [a, b, c, d], s) else None)"
| "get_year _ = None"

fun skip :: "char \<Rightarrow> string \<Rightarrow> string option" where
  "skip c [] = None"
| "skip c (x # s) = (if x = c then Some s else None)"

definition in_range :: "int \<Rightarrow> int \<Rightarrow> int \<Rightarrow> unit option" where
  "in_range lo hi x = (if lo \<le> x \<and> x \<le> hi then Some () else None)"

text \<open>The optional fraction: nanoseconds from the first nine digits, the rest dropped.\<close>

definition get_fraction :: "string \<Rightarrow> int \<times> string" where
  "get_fraction s =
     (case s of
        c # d # s' \<Rightarrow>
          if (c = CHR ''.'' \<or> c = CHR '','') \<and> is_digit d
          then (let ds = takeWhile is_digit (d # s'); n9 = take 9 ds
                in (digits_val n9 * 10 ^ (9 - length n9), dropWhile is_digit (d # s')))
          else (0, s)
      | _ \<Rightarrow> (0, s))"

text \<open>The zone: \<open>None\<close> for \<open>Z\<close>, otherwise the offset in seconds.\<close>

fun get_zone :: "string \<Rightarrow> (int option \<times> string) option" where
  "get_zone [] = None"
| "get_zone (z # s) =
     (if z = CHR ''Z'' then Some (None, s)
      else if length s < 5 then None
      else do {
        (hr, rest) \<leftarrow> getnum True (take 2 s);
        _ \<leftarrow> skip CHR '':'' (drop 2 s);
        (mm, rest') \<leftarrow> getnum True (take 2 (drop 3 s));
        _ \<leftarrow> in_range 0 24 hr;
        _ \<leftarrow> in_range 0 60 mm;
        if z = CHR ''+'' then Some (Some ((hr * 60 + mm) * 60), drop 5 s)
        else if z = CHR ''-'' then Some (Some (- ((hr * 60 + mm) * 60)), drop 5 s)
        else None })"

text \<open>The result's location: UTC for \<open>Z\<close>; the local zone where it has that offset at that
  instant; otherwise a fabricated zone.\<close>

definition with_zone :: "local_zone \<Rightarrow> gotime \<Rightarrow> int option \<Rightarrow> gotime" where
  "with_zone lz t z =
     (case z of None \<Rightarrow> t
      | Some off \<Rightarrow>
          let ns = t_ns t - off * Second
          in if lz (ns div Second) = off then \<lparr>t_ns = ns, t_loc = Local\<rparr>
             else \<lparr>t_ns = ns, t_loc = FixedZone off\<rparr>)"

definition parse_rfc3339 :: "local_zone \<Rightarrow> string \<Rightarrow> gotime option" where
  "parse_rfc3339 lz s = do {
     (y, s) \<leftarrow> get_year s;
     s \<leftarrow> skip CHR ''-'' s;
     (m, s) \<leftarrow> getnum True s;
     _ \<leftarrow> in_range 1 12 m;
     s \<leftarrow> skip CHR ''-'' s;
     (d, s) \<leftarrow> getnum True s;
     s \<leftarrow> skip CHR ''T'' s;
     (h, s) \<leftarrow> getnum False s;
     _ \<leftarrow> in_range 0 23 h;
     s \<leftarrow> skip CHR '':'' s;
     (mi, s) \<leftarrow> getnum True s;
     _ \<leftarrow> in_range 0 59 mi;
     s \<leftarrow> skip CHR '':'' s;
     (sec, s) \<leftarrow> getnum True s;
     _ \<leftarrow> in_range 0 59 sec;
     (let (nsec, s) = get_fraction s in do {
        (z, s) \<leftarrow> get_zone s;
        _ \<leftarrow> (if s = [] then Some () else None);
        _ \<leftarrow> in_range 1 (days_in m y) d;
        Some (with_zone lz (go_date y m d h mi sec nsec) z) }) }"

subsection \<open>Printing\<close>

text \<open>\<open>appendInt(b, x, width)\<close>: the number padded with zeros on the left.\<close>

definition append_int :: "int \<Rightarrow> nat \<Rightarrow> string" where
  "append_int x width =
     (let ds = nat_to_string (nat \<bar>x\<bar>)
      in (if x < 0 then ''-'' else []) @ replicate (width - length ds) CHR ''0'' @ ds)"

definition loc_offset :: "local_zone \<Rightarrow> gotime \<Rightarrow> int" where
  "loc_offset lz t =
     (case t_loc t of UTC \<Rightarrow> 0 | Local \<Rightarrow> lz (t_ns t div Second) | FixedZone off \<Rightarrow> off)"

definition time_year :: "local_zone \<Rightarrow> gotime \<Rightarrow> int" where
  "time_year lz t = fst (civil_of_days ((t_ns t div Second + loc_offset lz t) div 86400))"

definition format_zone :: "int \<Rightarrow> string" where
  "format_zone off =
     (if off = 0 then ''Z''
      else let z = \<bar>off\<bar> div 60
           in (if off sdiv 60 < 0 then CHR ''-'' else CHR ''+'')
              # append_int (z div 60) 2 @ '':'' @ append_int (z mod 60) 2)"

definition format_rfc3339 :: "local_zone \<Rightarrow> gotime \<Rightarrow> string" where
  "format_rfc3339 lz t =
     (let off = loc_offset lz t; sec = t_ns t div Second + off;
          (y, m, d) = civil_of_days (sec div 86400); k = sec mod 86400
      in append_int y 4 @ ''-'' @ append_int m 2 @ ''-'' @ append_int d 2 @ ''T''
         @ append_int (k div 3600) 2 @ '':'' @ append_int (k div 60 mod 60) 2 @ '':''
         @ append_int (k mod 60) 2 @ format_zone off)"

subsection \<open>Reading back what was printed\<close>

lemma nat_to_string_1: "n < 10 \<Longrightarrow> nat_to_string n = [digit_char n]"
  by (subst nat_to_string.simps) simp

lemma nat_to_string_step: "10 \<le> n \<Longrightarrow> nat_to_string n = nat_to_string (n div 10) @ [digit_char (n mod 10)]"
  by (subst nat_to_string.simps) simp

lemma digit_char_0: "digit_char 0 = CHR ''0''"
  by code_simp

lemma replicate_small: "replicate 2 c = [c, c]" "replicate 3 c = [c, c, c]"
  by (simp_all add: numeral_eq_Suc)

lemma append_int_2:
  assumes "0 \<le> x" "x < 100"
  shows "append_int x 2 = [digit_char (nat x div 10), digit_char (nat x mod 10)]"
proof (cases "x < 10")
  case True
  with assms have "nat x < 10" by simp
  then show ?thesis
    using assms by (simp add: append_int_def nat_to_string_1 digit_char_0)
next
  case False
  with assms have "10 \<le> nat x" "nat x div 10 < 10" by auto
  then show ?thesis using assms by (simp add: append_int_def nat_to_string_step nat_to_string_1)
qed

lemma append_int_4:
  assumes "0 \<le> x" "x < 10000"
  shows "append_int x 4 = [digit_char (nat x div 1000), digit_char (nat x div 100 mod 10),
    digit_char (nat x div 10 mod 10), digit_char (nat x mod 10)]"
proof -
  define n where "n = nat x"
  have n: "n < 10000" "x = int n" using assms by (auto simp: n_def)
  consider "n < 10" | "10 \<le> n" "n < 100" | "100 \<le> n" "n < 1000" | "1000 \<le> n" using n by linarith
  then show ?thesis
  proof cases
    case 1
    then show ?thesis using n by (simp add: append_int_def nat_to_string_1 digit_char_0 replicate_small)
  next
    case 2
    then have "n div 10 < 10" "n div 100 = 0" "n div 1000 = 0" by auto
    with 2 show ?thesis using n
      by (simp add: append_int_def nat_to_string_1 nat_to_string_step digit_char_0 replicate_small)
  next
    case 3
    then have "10 \<le> n div 10" "n div 10 div 10 < 10" "n div 1000 = 0" by auto
    with 3 show ?thesis using n
      by (simp add: append_int_def nat_to_string_1 nat_to_string_step digit_char_0 replicate_small div_mult2_eq[symmetric])
  next
    case 4
    then have "10 \<le> n div 10" "10 \<le> n div 10 div 10" "n div 10 div 10 div 10 < 10" using n by auto
    with 4 show ?thesis using n
      by (simp add: append_int_def nat_to_string_1 nat_to_string_step div_mult2_eq[symmetric])
  qed
qed

lemma getnum_append_int:
  assumes "0 \<le> x" "x < 100"
  shows "getnum fixed (append_int x 2 @ s) = Some (x, s)"
proof -
  have "nat x div 10 < 10" using assms by auto
  moreover have "10 * int (nat x div 10) + int (nat x mod 10) = x"
    using assms by (simp add: zdiv_int zmod_int)
  ultimately show ?thesis by (simp add: append_int_2[OF assms])
qed

lemma get_year_append_int:
  assumes "0 \<le> y" "y < 10000"
  shows "get_year (append_int y 4 @ s) = Some (y, s)"
proof -
  define n where "n = nat y"
  have n: "n < 10000" "y = int n" using assms by (auto simp: n_def)
  have d: "n div 1000 < 10" using n by auto
  have "n = 10 * (n div 10) + n mod 10" "n div 10 = 10 * (n div 100) + n div 10 mod 10"
    "n div 100 = 10 * (n div 1000) + n div 100 mod 10"
    using mult_div_mod_eq[of 10 "n div 10"] mult_div_mod_eq[of 10 "n div 100"]
    by (simp_all add: div_mult2_eq[symmetric])
  then have "n = 1000 * (n div 1000) + 100 * (n div 100 mod 10) + 10 * (n div 10 mod 10) + n mod 10"
    by linarith
  then have "int n = int (10 * (10 * (10 * (n div 1000) + n div 100 mod 10) + n div 10 mod 10) + n mod 10)"
    by (intro arg_cong[of _ _ int]) simp
  then have "int n = 10 * (10 * (10 * int (n div 1000) + int (n div 100 mod 10)) + int (n div 10 mod 10)) + int (n mod 10)"
    by (simp only: of_nat_add of_nat_mult of_nat_numeral)
  then have v: "digits_val [digit_char (n div 1000), digit_char (n div 100 mod 10),
      digit_char (n div 10 mod 10), digit_char (n mod 10)] = y"
    using d n(2) by (simp add: digits_val_def)
  show ?thesis using d v by (simp add: append_int_4[OF assms] n_def[symmetric])
qed

lemma format_zone_0: "format_zone 0 = ''Z''"
  by (simp add: format_zone_def)

lemma get_zone_format:
  assumes "60 dvd off" "\<bar>off\<bar> \<le> 86400"
  shows "get_zone (format_zone off) = Some (if off = 0 then None else Some off, [])"
proof (cases "off = 0")
  case False
  define z where "z = \<bar>off\<bar> div 60"
  have z: "\<bar>off\<bar> = 60 * z" "0 \<le> z" "z \<le> 1440" using assms by (auto simp: z_def)
  define p q where "p = z div 60" and "q = z mod 60"
  have hm: "0 \<le> p" "p \<le> 24" "0 \<le> q" "q < 60" "z = p * 60 + q"
    using z by (auto simp: p_def q_def)
  have sign: "off sdiv 60 < 0 \<longleftrightarrow> off < 0"
    using z False by (auto simp: signed_divide_int_def sgn_if z_def)
  define sg where "sg = (if off < 0 then CHR ''-'' else CHR ''+'')"
  have f: "format_zone off = sg # append_int p 2 @ '':'' @ append_int q 2"
    using False by (simp add: format_zone_def Let_def sign sg_def z_def p_def q_def)
  obtain a b where ab: "append_int p 2 = [a, b]" using hm by (simp add: append_int_2)
  obtain c d where cd: "append_int q 2 = [c, d]" using hm by (simp add: append_int_2)
  have g: "getnum True [a, b] = Some (p, [])" "getnum True [c, d] = Some (q, [])"
    using hm getnum_append_int[of p True "[]"] getnum_append_int[of q True "[]"]
    by (simp_all add: ab cd)
  have r: "in_range 0 24 p = Some ()" "in_range 0 60 q = Some ()"
    using hm by (simp_all add: in_range_def)
  have "get_zone (sg # [a, b] @ '':'' @ [c, d])
    = Some (Some (if sg = CHR ''+'' then (p * 60 + q) * 60 else - ((p * 60 + q) * 60)), [])"
    using g r by (cases "off < 0") (simp_all add: sg_def del: getnum.simps)
  then show ?thesis using False z(1) unfolding f ab cd hm(5) by (auto simp: sg_def)
qed (simp add: format_zone_0)

text \<open>A printed instant reads back as the same second, in the zone its offset selects, for the
  four-digit years and for offsets of whole minutes.\<close>

lemma days_in_le_31: "1 \<le> m \<Longrightarrow> m \<le> 12 \<Longrightarrow> days_in m y \<le> 31"
  by (simp add: days_in_def month_start_def)

lemma get_fraction_zone: "get_fraction (format_zone off) = (0, format_zone off)"
  by (auto simp: format_zone_def get_fraction_def Let_def split: list.splits)

lemma parse_assembled:
  assumes "0 \<le> y" "y < 10000" "1 \<le> m" "m \<le> 12" "1 \<le> d" "d \<le> days_in m y" "d < 100"
    and "0 \<le> h" "h \<le> 23" "0 \<le> mi" "mi \<le> 59" "0 \<le> sc" "sc \<le> 59"
    and "get_zone (format_zone off) = Some (z, [])"
  shows "parse_rfc3339 lz (append_int y 4 @ ''-'' @ append_int m 2 @ ''-'' @ append_int d 2 @ ''T''
         @ append_int h 2 @ '':'' @ append_int mi 2 @ '':'' @ append_int sc 2 @ format_zone off)
    = Some (with_zone lz (go_date y m d h mi sc 0) z)"
proof -
  have r: "in_range 1 12 m = Some ()" "in_range 0 23 h = Some ()" "in_range 0 59 mi = Some ()"
      "in_range 0 59 sc = Some ()" "in_range 1 (days_in m y) d = Some ()"
    using assms by (simp_all add: in_range_def)
  have g: "get_year (append_int y 4 @ s) = Some (y, s)" "getnum True (append_int m 2 @ s) = Some (m, s)"
      "getnum True (append_int d 2 @ s) = Some (d, s)" "getnum False (append_int h 2 @ s) = Some (h, s)"
      "getnum True (append_int mi 2 @ s) = Some (mi, s)" "getnum True (append_int sc 2 @ s) = Some (sc, s)" for s
    using assms by (auto intro!: get_year_append_int getnum_append_int)
  show ?thesis
    by (simp add: parse_rfc3339_def g r get_fraction_zone assms(14) del: getnum.simps get_year.simps get_zone.simps)
qed

lemma parse_format_rfc3339:
  assumes "0 \<le> time_year lz t" "time_year lz t \<le> 9999"
    and "60 dvd loc_offset lz t" "\<bar>loc_offset lz t\<bar> \<le> 86400"
  shows "parse_rfc3339 lz (format_rfc3339 lz t)
    = Some (with_zone lz \<lparr>t_ns = (t_ns t div Second + loc_offset lz t) * Second, t_loc = UTC\<rparr>
        (if loc_offset lz t = 0 then None else Some (loc_offset lz t)))"
proof -
  define off where "off = loc_offset lz t"
  define sec where "sec = t_ns t div Second + off"
  define k where "k = sec mod 86400"
  obtain y m d where c: "civil_of_days (sec div 86400) = (y, m, d)" by (cases "civil_of_days (sec div 86400)")
  note C = civil_of_days_spec[OF c]
  have y: "0 \<le> y" "y < 10000" using assms(1,2) by (simp_all add: time_year_def sec_def off_def c[unfolded sec_def off_def])
  have md: "0 \<le> m" "m < 100" "0 \<le> d" "d < 100" using C days_in_le_31[of m y] by auto
  have k: "0 \<le> k" "k < 86400" by (simp_all add: k_def)
  have t: "0 \<le> k div 3600" "k div 3600 < 100" "k div 3600 \<le> 23"
    "0 \<le> k div 60 mod 60" "k div 60 mod 60 < 100" "k div 60 mod 60 \<le> 59"
    "0 \<le> k mod 60" "k mod 60 < 100" "k mod 60 \<le> 59"
    using k by auto
  have fmt: "format_rfc3339 lz t = append_int y 4 @ ''-'' @ append_int m 2 @ ''-'' @ append_int d 2 @ ''T''
         @ append_int (k div 3600) 2 @ '':'' @ append_int (k div 60 mod 60) 2 @ '':''
         @ append_int (k mod 60) 2 @ format_zone off"
    by (simp add: format_rfc3339_def Let_def off_def[symmetric] sec_def[symmetric] c k_def)
  have hms: "((k div 3600) * 60 + k div 60 mod 60) * 60 + k mod 60 = k"
  proof -
    have "k div 3600 * 60 + k div 60 mod 60 = k div 60"
      using div_mult_mod_eq[of "k div 60" 60] by (simp add: zdiv_zmult2_eq[symmetric])
    then show ?thesis using div_mult_mod_eq[of k 60] by simp
  qed
  have "((days_of_civil y m d * 24 + k div 3600) * 60 + k div 60 mod 60) * 60 + k mod 60 = days_of_civil y m d * 86400 + k"
    using hms by (simp add: algebra_simps)
  also have "\<dots> = sec" unfolding C(1) k_def by simp
  finally have date: "go_date y m d (k div 3600) (k div 60 mod 60) (k mod 60) 0 = \<lparr>t_ns = sec * Second, t_loc = UTC\<rparr>"
    by (simp add: go_date_def)
  show ?thesis
    using parse_assembled[of y m d "k div 3600" "k div 60 mod 60" "k mod 60" off _ lz,
        OF y C(2-5) md(4) t(1,3,4,6,7,9) get_zone_format] assms(3,4)
    unfolding fmt date off_def sec_def by simp
qed

end
