(* ===== verification/GoFormat.thy ===== *)
theory GoFormat
  imports GoFloat GoRFC3339
begin

text \<open>
  Formatting of numbers and instants: \<open>strconv.FormatFloat(v, 'f', prec, 64)\<close> and the layouts of
  \<open>Time.Format\<close> that the program uses. A precision of at least 0 prints the exact value rounded to that
  many decimals, ties to even. The shortest form (a negative precision) is the parameter \<open>shortest\<close>.
\<close>

subsection \<open>Numbers\<close>

definition pad_left :: "nat \<Rightarrow> string \<Rightarrow> string" where
  "pad_left w s = replicate (w - length s) CHR ''0'' @ s"

definition decimal_digits :: "nat \<Rightarrow> nat \<Rightarrow> string" where
  "decimal_digits prec n =
     nat_to_string (n div 10 ^ prec) @ (if prec = 0 then [] else CHR ''.'' # pad_left prec (nat_to_string (n mod 10 ^ prec)))"

definition format_fixed :: "nat \<Rightarrow> f64 \<Rightarrow> string" where
  "format_fixed prec v =
     (if v = NaN then ''NaN'' else if v = PosInf then ''+Inf'' else if v = NegInf then ''-Inf''
      else (if signbit v then ''-'' else []) @ decimal_digits prec (nat (rne (\<bar>fval v\<bar> * 10 ^ prec))))"

definition FormatFloat_f :: "(f64 \<Rightarrow> string) \<Rightarrow> f64 \<Rightarrow> int \<Rightarrow> string" where
  "FormatFloat_f shortest v prec = (if prec < 0 then shortest v else format_fixed (nat prec) v)"

subsection \<open>Instants\<close>

definition month_abbr :: "int \<Rightarrow> string" where
  "month_abbr m = (if m = 1 then ''Jan'' else if m = 2 then ''Feb'' else if m = 3 then ''Mar'' else if m = 4 then ''Apr''
     else if m = 5 then ''May'' else if m = 6 then ''Jun'' else if m = 7 then ''Jul'' else if m = 8 then ''Aug''
     else if m = 9 then ''Sep'' else if m = 10 then ''Oct'' else if m = 11 then ''Nov'' else ''Dec'')"

definition weekday_abbr :: "int \<Rightarrow> string" where
  "weekday_abbr days = (let w = (days + 4) mod 7 in
     if w = 0 then ''Sun'' else if w = 1 then ''Mon'' else if w = 2 then ''Tue'' else if w = 3 then ''Wed''
     else if w = 4 then ''Thu'' else if w = 5 then ''Fri'' else ''Sat'')"

text \<open>Seconds and day of an instant on the clock of its location.\<close>

definition clock_seconds :: "local_zone \<Rightarrow> gotime \<Rightarrow> int" where
  "clock_seconds lz t = t_ns t div Second + loc_offset lz t"

definition clock_day :: "local_zone \<Rightarrow> gotime \<Rightarrow> int" where
  "clock_day lz t = clock_seconds lz t div 86400"

definition clock_hour :: "local_zone \<Rightarrow> gotime \<Rightarrow> int" where
  "clock_hour lz t = clock_seconds lz t mod 86400 div 3600"

definition clock_minute :: "local_zone \<Rightarrow> gotime \<Rightarrow> int" where
  "clock_minute lz t = clock_seconds lz t mod 3600 div 60"

definition format_month_year :: "local_zone \<Rightarrow> gotime \<Rightarrow> string" where
  "format_month_year lz t = (case civil_of_days (clock_day lz t) of (y, m, d) \<Rightarrow> month_abbr m @ '' '' @ append_int y 4)"

definition format_weekday :: "local_zone \<Rightarrow> gotime \<Rightarrow> string" where
  "format_weekday lz t = (case civil_of_days (clock_day lz t) of (y, m, d) \<Rightarrow>
     weekday_abbr (clock_day lz t) @ '' '' @ append_int d 0 @ '' '' @ month_abbr m)"

definition format_day_month :: "local_zone \<Rightarrow> gotime \<Rightarrow> string" where
  "format_day_month lz t = (case civil_of_days (clock_day lz t) of (y, m, d) \<Rightarrow> append_int d 0 @ '' '' @ month_abbr m)"

definition format_clock :: "local_zone \<Rightarrow> gotime \<Rightarrow> string" where
  "format_clock lz t = append_int (clock_hour lz t) 2 @ '':'' @ append_int (clock_minute lz t) 2"

definition format_stamp_utc :: "gotime \<Rightarrow> string" where
  "format_stamp_utc t = (let u = time_utc t in case civil_of_days (clock_day (\<lambda>_. 0) u) of (y, m, d) \<Rightarrow>
     append_int y 4 @ ''-'' @ append_int m 2 @ ''-'' @ append_int d 2 @ '' '' @ format_clock (\<lambda>_. 0) u @ '' UTC'')"

text \<open>\<open>Time.Truncate\<close> rounds down to a multiple of the duration since the zero time, whatever the location.\<close>

definition time_truncate :: "gotime \<Rightarrow> duration \<Rightarrow> gotime" where
  "time_truncate t d = (if d \<le> 0 then t else t\<lparr>t_ns := t_ns t - (t_ns t - t_ns zero_time) mod d\<rparr>)"

definition unix_milli :: "gotime \<Rightarrow> int" where "unix_milli t = t_ns t div 1000000"

text \<open>\<open>time.UnixMilli\<close>, in the local zone.\<close>

definition of_unix_milli :: "int \<Rightarrow> gotime" where "of_unix_milli ms = \<lparr>t_ns = ms * 1000000, t_loc = Local\<rparr>"

lemma t_ns_time_truncate:
  assumes "0 < d"
  shows "t_ns t - d < t_ns (time_truncate t d)" "t_ns (time_truncate t d) \<le> t_ns t"
    "(t_ns (time_truncate t d) - t_ns zero_time) mod d = 0" "t_loc (time_truncate t d) = t_loc t"
proof -
  have m: "0 \<le> (t_ns t - t_ns zero_time) mod d" "(t_ns t - t_ns zero_time) mod d < d" using assms by simp_all
  then show "t_ns t - d < t_ns (time_truncate t d)" "t_ns (time_truncate t d) \<le> t_ns t" "t_loc (time_truncate t d) = t_loc t"
    using assms by (simp_all add: time_truncate_def)
  have "t_ns (time_truncate t d) - t_ns zero_time = (t_ns t - t_ns zero_time) div d * d"
    using assms minus_mod_eq_div_mult[of "t_ns t - t_ns zero_time" d] by (simp add: time_truncate_def)
  then show "(t_ns (time_truncate t d) - t_ns zero_time) mod d = 0" by simp
qed

lemma format_fixed_examples: "format_fixed 1 (Fin (5/4)) = ''1.2''" "format_fixed 2 NegZero = ''-0.00''"
  by code_simp+

lemma time_format_examples:
  "format_month_year (\<lambda>_. 0) (go_date 2024 2 29 0 0 0 0) = ''Feb 2024''"
  "format_weekday (\<lambda>_. 0) (go_date 2024 2 29 0 0 0 0) = ''Thu 29 Feb''"
  "format_stamp_utc (go_date 2024 2 9 7 5 0 0) = ''2024-02-09 07:05 UTC''"
  by code_simp+

end
