(* ===== verification/ChartPalette.thy ===== *)
theory ChartPalette
  imports GoFloat
begin

text \<open>
  The palette of the package \<open>chart\<close> (\<open>src/chart/palette.go\<close>): the reserved status scale, the
  categorical slots and the sequential ramp of both colour modes. The string types of the package
  (\<open>Kind\<close>, \<open>Mode\<close>, \<open>Mark\<close>, \<open>Status\<close>) are strings, as their values come from JSON. An index outside a
  slice is a panic, \<open>None\<close>.
\<close>

type_synonym Mode = string
type_synonym Status = string

definition ModeLight :: Mode where "ModeLight = ''light''"
definition ModeDark :: Mode where "ModeDark = ''dark''"

definition StatusGood :: Status where "StatusGood = ''good''"
definition StatusWarning :: Status where "StatusWarning = ''warning''"
definition StatusSerious :: Status where "StatusSerious = ''serious''"
definition StatusCritical :: Status where "StatusCritical = ''critical''"
definition StatusNone :: Status where "StatusNone = ''none''"

lemmas status_defs = StatusGood_def StatusWarning_def StatusSerious_def StatusCritical_def StatusNone_def

definition maxSeries :: int where "maxSeries = 8"

datatype status_error = StatusRequired | UnknownStatus string

definition Status_validate :: "Status \<Rightarrow> status_error option" where
  "Status_validate s =
     (if s \<in> {StatusGood, StatusWarning, StatusSerious, StatusCritical, StatusNone} then None
      else if s = [] then Some StatusRequired else Some (UnknownStatus s))"

definition Severity :: "Status \<Rightarrow> int" where
  "Severity s =
     (if s = StatusNone then 0 else if s = StatusGood then 1 else if s = StatusWarning then 2
      else if s = StatusSerious then 3 else if s = StatusCritical then 4 else 0)"

subsection \<open>Colours\<close>

definition seriesLight :: "string list" where
  "seriesLight = [''#2a78d6'', ''#eb6834'', ''#1baf7a'', ''#eda100'', ''#e87ba4'', ''#008300'', ''#4a3aa7'', ''#e34948'']"

definition seriesDark :: "string list" where
  "seriesDark = [''#3987e5'', ''#d95926'', ''#199e70'', ''#c98500'', ''#d55181'', ''#008300'', ''#9085e9'', ''#e66767'']"

definition statusSteps :: "Status \<Rightarrow> string option" where
  "statusSteps = map_of [(StatusGood, ''#0ca30c''), (StatusWarning, ''#fab219''), (StatusSerious, ''#ec835a''),
     (StatusCritical, ''#d03b3b''), (StatusNone, ''#898781'')]"

definition sequentialLight :: "string list" where
  "sequentialLight = [''#cde2fb'', ''#9ec5f4'', ''#6da7ec'', ''#3987e5'', ''#256abf'', ''#184f95'', ''#0d366b'']"

definition sequentialDark :: "string list" where
  "sequentialDark = [''#0d366b'', ''#184f95'', ''#256abf'', ''#3987e5'', ''#6da7ec'', ''#9ec5f4'', ''#cde2fb'']"

record ResolvedPalette =
  rp_Mode :: Mode
  rp_Surface :: string
  rp_Page :: string
  rp_InkPrimary :: string
  rp_InkSecondary :: string
  rp_InkMuted :: string
  rp_Gridline :: string
  rp_Baseline :: string
  rp_Series :: "string list"
  rp_Status :: "Status \<Rightarrow> string option"
  rp_Sequential :: "string list"

definition PaletteFor :: "Mode \<Rightarrow> ResolvedPalette" where
  "PaletteFor mode =
     (if mode = ModeDark then
        \<lparr>rp_Mode = ModeDark, rp_Surface = ''#1a1a19'', rp_Page = ''#0d0d0d'', rp_InkPrimary = ''#ffffff'',
         rp_InkSecondary = ''#c3c2b7'', rp_InkMuted = ''#898781'', rp_Gridline = ''#2c2c2a'', rp_Baseline = ''#383835'',
         rp_Series = seriesDark, rp_Status = statusSteps, rp_Sequential = sequentialDark\<rparr>
      else
        \<lparr>rp_Mode = ModeLight, rp_Surface = ''#fcfcfb'', rp_Page = ''#f9f9f7'', rp_InkPrimary = ''#0b0b0b'',
         rp_InkSecondary = ''#52514e'', rp_InkMuted = ''#898781'', rp_Gridline = ''#e1e0d9'', rp_Baseline = ''#c3c2b7'',
         rp_Series = seriesLight, rp_Status = statusSteps, rp_Sequential = sequentialLight\<rparr>)"

text \<open>Indexing a slice.\<close>

definition slice_at :: "'a list \<Rightarrow> int \<Rightarrow> 'a option" where
  "slice_at xs i = (if 0 \<le> i \<and> i < int (length xs) then Some (xs ! nat i) else None)"

definition SeriesColor :: "ResolvedPalette \<Rightarrow> int \<Rightarrow> string option" where
  "SeriesColor p slot =
     (if slot < 1 \<or> slot > int (length (rp_Series p)) then slice_at (rp_Series p) 0
      else slice_at (rp_Series p) (slot - 1))"

text \<open>A missing key of a map reads as the empty string.\<close>

definition StatusColor :: "ResolvedPalette \<Rightarrow> Status \<Rightarrow> string" where
  "StatusColor p s =
     (case rp_Status p s of Some hex \<Rightarrow> hex
      | None \<Rightarrow> (case rp_Status p StatusNone of Some hex \<Rightarrow> hex | None \<Rightarrow> []))"

definition SequentialColor :: "(f64 \<Rightarrow> int) \<Rightarrow> ResolvedPalette \<Rightarrow> f64 \<Rightarrow> string option" where
  "SequentialColor oob p t =
     (let n = int (length (rp_Sequential p)) in
      if fle t (Fin 0) then slice_at (rp_Sequential p) 0
      else if fge t (Fin 1) then slice_at (rp_Sequential p) (n - 1)
      else slice_at (rp_Sequential p) (to_int64 oob (fadd (fmul t (f_of_int (n - 1))) (Fin (1/2)))))"

subsection \<open>Facts about the palette\<close>

lemma slice_at_nth: "0 \<le> i \<Longrightarrow> i < int (length xs) \<Longrightarrow> slice_at xs i = Some (xs ! nat i)"
  by (simp add: slice_at_def)

lemma palette_lengths: "length (rp_Series (PaletteFor mode)) = 8" "length (rp_Sequential (PaletteFor mode)) = 7"
  by (simp_all add: PaletteFor_def seriesLight_def seriesDark_def sequentialLight_def sequentialDark_def)

lemma palette_status [simp]: "rp_Status (PaletteFor mode) = statusSteps"
  by (simp add: PaletteFor_def)

lemma series_distinct: "distinct (rp_Series (PaletteFor mode))"
  by (simp add: PaletteFor_def seriesLight_def seriesDark_def)

lemma SeriesColor_slot: "1 \<le> slot \<Longrightarrow> slot \<le> 8 \<Longrightarrow> SeriesColor (PaletteFor mode) slot = Some (rp_Series (PaletteFor mode) ! nat (slot - 1))"
  by (simp add: SeriesColor_def slice_at_def palette_lengths)

lemma SeriesColor_Some: "\<exists>c. SeriesColor (PaletteFor mode) slot = Some c"
  by (simp add: SeriesColor_def slice_at_def palette_lengths)

lemma SeriesColor_inj:
  assumes "1 \<le> a" "a \<le> 8" "1 \<le> b" "b \<le> 8" "SeriesColor (PaletteFor mode) a = SeriesColor (PaletteFor mode) b"
  shows "a = b"
proof -
  have "nat (a - 1) = nat (b - 1)"
    using assms by (simp add: SeriesColor_slot nth_eq_iff_index_eq[OF series_distinct] palette_lengths)
  then show ?thesis using assms by linarith
qed

text \<open>No status colour is a categorical one, in either mode.\<close>

lemma status_not_categorical: "statusSteps s = Some c \<Longrightarrow> c \<notin> set (rp_Series (PaletteFor mode))"
  by (auto simp: statusSteps_def PaletteFor_def seriesLight_def seriesDark_def map_of_Cons_code split: if_splits)

lemma Severity_bounds: "0 \<le> Severity s \<and> Severity s \<le> 4"
  by (simp add: Severity_def)

lemma Severity_inj: "Status_validate s = None \<Longrightarrow> Status_validate t = None \<Longrightarrow> Severity s = Severity t \<Longrightarrow> s = t"
  by (auto simp: Status_validate_def Severity_def status_defs split: if_splits)

text \<open>A position on the ramp, which every finite number is, has a colour.\<close>

lemma SequentialColor_Some:
  assumes "t \<noteq> NaN" shows "\<exists>c. SequentialColor oob (PaletteFor mode) t = Some c"
proof -
  consider "fle t (Fin 0)" | "fge t (Fin 1)" | q where "t = Fin q" "0 < q" "q < 1"
  proof (cases t)
    case (Fin q)
    then show thesis using that(1,2) that(3)[of q] by (fastforce simp: fle_def flt_def feq_def is_inf_def)
  qed (use assms that(1,2) in \<open>simp_all add: fle_def flt_def feq_def is_inf_def\<close>)
  then show ?thesis
  proof cases
    case 3
    have six: "f_of_int 6 = Fin 6" by (simp add: f_of_int_exact)
    have r: "0 \<le> rnd (q * 6)" "rnd (q * 6) \<le> 6"
      using 3 rnd_mono[of 0 "q * 6"] rnd_mono[of "q * 6" "of_int 6"] rnd_of_int[of 6] by simp_all
    obtain m where m: "fmul t (Fin 6) = m" "finite64 m" "0 \<le> fval m" "fval m \<le> 6"
      using 3 r fmul_finite[of t "Fin 6"] small_pow[of "q * 6"] by auto
    have s: "0 \<le> rnd (fval m + 1/2)" "rnd (fval m + 1/2) \<le> 13/2"
      using m rnd_mono[of 0 "fval m + 1/2"] rnd_mono[of "fval m + 1/2" "of_int 13 * pw2 (- 1)"] rnd_exact[of 13 "- 1"]
      by (simp_all add: power_int_minus)
    obtain n where n: "fadd m (Fin (1/2)) = n" "finite64 n" "0 \<le> fval n" "fval n \<le> 13/2"
      using m s fadd_finite[of m "Fin (1/2)"] small_pow[of "fval m + 1/2"] by auto
    have "0 \<le> rat_trunc (fval n)" "rat_trunc (fval n) < 7" using n(3,4) by (simp_all add: rat_trunc_def)
    moreover from this have "to_int64 oob n = rat_trunc (fval n)"
      using n(2) by (simp add: to_int64_def finite64_def in_int64_def)
    ultimately show ?thesis using 3 m(1) n(1) six
      by (simp add: SequentialColor_def Let_def slice_at_def palette_lengths fle_def flt_def feq_def is_inf_def)
  qed (auto simp: SequentialColor_def Let_def slice_at_def palette_lengths)
qed

end
