(* ===== verification/ChartParameters.thy ===== *)
theory ChartParameters
  imports GoFormat ChartPalette
begin

text \<open>
  The weather-parameter registry of the package \<open>chart\<close> (\<open>src/chart/parameters.go\<close>): the definitions
  and their aliases, the threshold bands and the classification of a value. A lookup lower-cases and
  trims the name; the Unicode tables are the parameter \<open>U\<close>.
\<close>

type_synonym Mark = string

definition MarkLine :: Mark where "MarkLine = ''line''"
definition MarkStep :: Mark where "MarkStep = ''step''"
definition MarkBand :: Mark where "MarkBand = ''band''"
definition MarkBar :: Mark where "MarkBar = ''bar''"

text \<open>The characters outside ASCII, in UTF-8.\<close>

definition degree_sign :: string where "degree_sign = [CHR 0xC2, CHR 0xB0]"
definition squared_sign :: string where "squared_sign = [CHR 0xC2, CHR 0xB2]"
definition le_sign :: string where "le_sign = [CHR 0xE2, CHR 0x89, CHR 0xA4]"
definition ge_sign :: string where "ge_sign = [CHR 0xE2, CHR 0x89, CHR 0xA5]"
definition en_dash :: string where "en_dash = [CHR 0xE2, CHR 0x80, CHR 0x93]"

record Break =
  br_At :: f64
  br_Status :: Status

record Thresholds =
  th_Inverted :: bool
  th_Breaks :: "Break list"
  th_Worst :: Status

record ParameterDef =
  pd_Key :: string
  pd_Label :: string
  pd_Unit :: string
  pd_Mark :: Mark
  pd_Decimals :: int
  pd_Zero :: bool
  pd_Thresholds :: "Thresholds option"

record Band =
  bd_From :: "f64 option"
  bd_To :: "f64 option"
  bd_Status :: Status
  bd_Label :: string
  bd_Color :: string

definition mk_break :: "rat \<Rightarrow> Status \<Rightarrow> Break" where "mk_break a s = \<lparr>br_At = Fin a, br_Status = s\<rparr>"

definition mk_def :: "string \<Rightarrow> string \<Rightarrow> string \<Rightarrow> Mark \<Rightarrow> int \<Rightarrow> bool \<Rightarrow> Thresholds option \<Rightarrow> string \<times> ParameterDef" where
  "mk_def key label unit mark decimals zero t =
     (key, \<lparr>pd_Key = key, pd_Label = label, pd_Unit = unit, pd_Mark = mark, pd_Decimals = decimals, pd_Zero = zero,
            pd_Thresholds = t\<rparr>)"

definition parameterDefs :: "(string \<times> ParameterDef) list" where
  "parameterDefs =
    [
     mk_def ''temperature_2m'' ''Temperature'' (degree_sign @ ''C'') [] 1 False
       (Some \<lparr>th_Inverted = False, th_Breaks = [mk_break 30 StatusGood, mk_break 35 StatusWarning], th_Worst = StatusCritical\<rparr>),
     mk_def ''dewpoint'' ''Dewpoint'' (degree_sign @ ''C'') [] 1 False
       (None),
     mk_def ''relative_humidity'' ''Relative humidity'' (''%'') [] 0 False
       (Some \<lparr>th_Inverted = False, th_Breaks = [mk_break 80 StatusGood, mk_break 95 StatusWarning], th_Worst = StatusCritical\<rparr>),
     mk_def ''wind_speed'' ''Wind speed'' (''m/s'') [] 1 True
       (Some \<lparr>th_Inverted = False, th_Breaks = [mk_break 10 StatusGood, mk_break 20 StatusWarning], th_Worst = StatusCritical\<rparr>),
     mk_def ''wind_gust'' ''Wind gust'' (''m/s'') [] 1 True
       (Some \<lparr>th_Inverted = False, th_Breaks = [mk_break 10 StatusGood, mk_break 20 StatusWarning], th_Worst = StatusCritical\<rparr>),
     mk_def ''wind_direction'' ''Wind direction'' (degree_sign) [] 0 False
       (None),
     mk_def ''surface_pressure'' ''Surface pressure'' (''hPa'') [] 1 False
       (None),
     mk_def ''mslp'' ''Pressure (MSL)'' (''hPa'') [] 1 False
       (None),
     mk_def ''precipitation'' ''Precipitation'' (''mm'') MarkBar 1 True
       (Some \<lparr>th_Inverted = False, th_Breaks = [mk_break 1 StatusGood, mk_break 5 StatusWarning], th_Worst = StatusCritical\<rparr>),
     mk_def ''precipitation_rate'' ''Precipitation rate'' (''mm/h'') MarkBar 1 True
       (None),
     mk_def ''solar_radiation'' ''Solar radiation'' (''W/m'' @ squared_sign) [] 0 True
       (None),
     mk_def ''evapotranspiration'' ''Reference evapotranspiration (ET0)'' (''mm/h'') MarkBar 2 True
       (None),
     mk_def ''uv_index'' ''UV index'' ('''') [] 1 True
       (None),
     mk_def ''visibility'' ''Visibility'' (''km'') [] 1 True
       (Some \<lparr>th_Inverted = True, th_Breaks = [mk_break 10 StatusGood, mk_break 5 StatusWarning], th_Worst = StatusCritical\<rparr>),
     mk_def ''cloud_base'' ''Cloud base'' (''m'') [] 0 True
       (Some \<lparr>th_Inverted = True, th_Breaks = [mk_break 1000 StatusGood, mk_break 500 StatusWarning], th_Worst = StatusCritical\<rparr>),
     mk_def ''icing_risk'' ''Icing risk'' (''%'') [] 0 True
       (Some \<lparr>th_Inverted = False, th_Breaks = [mk_break 20 StatusGood, mk_break 50 StatusWarning], th_Worst = StatusCritical\<rparr>),
     mk_def ''pressure_difference'' ''Pressure difference'' (''hPa'') [] 1 False
       (None)]"

definition parameterAliases :: "(string \<times> string) list" where
  "parameterAliases =
    [
     (''2m_t'', ''temperature_2m''),
     (''t_2m'', ''temperature_2m''),
     (''temp'', ''temperature_2m''),
     (''temperature'', ''temperature_2m''),
     (''2m_dewpoint'', ''dewpoint''),
     (''dew_point'', ''dewpoint''),
     (''2m_rel_humidity'', ''relative_humidity''),
     (''relative_humidity_2m'', ''relative_humidity''),
     (''humidity'', ''relative_humidity''),
     (''10m_wind_speed'', ''wind_speed''),
     (''wind_speed_10m'', ''wind_speed''),
     (''windspeed'', ''wind_speed''),
     (''10m_wind_gust'', ''wind_gust''),
     (''wind_gusts_10m'', ''wind_gust''),
     (''10m_wind_direction'', ''wind_direction''),
     (''wind_direction_10m'', ''wind_direction''),
     (''winddirection'', ''wind_direction''),
     (''wind_dir'', ''wind_direction''),
     (''pressure'', ''surface_pressure''),
     (''pressure_msl'', ''mslp''),
     (''sea_level_pressure'', ''mslp''),
     (''precip'', ''precipitation''),
     (''total_precipitation'', ''precipitation''),
     (''rain'', ''precipitation''),
     (''precip_rate'', ''precipitation_rate''),
     (''rain_rate'', ''precipitation_rate''),
     (''solar'', ''solar_radiation''),
     (''shortwave_radiation'', ''solar_radiation''),
     (''et0'', ''evapotranspiration''),
     (''et0_fao_evapotranspiration'', ''evapotranspiration''),
     (''hourly_precipitation'', ''precipitation_rate''),
     (''uv'', ''uv_index''),
     (''vis'', ''visibility''),
     (''ceiling'', ''cloud_base''),
     (''delta_p'', ''pressure_difference''),
     (''dp'', ''pressure_difference'')]"

definition Parameter :: "unicode \<Rightarrow> string \<Rightarrow> ParameterDef option" where
  "Parameter U name =
     (let key = to_lower U (trim_space U name) in
      if key = [] then None
      else map_of parameterDefs (case map_of parameterAliases key of Some canonical \<Rightarrow> canonical | None \<Rightarrow> key))"

subsection \<open>Classification\<close>

fun classify_breaks :: "bool \<Rightarrow> Break list \<Rightarrow> Status \<Rightarrow> f64 \<Rightarrow> Status" where
  "classify_breaks inverted [] worst v = worst"
| "classify_breaks inverted (b # bs) worst v =
     (if inverted then (if fge v (br_At b) then br_Status b else classify_breaks inverted bs worst v)
      else if fle v (br_At b) then br_Status b else classify_breaks inverted bs worst v)"

definition Thresholds_Classify :: "Thresholds \<Rightarrow> f64 \<Rightarrow> Status" where
  "Thresholds_Classify t v = classify_breaks (th_Inverted t) (th_Breaks t) (th_Worst t) v"

definition Classify :: "unicode \<Rightarrow> string \<Rightarrow> f64 \<Rightarrow> Status" where
  "Classify U parameter v =
     (case Parameter U parameter of None \<Rightarrow> StatusNone
      | Some d \<Rightarrow> (case pd_Thresholds d of None \<Rightarrow> StatusNone | Some t \<Rightarrow> Thresholds_Classify t v))"

subsection \<open>Bands\<close>

definition formatValue :: "(f64 \<Rightarrow> string) \<Rightarrow> f64 \<Rightarrow> int \<Rightarrow> string" where
  "formatValue sh v decimals = FormatFloat_f sh v decimals"

definition status_word :: "Status \<Rightarrow> string" where
  "status_word s = (case map_of [(StatusGood, ''ok''), (StatusWarning, ''caution''), (StatusSerious, ''poor''),
      (StatusCritical, ''unfavourable''), (StatusNone, ''unclassified'')] s of Some w \<Rightarrow> w | None \<Rightarrow> [])"

definition statusLabel :: "(f64 \<Rightarrow> string) \<Rightarrow> Status \<Rightarrow> ParameterDef \<Rightarrow> f64 \<Rightarrow> f64 \<Rightarrow> string" where
  "statusLabel sh s d from to =
     (let unit = (if pd_Unit d \<noteq> [] then '' '' @ pd_Unit d else pd_Unit d) in
      if (case pd_Thresholds d of None \<Rightarrow> False | Some t \<Rightarrow> th_Inverted t)
      then status_word s @ '' '' @ le_sign @ '' '' @ formatValue sh to (pd_Decimals d) @ unit
      else status_word s @ '' '' @ ge_sign @ '' '' @ formatValue sh from (pd_Decimals d) @ unit)"

text \<open>The loop over consecutive breaks, then the open-ended worst band.\<close>

fun inner_bands :: "(f64 \<Rightarrow> string) \<Rightarrow> ParameterDef \<Rightarrow> bool \<Rightarrow> Break list \<Rightarrow> Band list" where
  "inner_bands sh d inverted (a # b # bs) =
     (let from = (if inverted then br_At b else br_At a); to = (if inverted then br_At a else br_At b) in
      \<lparr>bd_From = Some from, bd_To = Some to, bd_Status = br_Status b, bd_Label = statusLabel sh (br_Status b) d from to,
       bd_Color = []\<rparr> # inner_bands sh d inverted (b # bs))"
| "inner_bands sh d inverted _ = []"

definition worst_band :: "(f64 \<Rightarrow> string) \<Rightarrow> ParameterDef \<Rightarrow> Thresholds \<Rightarrow> Band" where
  "worst_band sh d t =
     (let lst = br_At (last (th_Breaks t)) in
      \<lparr>bd_From = (if th_Inverted t then None else Some lst), bd_To = (if th_Inverted t then Some lst else None),
       bd_Status = th_Worst t, bd_Label = statusLabel sh (th_Worst t) d lst lst, bd_Color = []\<rparr>)"

definition BandsFor :: "unicode \<Rightarrow> (f64 \<Rightarrow> string) \<Rightarrow> string \<Rightarrow> Band list" where
  "BandsFor U sh parameter =
     (case Parameter U parameter of None \<Rightarrow> []
      | Some d \<Rightarrow> (case pd_Thresholds d of None \<Rightarrow> []
          | Some t \<Rightarrow> if th_Breaks t = [] then []
              else inner_bands sh d (th_Inverted t) (th_Breaks t) @ [worst_band sh d t]))"

subsection \<open>Labels\<close>

definition FormatValue :: "unicode \<Rightarrow> (f64 \<Rightarrow> string) \<Rightarrow> string \<Rightarrow> f64 \<Rightarrow> string" where
  "FormatValue U sh parameter v =
     (case Parameter U parameter of None \<Rightarrow> formatValue sh v 1 | Some d \<Rightarrow> formatValue sh v (pd_Decimals d))"

definition ParameterLabel :: "unicode \<Rightarrow> string \<Rightarrow> string" where
  "ParameterLabel U parameter = (case Parameter U parameter of Some d \<Rightarrow> pd_Label d | None \<Rightarrow> parameter)"

subsection \<open>Facts about the registry\<close>

text \<open>The breaks ascend, or descend for an inverted parameter, from the comfortable class to worse ones.\<close>

definition breaks_ordered :: "bool \<Rightarrow> Break list \<Rightarrow> bool" where
  "breaks_ordered inverted bs \<longleftrightarrow> list_all (\<lambda>b. finite64 (br_At b)) bs
     \<and> sorted_wrt (\<lambda>a b. if inverted then flt (br_At b) (br_At a) else flt (br_At a) (br_At b)) bs"

definition thresholds_ok :: "Thresholds \<Rightarrow> bool" where
  "thresholds_ok t \<longleftrightarrow> th_Breaks t \<noteq> [] \<and> breaks_ordered (th_Inverted t) (th_Breaks t) \<and> br_Status (hd (th_Breaks t)) = StatusGood
     \<and> sorted_wrt (\<lambda>a b. Severity a < Severity b) (List.map br_Status (th_Breaks t) @ [th_Worst t])
     \<and> list_all (\<lambda>s. Status_validate s = None \<and> status_word s \<noteq> []) (List.map br_Status (th_Breaks t) @ [th_Worst t])"

definition def_ok :: "string \<times> ParameterDef \<Rightarrow> bool" where
  "def_ok kd \<longleftrightarrow> (case kd of (k, d) \<Rightarrow> pd_Key d = k \<and> pd_Label d \<noteq> [] \<and> (pd_Mark d = [] \<or> pd_Mark d = MarkBar)
     \<and> 0 \<le> pd_Decimals d \<and> pd_Decimals d \<le> 2 \<and> (case pd_Thresholds d of None \<Rightarrow> True | Some t \<Rightarrow> thresholds_ok t))"

lemma registry_ok: "list_all def_ok parameterDefs" "distinct (List.map fst parameterDefs)"
  by code_simp+

text \<open>Every alias names a definition, and no alias hides one.\<close>

lemma aliases_ok:
  "list_all (\<lambda>(a, c). map_of parameterDefs c \<noteq> None \<and> map_of parameterDefs a = None) parameterAliases"
  "distinct (List.map fst parameterAliases)"
  by code_simp+

lemma Parameter_ok: "Parameter U name = Some d \<Longrightarrow> def_ok (pd_Key d, d)"
proof -
  assume "Parameter U name = Some d"
  then obtain k where "map_of parameterDefs k = Some d" by (auto simp: Parameter_def Let_def split: if_splits)
  then have "def_ok (k, d)" using registry_ok(1) by (auto simp: list_all_iff dest: map_of_SomeD)
  then show ?thesis by (simp add: def_ok_def)
qed

lemma Parameter_thresholds: "Parameter U name = Some d \<Longrightarrow> pd_Thresholds d = Some t \<Longrightarrow> thresholds_ok t"
  using Parameter_ok[of U name d] by (simp add: def_ok_def)

subsection \<open>Bands and classes agree\<close>

text \<open>The values a band stands for: it does not contain the end on its comfortable side.\<close>

definition in_band :: "bool \<Rightarrow> f64 \<Rightarrow> Band \<Rightarrow> bool" where
  "in_band inverted v b \<longleftrightarrow>
     (case bd_From b of None \<Rightarrow> True | Some f \<Rightarrow> if inverted then fle f v else flt f v) \<and>
     (case bd_To b of None \<Rightarrow> True | Some t \<Rightarrow> if inverted then flt v t else fle v t)"

definition reaches :: "bool \<Rightarrow> f64 \<Rightarrow> Break \<Rightarrow> bool" where
  "reaches inverted v b \<longleftrightarrow> (if inverted then fge v (br_At b) else fle v (br_At b))"

lemma not_reaches:
  "v \<noteq> NaN \<Longrightarrow> finite64 (br_At b) \<Longrightarrow> \<not> reaches inverted v b \<longleftrightarrow> (if inverted then flt v (br_At b) else flt (br_At b) v)"
  by (cases v; cases "br_At b") (auto simp: reaches_def fle_def flt_def feq_def is_inf_def)

lemma reaches_later:
  "finite64 (br_At a) \<Longrightarrow> finite64 (br_At b) \<Longrightarrow> (if inverted then flt (br_At b) (br_At a) else flt (br_At a) (br_At b))
     \<Longrightarrow> reaches inverted v a \<Longrightarrow> reaches inverted v b"
  by (cases v; cases "br_At a"; cases "br_At b") (auto simp: reaches_def fle_def flt_def feq_def is_inf_def split: if_splits)

lemma classify_reaches: "classify_breaks inverted (b # bs) worst v = (if reaches inverted v b then br_Status b else classify_breaks inverted bs worst v)"
  by (simp add: reaches_def)

lemma in_inner_band:
  assumes "v \<noteq> NaN" "finite64 (br_At a)" "finite64 (br_At b)"
    and "bd_From x = Some (if inverted then br_At b else br_At a)" "bd_To x = Some (if inverted then br_At a else br_At b)"
  shows "in_band inverted v x \<longleftrightarrow> \<not> reaches inverted v a \<and> reaches inverted v b"
  unfolding not_reaches[OF assms(1,2)] using assms(4,5) by (auto simp: in_band_def reaches_def)

lemma in_worst_band:
  "v \<noteq> NaN \<Longrightarrow> th_Breaks t \<noteq> [] \<Longrightarrow> finite64 (br_At (last (th_Breaks t))) \<Longrightarrow>
     in_band (th_Inverted t) v (worst_band sh d t) \<longleftrightarrow> \<not> reaches (th_Inverted t) v (last (th_Breaks t))"
  by (simp add: not_reaches in_band_def worst_band_def Let_def)

lemma filter_bands:
  assumes "v \<noteq> NaN" "breaks_ordered inverted (a # bs)"
    and "in_band inverted v w \<longleftrightarrow> \<not> reaches inverted v (last (a # bs))" and "bd_Status w = worst"
  shows "(reaches inverted v a \<longrightarrow> filter (in_band inverted v) (inner_bands sh d inverted (a # bs) @ [w]) = [])
    \<and> (\<not> reaches inverted v a \<longrightarrow> (\<exists>x. filter (in_band inverted v) (inner_bands sh d inverted (a # bs) @ [w]) = [x]
         \<and> bd_Status x = classify_breaks inverted bs worst v))"
  using assms(2,3)
proof (induction bs arbitrary: a)
  case Nil
  then show ?case using assms(4) by simp
next
  case (Cons b bs)
  have fin: "finite64 (br_At a)" "finite64 (br_At b)"
    and less: "if inverted then flt (br_At b) (br_At a) else flt (br_At a) (br_At b)"
    and ord: "breaks_ordered inverted (b # bs)"
    using Cons.prems(1) by (auto simp: breaks_ordered_def)
  have "in_band inverted v w \<longleftrightarrow> \<not> reaches inverted v (last (b # bs))" using Cons.prems(2) by simp
  note ih = Cons.IH[OF ord this]
  define x where "x = hd (inner_bands sh d inverted (a # b # bs))"
  have x: "inner_bands sh d inverted (a # b # bs) = x # inner_bands sh d inverted (b # bs)" "bd_Status x = br_Status b"
    "in_band inverted v x \<longleftrightarrow> \<not> reaches inverted v a \<and> reaches inverted v b"
    using in_inner_band[OF assms(1) fin, of x inverted] by (simp_all add: x_def Let_def)
  show ?case
  proof (cases "reaches inverted v b")
    case True
    then have "filter (in_band inverted v) (inner_bands sh d inverted (b # bs) @ [w]) = []" using ih by blast
    then show ?thesis unfolding x(1) append_Cons filter.simps x(3) using True x(2)
      by (cases "reaches inverted v a") (simp_all only: classify_reaches if_True simp_thms if_False, blast)
  next
    case False
    then have "\<not> reaches inverted v a" using reaches_later[OF fin less] by blast
    then show ?thesis unfolding x(1) append_Cons filter.simps x(3) using False ih
      by (simp only: classify_reaches if_False simp_thms)
  qed
qed

lemma statusLabel_nonempty: "status_word s \<noteq> [] \<Longrightarrow> statusLabel sh s d f g \<noteq> []"
  by (simp add: statusLabel_def Let_def)

lemma inner_bands_status:
  "b \<in> set (inner_bands sh d inverted bs) \<Longrightarrow> bd_Status b \<in> set (List.map br_Status (tl bs))
     \<and> (status_word (bd_Status b) \<noteq> [] \<longrightarrow> bd_Label b \<noteq> [])"
  by (induction sh d inverted bs rule: inner_bands.induct) (auto simp: Let_def statusLabel_nonempty)

text \<open>A band of the registry passes the checks of \<open>Validate\<close>.\<close>

lemma BandsFor_ok: "b \<in> set (BandsFor U sh name) \<Longrightarrow> Status_validate (bd_Status b) = None \<and> bd_Label b \<noteq> []"
proof -
  assume b: "b \<in> set (BandsFor U sh name)"
  then obtain d t where d: "Parameter U name = Some d" "pd_Thresholds d = Some t" "th_Breaks t \<noteq> []"
    "b \<in> set (inner_bands sh d (th_Inverted t) (th_Breaks t)) \<or> b = worst_band sh d t"
    using that b by (cases "Parameter U name"; cases "pd_Thresholds (the (Parameter U name))")
      (auto simp: BandsFor_def split: if_splits)
  have ok: "s \<in> set (List.map br_Status (th_Breaks t) @ [th_Worst t]) \<Longrightarrow> Status_validate s = None \<and> status_word s \<noteq> []" for s
    using Parameter_thresholds[OF d(1,2)] unfolding thresholds_ok_def list_all_iff by blast
  from d(4) show ?thesis
  proof
    assume "b \<in> set (inner_bands sh d (th_Inverted t) (th_Breaks t))"
    note x = inner_bands_status[OF this]
    have "bd_Status b \<in> set (List.map br_Status (th_Breaks t) @ [th_Worst t])" using x by (auto dest: list.set_sel(2)[OF d(3)])
    then show ?thesis using ok[of "bd_Status b"] x by blast
  next
    assume "b = worst_band sh d t"
    then show ?thesis using ok[of "th_Worst t"] by (simp add: worst_band_def Let_def statusLabel_nonempty)
  qed
qed

text \<open>The further a value lies on the bad side, the more severe its class.\<close>

lemma classify_severity:
  assumes "sorted_wrt (\<lambda>a b. Severity a < Severity b) (List.map br_Status bs @ [worst])"
    and "v \<noteq> NaN" "if inverted then fle w v else fle v w"
  shows "Severity (classify_breaks inverted bs worst v) \<le> Severity (classify_breaks inverted bs worst w)"
  using assms(1)
proof (induction bs)
  case (Cons b bs)
  have mono: "reaches inverted w b \<Longrightarrow> reaches inverted v b"
    using assms(2,3) by (cases v; cases w; cases "br_At b") (auto simp: reaches_def fle_def flt_def feq_def is_inf_def split: if_splits)
  have "classify_breaks inverted bs worst w \<in> set (List.map br_Status bs @ [worst])" by (induction bs) auto
  then have "Severity (br_Status b) < Severity (classify_breaks inverted bs worst w)" using Cons.prems by auto
  then show ?case using Cons mono by (simp only: classify_reaches) auto
qed simp

text \<open>C30. What is shaded is what is classified: for every value other than NaN of a parameter with
  thresholds, the bands drawn behind the marks that contain the value are none if it is classified as
  good, and otherwise exactly one, whose status is the class of the value and whose label is not empty;
  and the class gets no milder as the value moves to the bad side.\<close>

theorem bands_match_Classify:
  assumes "Parameter U name = Some d" "pd_Thresholds d = Some t" "v \<noteq> NaN"
  shows "(Classify U name v = StatusGood \<longleftrightarrow> filter (in_band (th_Inverted t) v) (BandsFor U sh name) = [])
    \<and> (Classify U name v \<noteq> StatusGood \<longrightarrow> (\<exists>b. filter (in_band (th_Inverted t) v) (BandsFor U sh name) = [b]
         \<and> bd_Status b = Classify U name v \<and> bd_Label b \<noteq> []))
    \<and> ((if th_Inverted t then fle w v else fle v w) \<longrightarrow> Severity (Classify U name v) \<le> Severity (Classify U name w))"
proof -
  obtain a bs where bs: "th_Breaks t = a # bs" "breaks_ordered (th_Inverted t) (a # bs)" "br_Status a = StatusGood"
    "sorted_wrt (\<lambda>a b. Severity a < Severity b) (List.map br_Status (a # bs) @ [th_Worst t])"
    using Parameter_thresholds[OF assms(1,2)] by (cases "th_Breaks t") (auto simp: thresholds_ok_def)
  have fin: "finite64 (br_At (last (th_Breaks t)))"
    using bs(1,2) by (simp add: breaks_ordered_def list_all_iff)
  have cls: "Classify U name x = classify_breaks (th_Inverted t) (a # bs) (th_Worst t) x" for x
    by (simp add: Classify_def Thresholds_Classify_def assms(1,2) bs(1))
  have bands: "BandsFor U sh name = inner_bands sh d (th_Inverted t) (a # bs) @ [worst_band sh d t]"
    by (simp add: BandsFor_def assms(1,2) bs(1))
  have w: "in_band (th_Inverted t) v (worst_band sh d t) \<longleftrightarrow> \<not> reaches (th_Inverted t) v (last (a # bs))"
    "bd_Status (worst_band sh d t) = th_Worst t"
    using in_worst_band[OF assms(3) _ fin] bs(1) by (simp_all add: worst_band_def Let_def)
  note fb = filter_bands[OF assms(3) bs(2) w, of sh d]
  have later: "classify_breaks (th_Inverted t) bs (th_Worst t) x \<noteq> StatusGood" for x
  proof -
    have "classify_breaks (th_Inverted t) bs (th_Worst t) x \<in> set (List.map br_Status bs @ [th_Worst t])" by (induction bs) auto
    then have "Severity StatusGood < Severity (classify_breaks (th_Inverted t) bs (th_Worst t) x)" using bs(3,4) by auto
    then show ?thesis by auto
  qed
  have label: "b \<in> set (BandsFor U sh name) \<Longrightarrow> bd_Label b \<noteq> []" for b
    using BandsFor_ok by blast
  show ?thesis
  proof (intro conjI impI)
    show "Classify U name v = StatusGood \<longleftrightarrow> filter (in_band (th_Inverted t) v) (BandsFor U sh name) = []"
      unfolding cls bands classify_reaches using fb later bs(3) by (cases "reaches (th_Inverted t) v a") auto
    show "\<exists>b. filter (in_band (th_Inverted t) v) (BandsFor U sh name) = [b] \<and> bd_Status b = Classify U name v \<and> bd_Label b \<noteq> []"
      if "Classify U name v \<noteq> StatusGood"
    proof -
      have n: "\<not> reaches (th_Inverted t) v a" using that bs(3) unfolding cls classify_reaches by auto
      then obtain b where b: "filter (in_band (th_Inverted t) v) (BandsFor U sh name) = [b]"
        "bd_Status b = classify_breaks (th_Inverted t) bs (th_Worst t) v"
        using fb unfolding bands by blast
      have "b \<in> set (BandsFor U sh name)" using b(1) by (metis filter_is_subset list.set_intros(1) subsetD)
      then show ?thesis using b n label unfolding cls classify_reaches by auto
    qed
    show "Severity (Classify U name v) \<le> Severity (Classify U name w)" if "if th_Inverted t then fle w v else fle v w"
      unfolding cls by (rule classify_severity[OF bs(4) assms(3) that])
  qed
qed

theorem bands_match_Classify_witness:
  "\<exists>b. filter (in_band False (Fin 12)) (BandsFor ascii_only (\<lambda>_. []) ''Wind_Dir'') = []
     \<and> Classify ascii_only '' WindSpeed'' (Fin 12) = StatusWarning
     \<and> filter (in_band False (Fin 12)) (BandsFor ascii_only (\<lambda>_. []) '' WindSpeed'') = [b] \<and> bd_Status b = StatusWarning"
proof -
  have "case Parameter ascii_only '' WindSpeed'' of None \<Rightarrow> False
      | Some d \<Rightarrow> (case pd_Thresholds d of None \<Rightarrow> False | Some t \<Rightarrow> \<not> th_Inverted t)" by code_simp
  then obtain d t where d: "Parameter ascii_only '' WindSpeed'' = Some d" "pd_Thresholds d = Some t" "th_Inverted t = False"
    by (auto split: option.splits)
  have p:
    "Classify ascii_only '' WindSpeed'' (Fin 12) = StatusWarning"
    "BandsFor ascii_only (\<lambda>_. []) ''Wind_Dir'' = []"
    by code_simp+
  show ?thesis
    using bands_match_Classify[OF d(1,2), of "Fin 12" "\<lambda>_. []"] p d(3) by (auto simp: status_defs)
qed

end
