(* ===== verification/ChartSpec.thy ===== *)
theory ChartSpec
  imports ChartParameters
begin

text \<open>
  The specification of a chart (\<open>src/chart/spec.go\<close>, the options of \<open>windrose.go\<close>) and its validation:
  the first structural problem, or none. A pointer is an option; the map of a palette and the slices
  are values, since nothing in the package writes through a shared one.
\<close>

type_synonym chart_Kind = string

definition KindTimeSeries :: chart_Kind where "KindTimeSeries = ''timeseries''"
definition KindMeteogram :: chart_Kind where "KindMeteogram = ''meteogram''"
definition KindWindrose :: chart_Kind where "KindWindrose = ''windrose''"

lemmas kind_defs = KindTimeSeries_def KindMeteogram_def KindWindrose_def

record Point =
  pt_Time :: gotime
  pt_Value :: "f64 option"
  pt_Low :: "f64 option"
  pt_High :: "f64 option"
  pt_Direction :: "f64 option"

record Series =
  se_Name :: string
  se_Parameter :: string
  se_Mark :: Mark
  se_Unit :: string
  se_Slot :: int
  se_Color :: string
  se_Points :: "Point list"

record Tick =
  tk_Value :: f64
  tk_Label :: string
  tk_Time :: "gotime option"

record Axis =
  ax_Label :: string
  ax_Unit :: string
  ax_Min :: "f64 option"
  ax_Max :: "f64 option"
  ax_Ticks :: "Tick list"
  ax_Zero :: bool

record Panel =
  pa_Title :: string
  pa_Series :: "Series list"
  pa_Y :: Axis
  pa_Bands :: "Band list"
  pa_ShowThresholds :: bool
  pa_Weight :: f64

record RoseBin =
  rb_Sector :: int
  rb_Band :: int
  rb_Count :: int
  rb_Fraction :: f64

record WindroseOptions =
  wo_Sectors :: int
  wo_SpeedBands :: "f64 list"
  wo_CalmBelow :: f64
  wo_Bins :: "RoseBin list"
  wo_BandLabels :: "string list"
  wo_BandColors :: "string list"
  wo_Rings :: "Tick list"
  wo_CalmFraction :: f64
  wo_Total :: int
  wo_MaxFraction :: f64

record Spec =
  sp_Kind :: chart_Kind
  sp_Title :: string
  sp_Subtitle :: string
  sp_Mode :: Mode
  sp_Width :: int
  sp_Height :: int
  sp_Panels :: "Panel list"
  sp_X :: Axis
  sp_Windrose :: "WindroseOptions option"
  sp_Source :: string
  sp_Generated :: "gotime option"
  sp_Palette :: "ResolvedPalette option"

definition DefaultWidth :: int where "DefaultWidth = 800"
definition DefaultHeight :: int where "DefaultHeight = 600"
definition minWidth :: int where "minWidth = 240"
definition minHeight :: int where "minHeight = 160"
definition maxWidth :: int where "maxWidth = 4096"
definition maxHeight :: int where "maxHeight = 4096"

lemmas size_defs = DefaultWidth_def DefaultHeight_def minWidth_def minHeight_def maxWidth_def maxHeight_def

subsection \<open>Effective unit and mark\<close>

definition EffectiveUnit :: "unicode \<Rightarrow> Series \<Rightarrow> string" where
  "EffectiveUnit U s =
     (if se_Unit s \<noteq> [] then se_Unit s
      else case Parameter U (se_Parameter s) of Some p \<Rightarrow> pd_Unit p | None \<Rightarrow> [])"

definition EffectiveMark :: "unicode \<Rightarrow> Series \<Rightarrow> Mark" where
  "EffectiveMark U s =
     (if se_Mark s \<noteq> [] then se_Mark s
      else case Parameter U (se_Parameter s) of
          Some p \<Rightarrow> if pd_Mark p \<noteq> [] then pd_Mark p else MarkLine
        | None \<Rightarrow> MarkLine)"

subsection \<open>Validation\<close>

datatype spec_error =
    KindRequired | UnknownKind string | UnknownMode string | ErrEmptySpec | TooManyPanels string nat
  | BadWidth int | BadHeight int | NoSeries nat | NoName nat nat | BadSlot nat string int | BadMark nat string string
  | MixedUnits nat string string | NoTime nat string nat | NotSorted nat string | NotFinite nat string nat
  | LowAboveHigh nat string nat | BandNoLabel nat nat | BandStatus nat nat status_error | TooManySeries nat
  | RoseSeries | RoseSectors int | RoseAscend | RosePositive | RoseNoPoint

definition not_finite_ptr :: "f64 option \<Rightarrow> bool" where
  "not_finite_ptr p \<longleftrightarrow> (case p of None \<Rightarrow> False | Some v \<Rightarrow> v = NaN \<or> is_inf v)"

fun validate_points :: "nat \<Rightarrow> Series \<Rightarrow> nat \<Rightarrow> gotime option \<Rightarrow> Point list \<Rightarrow> spec_error option" where
  "validate_points idx ser k prev [] = None"
| "validate_points idx ser k prev (pt # pts) =
     (if t_ns (pt_Time pt) = t_ns zero_time then Some (NoTime idx (se_Name ser) k)
      else if (case prev of None \<Rightarrow> False | Some u \<Rightarrow> t_ns (pt_Time pt) < t_ns u) then Some (NotSorted idx (se_Name ser))
      else if list_ex not_finite_ptr [pt_Value pt, pt_Low pt, pt_High pt, pt_Direction pt]
        then Some (NotFinite idx (se_Name ser) k)
      else if se_Mark ser = MarkBand \<and> pt_Low pt \<noteq> None \<and> pt_High pt \<noteq> None \<and> fgt (the (pt_Low pt)) (the (pt_High pt))
        then Some (LowAboveHigh idx (se_Name ser) k)
      else validate_points idx ser (Suc k) (Some (pt_Time pt)) pts)"

definition chart_validatePoints :: "nat \<Rightarrow> Series \<Rightarrow> spec_error option" where
  "chart_validatePoints idx ser = validate_points idx ser 0 None (se_Points ser)"

definition validate_series :: "unicode \<Rightarrow> nat \<Rightarrow> nat \<Rightarrow> string option \<Rightarrow> Series \<Rightarrow> spec_error option" where
  "validate_series U idx j unit ser =
     (if se_Name ser = [] then Some (NoName idx j)
      else if se_Slot ser < 0 \<or> se_Slot ser > maxSeries then Some (BadSlot idx (se_Name ser) (se_Slot ser))
      else if se_Mark ser \<notin> {MarkLine, MarkStep, MarkBand, MarkBar, []} then Some (BadMark idx (se_Name ser) (se_Mark ser))
      else if unit \<noteq> None \<and> EffectiveUnit U ser \<noteq> the unit then Some (MixedUnits idx (the unit) (EffectiveUnit U ser))
      else chart_validatePoints idx ser)"

fun validate_all_series :: "unicode \<Rightarrow> nat \<Rightarrow> nat \<Rightarrow> string option \<Rightarrow> Series list \<Rightarrow> spec_error option" where
  "validate_all_series U idx j unit [] = None"
| "validate_all_series U idx j unit (ser # sers) =
     (case validate_series U idx j unit ser of
        Some e \<Rightarrow> Some e
      | None \<Rightarrow> validate_all_series U idx (Suc j) (case unit of None \<Rightarrow> Some (EffectiveUnit U ser) | Some u \<Rightarrow> Some u) sers)"

fun validate_bands :: "nat \<Rightarrow> nat \<Rightarrow> Band list \<Rightarrow> spec_error option" where
  "validate_bands idx j [] = None"
| "validate_bands idx j (b # bs) =
     (if bd_Label b = [] then Some (BandNoLabel idx j)
      else (case Status_validate (bd_Status b) of Some e \<Rightarrow> Some (BandStatus idx j e) | None \<Rightarrow> validate_bands idx (Suc j) bs))"

definition validatePanel :: "unicode \<Rightarrow> nat \<Rightarrow> Panel \<Rightarrow> spec_error option" where
  "validatePanel U idx p =
     (case validate_all_series U idx 0 None (pa_Series p) of
        Some e \<Rightarrow> Some e | None \<Rightarrow> validate_bands idx 0 (pa_Bands p))"

fun validate_panels :: "unicode \<Rightarrow> nat \<Rightarrow> Panel list \<Rightarrow> spec_error option" where
  "validate_panels U i [] = None"
| "validate_panels U i (p # ps) =
     (if pa_Series p = [] then Some (NoSeries i)
      else (case validatePanel U i p of Some e \<Rightarrow> Some e | None \<Rightarrow> validate_panels U (Suc i) ps))"

definition total_series :: "Panel list \<Rightarrow> nat" where
  "total_series ps = sum_list (List.map (\<lambda>p. length (pa_Series p)) ps)"

definition validateSize :: "Spec \<Rightarrow> spec_error option" where
  "validateSize s =
     (if sp_Width s \<noteq> 0 \<and> (sp_Width s < minWidth \<or> sp_Width s > maxWidth) then Some (BadWidth (sp_Width s))
      else if sp_Height s \<noteq> 0 \<and> (sp_Height s < minHeight \<or> sp_Height s > maxHeight) then Some (BadHeight (sp_Height s))
      else None)"

subsection \<open>Wind roses\<close>

definition no_options :: WindroseOptions where
  "no_options = \<lparr>wo_Sectors = 0, wo_SpeedBands = [], wo_CalmBelow = Fin 0, wo_Bins = [], wo_BandLabels = [],
     wo_BandColors = [], wo_Rings = [], wo_CalmFraction = Fin 0, wo_Total = 0, wo_MaxFraction = Fin 0\<rparr>"

fun bands_ascend :: "f64 list \<Rightarrow> bool" where
  "bands_ascend (a # b # bs) = (\<not> fle b a \<and> bands_ascend (b # bs))"
| "bands_ascend _ = True"

definition has_reading :: "Point \<Rightarrow> bool" where
  "has_reading pt \<longleftrightarrow> pt_Direction pt \<noteq> None \<and> pt_Value pt \<noteq> None"

definition validateWindroseSpec :: "Spec \<Rightarrow> spec_error option" where
  "validateWindroseSpec s =
     (case sp_Panels s of
        [p] \<Rightarrow> (case pa_Series p of
            [ser] \<Rightarrow>
              (let opts = (case sp_Windrose s of None \<Rightarrow> no_options | Some w \<Rightarrow> w); n = wo_Sectors opts in
               if n \<noteq> 0 \<and> (n < 4 \<or> n > 72 \<or> 360 mod n \<noteq> 0) then Some (RoseSectors n)
               else if \<not> bands_ascend (wo_SpeedBands opts) then Some RoseAscend
               else if wo_SpeedBands opts \<noteq> [] \<and> fle (hd (wo_SpeedBands opts)) (Fin 0) then Some RosePositive
               else if list_ex has_reading (se_Points ser) then None
               else Some RoseNoPoint)
          | _ \<Rightarrow> Some RoseSeries)
      | _ \<Rightarrow> Some RoseSeries)"

definition Validate_spec :: "unicode \<Rightarrow> Spec \<Rightarrow> spec_error option" where
  "Validate_spec U s =
     (if sp_Kind s \<notin> {KindTimeSeries, KindMeteogram, KindWindrose}
        then Some (if sp_Kind s = [] then KindRequired else UnknownKind (sp_Kind s))
      else if sp_Mode s \<notin> {ModeLight, ModeDark, []} then Some (UnknownMode (sp_Mode s))
      else if sp_Panels s = [] then Some ErrEmptySpec
      else if sp_Kind s \<noteq> KindMeteogram \<and> length (sp_Panels s) > 1 then Some (TooManyPanels (sp_Kind s) (length (sp_Panels s)))
      else (case validateSize s of
          Some e \<Rightarrow> Some e
        | None \<Rightarrow> (case validate_panels U 0 (sp_Panels s) of
              Some e \<Rightarrow> Some e
            | None \<Rightarrow> if int (total_series (sp_Panels s)) > maxSeries then Some (TooManySeries (total_series (sp_Panels s)))
                else if sp_Kind s = KindWindrose then validateWindroseSpec s
                else None)))"

end
