(* ===== verification/ChartScale.thy ===== *)
theory ChartScale
  imports ChartSpec
begin

text \<open>
  Scales, domains and ticks of a chart (\<open>src/chart/scale.go\<close>). \<open>math.Log10\<close>, \<open>math.Pow\<close>, \<open>math.Sin\<close>,
  \<open>math.Cos\<close> and the shortest form of a number are not determined by their documentation: they are
  fields of \<open>chart_libs\<close>, with the Unicode tables, the local time zone and the conversion of
  out-of-range numbers to integers.
\<close>

record chart_libs =
  cl_unicode :: unicode
  cl_shortest :: "f64 \<Rightarrow> string"
  cl_log10 :: "f64 \<Rightarrow> f64"
  cl_pow :: "f64 \<Rightarrow> f64 \<Rightarrow> f64"
  cl_sin :: "f64 \<Rightarrow> f64"
  cl_cos :: "f64 \<Rightarrow> f64"
  cl_oob :: "f64 \<Rightarrow> int"
  cl_zone :: local_zone

subsection \<open>Scales\<close>

record linearScale =
  ls_d0 :: f64
  ls_d1 :: f64
  ls_r0 :: f64
  ls_r1 :: f64

definition linear_at :: "linearScale \<Rightarrow> f64 \<Rightarrow> f64" where
  "linear_at s v =
     (if feq (ls_d1 s) (ls_d0 s) then fdiv (fadd (ls_r0 s) (ls_r1 s)) (Fin 2)
      else fadd (ls_r0 s) (fmul (fdiv (fsub v (ls_d0 s)) (fsub (ls_d1 s) (ls_d0 s))) (fsub (ls_r1 s) (ls_r0 s))))"

record timeScale =
  ts_t0 :: gotime
  ts_t1 :: gotime
  ts_r0 :: f64
  ts_r1 :: f64

definition time_at :: "timeScale \<Rightarrow> gotime \<Rightarrow> f64" where
  "time_at s t =
     (let spn = time_sub (ts_t1 s) (ts_t0 s) in
      if spn \<le> 0 then fdiv (fadd (ts_r0 s) (ts_r1 s)) (Fin 2)
      else fadd (ts_r0 s) (fmul (fdiv (f_of_int (time_sub t (ts_t0 s))) (f_of_int spn)) (fsub (ts_r1 s) (ts_r0 s))))"

subsection \<open>Domains\<close>

definition targetTicks :: int where "targetTicks = 6"

definition niceStep :: "chart_libs \<Rightarrow> f64 \<Rightarrow> f64" where
  "niceStep L raw =
     (if fle raw (Fin 0) \<or> is_inf raw \<or> raw = NaN then Fin 1
      else let p = cl_pow L (Fin 10) (ffloor (cl_log10 L raw)); f = fdiv raw p in
        if fle f (Fin 1) then p
        else if fle f (Fin 2) then fmul (Fin 2) p
        else if fle f (Fin 5) then fmul (Fin 5) p
        else fmul (Fin 10) p)"

text \<open>The domain widened from ordered ends.\<close>

definition widen :: "f64 \<Rightarrow> f64 \<Rightarrow> f64 \<Rightarrow> f64 \<times> f64" where
  "widen step lo hi =
     (let nlo = fmul (ffloor (fdiv lo step)) step; nhi = fmul (fceil (fdiv hi step)) step in
      (if fgt nlo lo then fsub nlo step else nlo, if flt nhi hi then fadd nhi step else nhi))"

definition niceDomain :: "chart_libs \<Rightarrow> f64 \<Rightarrow> f64 \<Rightarrow> bool \<Rightarrow> f64 \<times> f64 \<times> f64" where
  "niceDomain L lo hi includeZero =
     (let lo = (if includeZero then fmin lo (Fin 0) else lo);
          hi = (if includeZero then fmax hi (Fin 0) else hi);
          (lo, hi) = (if flt hi lo then (hi, lo) else (lo, hi));
          pad = fmax (fmul (fabs hi) (f_const (1/10))) (Fin 1);
          (lo, hi) = (if feq hi lo then (fsub lo pad, fadd hi pad) else (lo, hi));
          step = niceStep L (fdiv (fsub hi lo) (f_of_int targetTicks));
          (nlo, nhi) = widen step lo hi
      in (nlo, nhi, step))"

subsection \<open>Ticks\<close>

text \<open>\<open>groupThousands\<close>: a comma before every group of three digits of a whole part of more than four.\<close>

fun group_digits :: "string \<Rightarrow> string" where
  "group_digits [] = []"
| "group_digits (c # cs) = c # (if cs \<noteq> [] \<and> length cs mod 3 = 0 then CHR '','' # group_digits cs else group_digits cs)"

definition group_unsigned :: "string \<Rightarrow> string" where
  "group_unsigned s =
     (case (case cut_at CHR ''.'' s of Some (l, r) \<Rightarrow> (l, CHR ''.'' # r) | None \<Rightarrow> (s, [])) of
        (intPart, fracPart) \<Rightarrow> (if length intPart > 4 then group_digits intPart else intPart) @ fracPart)"

definition groupThousands :: "string \<Rightarrow> string" where
  "groupThousands s = (if has_prefix s ''-'' then ''-'' @ group_unsigned (tl s) else group_unsigned s)"

definition formatTickValue :: "chart_libs \<Rightarrow> f64 \<Rightarrow> f64 \<Rightarrow> int \<Rightarrow> string" where
  "formatTickValue L v step decimals =
     (let p = to_int64 (cl_oob L) (fceil (fneg (cl_log10 L step)));
          places = (if fge step (Fin 1) then 0 else if p < decimals \<or> decimals = 0 then p else decimals);
          v = (if feq v (Fin 0) then Fin 0 else v)
      in groupThousands (FormatFloat_f (cl_shortest L) v places))"

function numeric_ticks :: "chart_libs \<Rightarrow> f64 \<Rightarrow> f64 \<Rightarrow> f64 \<Rightarrow> int \<Rightarrow> nat \<Rightarrow> Tick list" where
  "numeric_ticks L lo hi step decimals i =
     (let v = fadd lo (fmul (f_of_int (int i)) step) in
      if fgt v (fadd hi (fdiv step (Fin 1000000))) then []
      else \<lparr>tk_Value = v, tk_Label = formatTickValue L v step decimals, tk_Time = None\<rparr>
        # (if Suc i > 64 then [] else numeric_ticks L lo hi step decimals (Suc i)))"
  by pat_completeness auto
termination by (relation "measure (\<lambda>(L, lo, hi, step, decimals, i). 65 - i)") auto

declare numeric_ticks.simps [simp del]

definition numericTicks :: "chart_libs \<Rightarrow> f64 \<Rightarrow> f64 \<Rightarrow> f64 \<Rightarrow> int \<Rightarrow> Tick list" where
  "numericTicks L lo hi step decimals = (if fle step (Fin 0) then [] else numeric_ticks L lo hi step decimals 0)"

definition timeTickSteps :: "duration list" where
  "timeTickSteps =
     [Minute, 5 * Minute, 15 * Minute, 30 * Minute, Hour, 3 * Hour, 6 * Hour, 12 * Hour,
      24 * Hour, 48 * Hour, 7 * 24 * Hour, 14 * 24 * Hour, 30 * 24 * Hour]"

definition twoDays :: duration where "twoDays = 48 * Hour"
definition sixtyDays :: duration where "sixtyDays = 60 * 24 * Hour"

definition formatTickTime :: "chart_libs \<Rightarrow> gotime \<Rightarrow> duration \<Rightarrow> string" where
  "formatTickTime L t spn =
     (if spn \<ge> sixtyDays then format_month_year (cl_zone L) t
      else if spn \<ge> twoDays then format_weekday (cl_zone L) t
      else if clock_hour (cl_zone L) t = 0 \<and> clock_minute (cl_zone L) t = 0 then format_day_month (cl_zone L) t
      else format_clock (cl_zone L) t)"

definition time_tick :: "chart_libs \<Rightarrow> gotime \<Rightarrow> duration \<Rightarrow> Tick" where
  "time_tick L t spn = \<lparr>tk_Value = f_of_int (unix_milli t), tk_Label = formatTickTime L t spn, tk_Time = Some t\<rparr>"

definition tick_step :: "duration \<Rightarrow> duration" where
  "tick_step spn = (case filter (\<lambda>cand. spn sdiv cand \<le> targetTicks) timeTickSteps of [] \<Rightarrow> last timeTickSteps | c # _ \<Rightarrow> c)"

text \<open>The loop, its length so far being \<open>n\<close>; the fuel covers the one skipped instant and the 65 ticks,
  \<open>None\<close> would be its exhaustion.\<close>

fun time_tick_loop :: "nat \<Rightarrow> chart_libs \<Rightarrow> gotime \<Rightarrow> gotime \<Rightarrow> duration \<Rightarrow> duration \<Rightarrow> nat \<Rightarrow> gotime \<Rightarrow> Tick list option" where
  "time_tick_loop 0 L t0 t1 spn step n t = None"
| "time_tick_loop (Suc fuel) L t0 t1 spn step n t =
     (if time_after t t1 then Some []
      else if time_after t0 t then time_tick_loop fuel L t0 t1 spn step n (time_add t step)
      else map_option (\<lambda>ts. time_tick L t spn # ts)
        (if Suc n > 64 then Some [] else time_tick_loop fuel L t0 t1 spn step (Suc n) (time_add t step)))"

definition timeTicks :: "chart_libs \<Rightarrow> gotime \<Rightarrow> gotime \<Rightarrow> Tick list option" where
  "timeTicks L t0 t1 =
     (let spn = time_sub t1 t0 in
      if spn \<le> 0 then Some [time_tick L t0 0]
      else time_tick_loop 67 L t0 t1 spn (tick_step spn) 0 (time_truncate t0 (tick_step spn)))"

subsection \<open>Extents\<close>

definition point_values :: "Point \<Rightarrow> f64 list" where
  "point_values pt = List.map_filter (\<lambda>v. v) [pt_Value pt, pt_Low pt, pt_High pt]"

definition panel_values :: "Panel \<Rightarrow> f64 list" where
  "panel_values p = List.concat (List.map (\<lambda>s. List.concat (List.map point_values (se_Points s))) (pa_Series p))"

definition seriesExtent :: "Panel \<Rightarrow> f64 \<times> f64 \<times> bool" where
  "seriesExtent p = (foldl fmin PosInf (panel_values p), foldl fmax NegInf (panel_values p), panel_values p \<noteq> [])"

fun time_extent :: "(gotime \<times> gotime) option \<Rightarrow> Series list \<Rightarrow> (gotime \<times> gotime) option" where
  "time_extent acc [] = acc"
| "time_extent acc (s # ss) =
     (if se_Points s = [] then time_extent acc ss
      else let first = pt_Time (hd (se_Points s)); lst = pt_Time (last (se_Points s)) in
        time_extent (case acc of None \<Rightarrow> Some (first, lst)
          | Some (t0, t1) \<Rightarrow> Some (if time_after t0 first then first else t0, if time_after lst t1 then lst else t1)) ss)"

definition timeExtent :: "Spec \<Rightarrow> (gotime \<times> gotime) option" where
  "timeExtent s = time_extent None (List.concat (List.map pa_Series (sp_Panels s)))"

end
