(* ===== verification/ChartRose.thy ===== *)
theory ChartRose
  imports ChartScale
begin

text \<open>
  The wind rose (\<open>resolveRose\<close> of \<open>src/chart/windrose.go\<close>): the readings binned by sector and speed
  class, the classes' labels and colours, and the frequency rings. A result \<open>None\<close> is a panic (an
  index out of range) or a loop that does not end.
\<close>

definition defaultSectors :: int where "defaultSectors = 16"
definition defaultCalmBelow :: f64 where "defaultCalmBelow = Fin (1/2)"
definition defaultSpeedBands :: "f64 list" where "defaultSpeedBands = [Fin 2, Fin 4, Fin 6, Fin 10, Fin 15]"

fun speedBand :: "f64 list \<Rightarrow> f64 \<Rightarrow> nat" where
  "speedBand [] v = 0"
| "speedBand (e # es) v = (if flt v e then 0 else Suc (speedBand es v))"

subsection \<open>Counting\<close>

definition sector_width :: "int \<Rightarrow> f64" where "sector_width n = fdiv (Fin 360) (f_of_int n)"

definition rose_sector :: "(f64 \<Rightarrow> int) \<Rightarrow> int \<Rightarrow> f64 \<Rightarrow> int" where
  "rose_sector oob n dir =
     (let deg = fmod (fadd (fmod dir (Fin 360)) (Fin 360)) (Fin 360) in
      to_int64 oob (ffloor (fdiv (fadd deg (fdiv (sector_width n) (Fin 2))) (sector_width n))) smod n)"

record rose_counts =
  rc_total :: int
  rc_calm :: int
  rc_counts :: "int list list"

text \<open>\<open>counts[i][j]++\<close>.\<close>

definition bump :: "int list list \<Rightarrow> int \<Rightarrow> int \<Rightarrow> int list list option" where
  "bump counts i j =
     Option.bind (slice_at counts i) (\<lambda>row.
     Option.bind (slice_at row j) (\<lambda>c. Some (counts[nat i := row[nat j := c + 1]])))"

fun count_readings :: "(f64 \<Rightarrow> int) \<Rightarrow> int \<Rightarrow> f64 list \<Rightarrow> f64 \<Rightarrow> Point list \<Rightarrow> rose_counts \<Rightarrow> rose_counts option" where
  "count_readings oob n edges calmBelow [] acc = Some acc"
| "count_readings oob n edges calmBelow (pt # pts) acc =
     (case (pt_Direction pt, pt_Value pt) of
        (Some dir, Some v) \<Rightarrow>
          (let acc = acc\<lparr>rc_total := rc_total acc + 1\<rparr> in
           if flt v calmBelow then count_readings oob n edges calmBelow pts (acc\<lparr>rc_calm := rc_calm acc + 1\<rparr>)
           else Option.bind (bump (rc_counts acc) (rose_sector oob n dir) (int (speedBand edges v)))
             (\<lambda>c. count_readings oob n edges calmBelow pts (acc\<lparr>rc_counts := c\<rparr>)))
      | _ \<Rightarrow> count_readings oob n edges calmBelow pts acc)"

definition zero_counts :: "int \<Rightarrow> nat \<Rightarrow> rose_counts" where
  "zero_counts n nBands = \<lparr>rc_total = 0, rc_calm = 0, rc_counts = replicate (nat n) (replicate nBands 0)\<rparr>"

definition share :: "int \<Rightarrow> int \<Rightarrow> f64" where
  "share count tot = (if tot > 0 then fdiv (f_of_int count) (f_of_int tot) else Fin 0)"

definition sector_bins :: "int \<Rightarrow> nat \<Rightarrow> int list \<Rightarrow> RoseBin list" where
  "sector_bins tot sec row =
     List.map (\<lambda>band. \<lparr>rb_Sector = int sec, rb_Band = int band, rb_Count = row ! band, rb_Fraction = share (row ! band) tot\<rparr>)
       (filter (\<lambda>band. row ! band \<noteq> 0) [0..<length row])"

definition rose_bins :: "int \<Rightarrow> int list list \<Rightarrow> RoseBin list" where
  "rose_bins tot counts = List.concat (List.map (\<lambda>sec. sector_bins tot sec (counts ! sec)) [0..<length counts])"

definition max_fraction :: "int \<Rightarrow> int list list \<Rightarrow> f64" where
  "max_fraction tot counts =
     foldl (\<lambda>m row. if tot > 0 then fmax m (fdiv (f_of_int (sum_list row)) (f_of_int tot)) else m) (Fin 0) counts"

subsection \<open>Labels and rings\<close>

definition trimFloat :: "chart_libs \<Rightarrow> f64 \<Rightarrow> string" where "trimFloat L v = cl_shortest L v"

fun band_labels :: "chart_libs \<Rightarrow> string \<Rightarrow> f64 \<Rightarrow> f64 list \<Rightarrow> string list" where
  "band_labels L unit prev [] = [ge_sign @ '' '' @ trimFloat L prev @ unit]"
| "band_labels L unit prev (e # es) = (trimFloat L prev @ en_dash @ trimFloat L e @ unit) # band_labels L unit e es"

definition speedBandLabels :: "chart_libs \<Rightarrow> f64 list \<Rightarrow> string \<Rightarrow> string list" where
  "speedBandLabels L edges unit = band_labels L (if unit \<noteq> [] then '' '' @ unit else unit) (Fin 0) edges"

partial_function (option) ring_loop :: "chart_libs \<Rightarrow> f64 \<Rightarrow> f64 \<Rightarrow> f64 \<Rightarrow> Tick list option" where
  "ring_loop L step limit v =
     (if fle v limit then Option.bind (ring_loop L step limit (fadd v step))
        (\<lambda>ts. Some (\<lparr>tk_Value = v, tk_Label = formatTickValue L v step 0 @ ''%'', tk_Time = None\<rparr> # ts))
      else Some [])"

definition roseRings :: "chart_libs \<Rightarrow> f64 \<Rightarrow> Tick list option" where
  "roseRings L maxFraction =
     (let hi = fmax (fmul maxFraction (Fin 100)) (Fin 1); (nlo, nhi, step) = niceDomain L (Fin 0) hi True
      in ring_loop L step (fadd nhi (fdiv step (Fin 1000000))) step)"

definition band_colors :: "chart_libs \<Rightarrow> ResolvedPalette \<Rightarrow> nat \<Rightarrow> string list option" where
  "band_colors L p n =
     those (List.map (\<lambda>i. SequentialColor (cl_oob L) p (fdiv (f_of_int (int (i + 1))) (f_of_int (int n)))) [0..<n])"

subsection \<open>The resolution\<close>

definition rose_defaults :: "WindroseOptions option \<Rightarrow> WindroseOptions" where
  "rose_defaults w =
     (let opts = (case w of None \<Rightarrow> no_options | Some w \<Rightarrow> w);
          opts = (if wo_Sectors opts = 0 then opts\<lparr>wo_Sectors := defaultSectors\<rparr> else opts);
          opts = (if wo_SpeedBands opts = [] then opts\<lparr>wo_SpeedBands := defaultSpeedBands\<rparr> else opts)
      in if feq (wo_CalmBelow opts) (Fin 0) then opts\<lparr>wo_CalmBelow := defaultCalmBelow\<rparr> else opts)"

definition resolve_options :: "chart_libs \<Rightarrow> ResolvedPalette \<Rightarrow> Series \<Rightarrow> WindroseOptions \<Rightarrow> WindroseOptions option" where
  "resolve_options L palette ser opts =
     (let nBands = length (wo_SpeedBands opts) + 1 in
      Option.bind (count_readings (cl_oob L) (wo_Sectors opts) (wo_SpeedBands opts) (wo_CalmBelow opts) (se_Points ser)
          (zero_counts (wo_Sectors opts) nBands)) (\<lambda>c.
      Option.bind (band_colors L palette nBands) (\<lambda>colors.
      Option.bind (roseRings L (max_fraction (rc_total c) (rc_counts c))) (\<lambda>rings.
      Some (opts\<lparr>wo_Total := rc_total c,
        wo_CalmFraction := (if rc_total c > 0 then fdiv (f_of_int (rc_calm c)) (f_of_int (rc_total c)) else wo_CalmFraction opts),
        wo_Bins := rose_bins (rc_total c) (rc_counts c),
        wo_MaxFraction := max_fraction (rc_total c) (rc_counts c),
        wo_BandLabels := speedBandLabels L (wo_SpeedBands opts) (se_Unit ser),
        wo_BandColors := colors,
        wo_Rings := rings\<rparr>)))))"

text \<open>The series is the first of the first panel, the palette the resolved one: both are pointers the
  code follows, and an index out of range or a nil pointer panics.\<close>

definition resolveRose :: "chart_libs \<Rightarrow> Spec \<Rightarrow> Spec option" where
  "resolveRose L s =
     (case (sp_Panels s, sp_Palette s) of
        (p # _, Some palette) \<Rightarrow> (case pa_Series p of
            ser # _ \<Rightarrow> Option.bind (resolve_options L palette ser (rose_defaults (sp_Windrose s)))
                (\<lambda>w. Some (s\<lparr>sp_Windrose := Some w\<rparr>))
          | [] \<Rightarrow> None)
      | _ \<Rightarrow> None)"

end
