(* ===== verification/ChartBuild.thy ===== *)
theory ChartBuild
  imports ChartRose
begin

text \<open>
  The resolution of a specification (\<open>Resolved\<close> of \<open>src/chart/build.go\<close>) and the constructors of
  \<open>src/chart/chart.go\<close>. \<open>Resolved\<close> returns an error or the resolved copy; a result \<open>None\<close> is a panic or
  a loop that does not end. The two readings of the clock are parameters.
\<close>

definition applyDefaults :: "Spec \<Rightarrow> Spec" where
  "applyDefaults s =
     (let s = (if sp_Mode s = [] then s\<lparr>sp_Mode := ModeLight\<rparr> else s);
          s = (if sp_Width s = 0 then s\<lparr>sp_Width := DefaultWidth\<rparr> else s)
      in if sp_Height s = 0 then s\<lparr>sp_Height := DefaultHeight\<rparr> else s)"

definition resolveBands :: "chart_libs \<Rightarrow> ResolvedPalette \<Rightarrow> Panel \<Rightarrow> Panel" where
  "resolveBands L palette p =
     (let bands = (if pa_ShowThresholds p \<and> pa_Bands p = [] \<and> pa_Series p \<noteq> []
          then BandsFor (cl_unicode L) (cl_shortest L) (se_Parameter (hd (pa_Series p))) else pa_Bands p)
      in p\<lparr>pa_Bands := List.map (\<lambda>b. b\<lparr>bd_Color := StatusColor palette (bd_Status b)\<rparr>) bands\<rparr>)"

definition decimals :: "unicode \<Rightarrow> Panel \<Rightarrow> int" where
  "decimals U p =
     (case pa_Series p of [] \<Rightarrow> 1
      | ser # _ \<Rightarrow> (case Parameter U (se_Parameter ser) of Some d \<Rightarrow> pd_Decimals d | None \<Rightarrow> 1))"

text \<open>The panel's zero flag: pinned, or an accumulation among its series.\<close>

definition wants_zero :: "unicode \<Rightarrow> Panel \<Rightarrow> bool" where
  "wants_zero U p \<longleftrightarrow> ax_Zero (pa_Y p)
     \<or> list_ex (\<lambda>ser. case Parameter U (se_Parameter ser) of Some d \<Rightarrow> pd_Zero d | None \<Rightarrow> False) (pa_Series p)"

text \<open>The drawn domain and its step: the data's domain, with the pinned ends in its place.\<close>

definition y_domain :: "chart_libs \<Rightarrow> Panel \<Rightarrow> f64 \<times> f64 \<times> f64" where
  "y_domain L p =
     (let (lo, hi, ok) = seriesExtent p; (lo, hi) = (if ok then (lo, hi) else (Fin 0, Fin 1));
          (nlo, nhi, step) = niceDomain L lo hi (wants_zero (cl_unicode L) p);
          pinned = (ax_Min (pa_Y p) \<noteq> None \<or> ax_Max (pa_Y p) \<noteq> None);
          nlo = (case ax_Min (pa_Y p) of Some v \<Rightarrow> v | None \<Rightarrow> nlo);
          nhi = (case ax_Max (pa_Y p) of Some v \<Rightarrow> v | None \<Rightarrow> nhi);
          nhi = (if fle nhi nlo then fadd nlo (Fin 1) else nhi)
      in (nlo, nhi, if pinned then niceStep L (fdiv (fsub nhi nlo) (f_of_int targetTicks)) else step))"

definition resolveY :: "chart_libs \<Rightarrow> Panel \<Rightarrow> Panel" where
  "resolveY L p =
     (let U = cl_unicode L; y = pa_Y p;
          y = (if ax_Label y = [] \<and> pa_Series p \<noteq> [] then y\<lparr>ax_Label := ParameterLabel U (se_Parameter (hd (pa_Series p)))\<rparr> else y);
          y = (if ax_Unit y = [] \<and> pa_Series p \<noteq> [] then y\<lparr>ax_Unit := se_Unit (hd (pa_Series p))\<rparr> else y);
          (nlo, nhi, step) = y_domain L p
      in p\<lparr>pa_Y := y\<lparr>ax_Min := Some nlo, ax_Max := Some nhi, ax_Zero := wants_zero U p,
             ax_Ticks := numericTicks L nlo nhi step (decimals U p)\<rparr>\<rparr>)"

subsection \<open>The time axis\<close>

definition resolveX :: "chart_libs \<Rightarrow> gotime \<Rightarrow> gotime \<Rightarrow> Spec \<Rightarrow> Spec option" where
  "resolveX L now0 now1 s =
     (let x = sp_X s; ms = (\<lambda>v. of_unix_milli (to_int64 (cl_oob L) v));
          (t0, t1) = (case timeExtent s of Some e \<Rightarrow> e | None \<Rightarrow> (time_utc now0, time_add (time_utc now1) Hour));
          t0 = (case ax_Min x of Some v \<Rightarrow> (ms v)\<lparr>t_loc := t_loc t0\<rparr> | None \<Rightarrow> t0);
          t1 = (case ax_Max x of Some v \<Rightarrow> (ms v)\<lparr>t_loc := t_loc t1\<rparr> | None \<Rightarrow> t1);
          t1 = (if time_after t1 t0 then t1 else time_add t0 Hour)
      in Option.bind (timeTicks L t0 t1) (\<lambda>ticks.
         Some (s\<lparr>sp_X := x\<lparr>ax_Min := Some (f_of_int (unix_milli t0)), ax_Max := Some (f_of_int (unix_milli t1)),
           ax_Ticks := ticks\<rparr>\<rparr>)))"

definition xTimeDomain :: "chart_libs \<Rightarrow> gotime \<Rightarrow> Spec \<Rightarrow> gotime \<times> gotime" where
  "xTimeDomain L now0 s =
     (case (ax_Min (sp_X s), ax_Max (sp_X s)) of
        (Some a, Some b) \<Rightarrow> (time_utc (of_unix_milli (to_int64 (cl_oob L) a)), time_utc (of_unix_milli (to_int64 (cl_oob L) b)))
      | _ \<Rightarrow> (time_utc now0, time_add (time_utc now0) Hour))"

subsection \<open>The series\<close>

definition resolve_series :: "unicode \<Rightarrow> ResolvedPalette \<Rightarrow> int \<Rightarrow> Series \<Rightarrow> (int \<times> Series) option" where
  "resolve_series U palette slot ser =
     (let ser = ser\<lparr>se_Unit := EffectiveUnit U ser\<rparr>; ser = ser\<lparr>se_Mark := EffectiveMark U ser\<rparr>;
          (slot, ser) = (if se_Slot ser = 0 then (slot + 1, ser\<lparr>se_Slot := slot + 1\<rparr>) else (slot, ser))
      in Option.bind (SeriesColor palette (se_Slot ser)) (\<lambda>c. Some (slot, ser\<lparr>se_Color := c\<rparr>)))"

fun resolve_all_series :: "unicode \<Rightarrow> ResolvedPalette \<Rightarrow> int \<Rightarrow> Series list \<Rightarrow> (int \<times> Series list) option" where
  "resolve_all_series U palette slot [] = Some (slot, [])"
| "resolve_all_series U palette slot (ser # sers) =
     Option.bind (resolve_series U palette slot ser) (\<lambda>(slot, ser).
     Option.bind (resolve_all_series U palette slot sers) (\<lambda>(slot, sers). Some (slot, ser # sers)))"

definition resolve_panel :: "chart_libs \<Rightarrow> ResolvedPalette \<Rightarrow> int \<Rightarrow> Panel \<Rightarrow> (int \<times> Panel) option" where
  "resolve_panel L palette slot p =
     Option.bind (resolve_all_series (cl_unicode L) palette slot (pa_Series p)) (\<lambda>(slot, sers).
     Some (slot, resolveY L (resolveBands L palette (p\<lparr>pa_Series := sers\<rparr>))))"

fun resolve_panels :: "chart_libs \<Rightarrow> ResolvedPalette \<Rightarrow> int \<Rightarrow> Panel list \<Rightarrow> (int \<times> Panel list) option" where
  "resolve_panels L palette slot [] = Some (slot, [])"
| "resolve_panels L palette slot (p # ps) =
     Option.bind (resolve_panel L palette slot p) (\<lambda>(slot, p).
     Option.bind (resolve_panels L palette slot ps) (\<lambda>(slot, ps). Some (slot, p # ps)))"

definition Resolved :: "chart_libs \<Rightarrow> gotime \<Rightarrow> gotime \<Rightarrow> Spec \<Rightarrow> (spec_error + Spec) option" where
  "Resolved L now0 now1 s =
     (let out = applyDefaults s in
      case Validate_spec (cl_unicode L) out of
        Some e \<Rightarrow> Some (Inl e)
      | None \<Rightarrow>
          (let palette = PaletteFor (sp_Mode out) in
           Option.bind (resolve_panels L palette 0 (sp_Panels s)) (\<lambda>(slot, panels).
             let out = out\<lparr>sp_Palette := Some palette, sp_Panels := panels\<rparr> in
             map_option Inr (if sp_Kind out = KindWindrose then resolveRose L out else resolveX L now0 now1 out))))"

subsection \<open>Constructors\<close>

definition no_axis :: Axis where
  "no_axis = \<lparr>ax_Label = [], ax_Unit = [], ax_Min = None, ax_Max = None, ax_Ticks = [], ax_Zero = False\<rparr>"

definition new_panel :: "string \<Rightarrow> Series list \<Rightarrow> Panel" where
  "new_panel title sers = \<lparr>pa_Title = title, pa_Series = sers, pa_Y = no_axis, pa_Bands = [], pa_ShowThresholds = False,
     pa_Weight = Fin 0\<rparr>"

definition new_spec :: "chart_Kind \<Rightarrow> string \<Rightarrow> Panel list \<Rightarrow> WindroseOptions option \<Rightarrow> Spec" where
  "new_spec kind title panels w = \<lparr>sp_Kind = kind, sp_Title = title, sp_Subtitle = [], sp_Mode = [], sp_Width = 0, sp_Height = 0,
     sp_Panels = panels, sp_X = no_axis, sp_Windrose = w, sp_Source = [], sp_Generated = None, sp_Palette = None\<rparr>"

definition SeriesOf :: "unicode \<Rightarrow> string \<Rightarrow> string \<Rightarrow> Point list \<Rightarrow> Series" where
  "SeriesOf U name parameter points =
     \<lparr>se_Name = (if name = [] then ParameterLabel U parameter else name), se_Parameter = parameter, se_Mark = [], se_Unit = [],
      se_Slot = 0, se_Color = [], se_Points = points\<rparr>"

definition PanelOf :: "Series list \<Rightarrow> Panel" where
  "PanelOf sers = new_panel (if length sers = 1 then se_Name (sers ! 0) else []) sers"

definition TimeSeries :: "string \<Rightarrow> Series list \<Rightarrow> Spec" where
  "TimeSeries title sers =
     new_spec KindTimeSeries title [new_panel (if length sers = 1 then se_Name (sers ! 0) else []) sers] None"

definition Meteogram :: "string \<Rightarrow> Panel list \<Rightarrow> Spec" where
  "Meteogram title panels = new_spec KindMeteogram title panels None"

definition Windrose :: "string \<Rightarrow> Series \<Rightarrow> WindroseOptions option \<Rightarrow> Spec" where
  "Windrose title ser opts = new_spec KindWindrose title [new_panel [] [ser]] opts"

text \<open>A missing key of the map of a row reads as nil.\<close>

record Sample =
  sm_Time :: gotime
  sm_Values :: "string \<Rightarrow> f64 option"

definition sample_point :: "string \<Rightarrow> Sample \<Rightarrow> Point" where
  "sample_point param row = \<lparr>pt_Time = sm_Time row, pt_Value = sm_Values row param, pt_Low = None, pt_High = None, pt_Direction = None\<rparr>"

definition windroseSpeedParam :: string where "windroseSpeedParam = ''wind_speed''"
definition windroseDirectionParam :: string where "windroseDirectionParam = ''wind_direction''"

definition windroseFromSamples :: "unicode \<Rightarrow> string \<Rightarrow> Sample list \<Rightarrow> string list \<Rightarrow> Spec" where
  "windroseFromSamples U title rows parameters =
     (let speedParam = (if length parameters > 0 then parameters ! 0 else windroseSpeedParam);
          dirParam = (if length parameters > 1 then parameters ! 1 else windroseDirectionParam);
          points = List.map (\<lambda>row. (sample_point speedParam row)\<lparr>pt_Direction := sm_Values row dirParam\<rparr>) rows
      in Windrose title (SeriesOf U (ParameterLabel U speedParam) speedParam points) None)"

text \<open>\<open>sort.SliceStable\<close> is a stable sort by the time, as \<open>sort_key\<close> is.\<close>

definition FromSamples :: "unicode \<Rightarrow> chart_Kind \<Rightarrow> string \<Rightarrow> Sample list \<Rightarrow> string list \<Rightarrow> Spec" where
  "FromSamples U kind title samples parameters =
     (let rows = sort_key (\<lambda>row. t_ns (sm_Time row)) samples in
      if kind = KindWindrose then windroseFromSamples U title rows parameters
      else (let sers = List.map (\<lambda>param. SeriesOf U (ParameterLabel U param) param (List.map (sample_point param) rows)) parameters
        in if kind = KindMeteogram then Meteogram title (List.map (\<lambda>ser. PanelOf [ser]) sers) else TimeSeries title sers))"

subsection \<open>Formats\<close>

definition FormatPNG :: string where "FormatPNG = ''chart_png''"
definition FormatSVG :: string where "FormatSVG = ''chart_svg''"
definition FormatSpec :: string where "FormatSpec = ''chartspec''"

definition ParseFormat :: "unicode \<Rightarrow> string \<Rightarrow> string option" where
  "ParseFormat U s =
     (let f = to_lower U (trim_space U s) in
      if f \<in> {''chart_png'', ''chartpng'', ''png''} then Some FormatPNG
      else if f \<in> {''chart_svg'', ''chartsvg'', ''svg''} then Some FormatSVG
      else if f \<in> {''chartspec'', ''chart_spec'', ''spec''} then Some FormatSpec
      else None)"

definition ParseMode :: "unicode \<Rightarrow> string \<Rightarrow> Mode option" where
  "ParseMode U s =
     (let f = to_lower U (trim_space U s) in
      if f = ''light'' then Some ModeLight else if f = ''dark'' then Some ModeDark else None)"

end
