(* ===== verification/ChartDraw.thy ===== *)
theory ChartDraw
  imports ChartBuild
begin

text \<open>
  The draw list of a chart (\<open>src/chart/draw.go\<close>), the measuring of text (\<open>text.go\<close>) and the division of
  the canvas (\<open>layout.go\<close>). The advance of a string in a font, in units of 1/64 pixel, comes from a
  font library and is the parameter \<open>M\<close>, \<open>None\<close> when the face cannot be built.
\<close>

type_synonym metrics = "string \<Rightarrow> f64 \<Rightarrow> bool \<Rightarrow> int option"

subsection \<open>Runes\<close>

text \<open>\<open>[]rune(s)\<close>: the UTF-8 encodings of the runes of a string; a byte that starts no valid encoding is the
  replacement character.\<close>

definition byte_in :: "nat \<Rightarrow> nat \<Rightarrow> char \<Rightarrow> bool" where
  "byte_in lo hi c \<longleftrightarrow> lo \<le> (of_char c :: nat) \<and> (of_char c :: nat) \<le> hi"

definition second_range :: "char \<Rightarrow> nat \<times> nat" where
  "second_range c = (if c = CHR 0xE0 then (0xA0, 0xBF) else if c = CHR 0xED then (0x80, 0x9F)
     else if c = CHR 0xF0 then (0x90, 0xBF) else if c = CHR 0xF4 then (0x80, 0x8F) else (0x80, 0xBF))"

definition rune_size :: "char \<Rightarrow> nat" where
  "rune_size c = (if byte_in 0 0x7F c then 1 else if byte_in 0xC2 0xDF c then 2 else if byte_in 0xE0 0xEF c then 3
     else if byte_in 0xF0 0xF4 c then 4 else 0)"

definition valid_rune :: "string \<Rightarrow> bool" where
  "valid_rune s \<longleftrightarrow> s \<noteq> [] \<and> length s = rune_size (hd s)
     \<and> (length s > 1 \<longrightarrow> byte_in (fst (second_range (hd s))) (snd (second_range (hd s))) (s ! 1)
         \<and> list_all (byte_in 0x80 0xBF) (drop 2 s))"

definition replacement :: string where "replacement = [CHR 0xEF, CHR 0xBF, CHR 0xBD]"

function runes_of :: "string \<Rightarrow> string list" where
  "runes_of [] = []"
| "runes_of (c # cs) =
     (let n = rune_size c; r = take n (c # cs) in
      if valid_rune r then r # runes_of (drop n (c # cs)) else replacement # runes_of cs)"
  by pat_completeness auto
termination by (relation "measure length") (auto simp: valid_rune_def)

subsection \<open>Text\<close>

definition sizeTitle :: f64 where "sizeTitle = Fin 15"
definition sizeSubtitle :: f64 where "sizeSubtitle = Fin 12"
definition sizeAxis :: f64 where "sizeAxis = Fin 11"
definition sizeLegend :: f64 where "sizeLegend = Fin 11"
definition sizeFooter :: f64 where "sizeFooter = Fin 10"

definition measureText :: "metrics \<Rightarrow> string \<Rightarrow> f64 \<Rightarrow> bool \<Rightarrow> f64" where
  "measureText M s sz bold =
     (if s = [] then Fin 0
      else case M s sz bold of
          Some w \<Rightarrow> fdiv (f_of_int w) (Fin 64)
        | None \<Rightarrow> fmul (fmul (f_of_int (int (length (runes_of s)))) sz) (f_const (6/10)))"

definition textHeight :: "f64 \<Rightarrow> f64" where "textHeight sz = fmul sz (f_const (72/100))"

definition ellipsis :: string where "ellipsis = [CHR 0xE2, CHR 0x80, CHR 0xA6]"

text \<open>The longest proper prefix of at least one rune that fits with the ellipsis.\<close>

fun truncate_runes :: "metrics \<Rightarrow> string list \<Rightarrow> f64 \<Rightarrow> bool \<Rightarrow> f64 \<Rightarrow> nat \<Rightarrow> string" where
  "truncate_runes M runes sz bold maxW 0 = []"
| "truncate_runes M runes sz bold maxW (Suc n) =
     (let cand = List.concat (take (Suc n) runes) @ ellipsis in
      if fle (measureText M cand sz bold) maxW then cand else truncate_runes M runes sz bold maxW n)"

definition truncateToWidth :: "metrics \<Rightarrow> string \<Rightarrow> f64 \<Rightarrow> bool \<Rightarrow> f64 \<Rightarrow> string" where
  "truncateToWidth M s sz bold maxW =
     (if fle (measureText M s sz bold) maxW then s
      else let runes = runes_of s in truncate_runes M runes sz bold maxW (length runes - 1))"

subsection \<open>The draw list\<close>

definition OpRect :: string where "OpRect = ''rect''"
definition OpPolyline :: string where "OpPolyline = ''polyline''"
definition OpPolygon :: string where "OpPolygon = ''polygon''"
definition OpCircle :: string where "OpCircle = ''circle''"
definition OpText :: string where "OpText = ''text''"

lemmas op_kind_defs = OpRect_def OpPolyline_def OpPolygon_def OpCircle_def OpText_def

record Pt =
  pX :: f64
  pY :: f64

definition mk_pt :: "f64 \<Rightarrow> f64 \<Rightarrow> Pt" where "mk_pt x y = \<lparr>pX = x, pY = y\<rparr>"

record Op =
  op_Kind :: string
  op_X :: f64
  op_Y :: f64
  op_W :: f64
  op_H :: f64
  op_Radius :: f64
  op_Points :: "Pt list"
  op_Fill :: string
  op_Alpha :: f64
  op_Stroke :: string
  op_StrokeWidth :: f64
  op_Ring :: f64
  op_RingColor :: string
  op_Text :: string
  op_Size :: f64
  op_Bold :: bool
  op_AnchorX :: f64
  op_AnchorY :: f64

definition new_op :: "string \<Rightarrow> Op" where
  "new_op kind = \<lparr>op_Kind = kind, op_X = Fin 0, op_Y = Fin 0, op_W = Fin 0, op_H = Fin 0, op_Radius = Fin 0, op_Points = [],
     op_Fill = [], op_Alpha = Fin 0, op_Stroke = [], op_StrokeWidth = Fin 0, op_Ring = Fin 0, op_RingColor = [],
     op_Text = [], op_Size = Fin 0, op_Bold = False, op_AnchorX = Fin 0, op_AnchorY = Fin 0\<rparr>"

record Drawing =
  dr_Width :: int
  dr_Height :: int
  dr_Palette :: ResolvedPalette
  dr_Ops :: "Op list"

definition op_alpha :: "Op \<Rightarrow> f64" where
  "op_alpha q = (if fle (op_Alpha q) (Fin 0) \<or> fgt (op_Alpha q) (Fin 1) then Fin 1 else op_Alpha q)"

definition add_op :: "Op \<Rightarrow> Drawing \<Rightarrow> Drawing" where
  "add_op q d = d\<lparr>dr_Ops := dr_Ops d @ [q]\<rparr>"

definition draw_rect :: "f64 \<Rightarrow> f64 \<Rightarrow> f64 \<Rightarrow> f64 \<Rightarrow> string \<Rightarrow> f64 \<Rightarrow> Drawing \<Rightarrow> Drawing" where
  "draw_rect x y w h fill alpha d =
     (if fle w (Fin 0) \<or> fle h (Fin 0) then d
      else add_op ((new_op OpRect)\<lparr>op_X := x, op_Y := y, op_W := w, op_H := h, op_Fill := fill, op_Alpha := alpha\<rparr>) d)"

definition roundedTopRect :: "f64 \<Rightarrow> f64 \<Rightarrow> f64 \<Rightarrow> f64 \<Rightarrow> f64 \<Rightarrow> string \<Rightarrow> Drawing \<Rightarrow> Drawing" where
  "roundedTopRect x y w h radius fill d =
     (if fle w (Fin 0) \<or> feq h (Fin 0) then d
      else let (y, h) = (if flt h (Fin 0) then (fadd y h, fneg h) else (y, h));
               radius = (if fgt radius (fdiv w (Fin 2)) then fdiv w (Fin 2) else radius);
               radius = (if fgt radius h then h else radius)
        in add_op ((new_op OpRect)\<lparr>op_X := x, op_Y := y, op_W := w, op_H := h, op_Radius := radius, op_Fill := fill\<rparr>) d)"

definition polyline :: "Pt list \<Rightarrow> string \<Rightarrow> f64 \<Rightarrow> Drawing \<Rightarrow> Drawing" where
  "polyline pts stroke width d =
     (if length pts < 2 then d
      else add_op ((new_op OpPolyline)\<lparr>op_Points := pts, op_Stroke := stroke, op_StrokeWidth := width\<rparr>) d)"

definition polygon :: "Pt list \<Rightarrow> string \<Rightarrow> f64 \<Rightarrow> string \<Rightarrow> f64 \<Rightarrow> Drawing \<Rightarrow> Drawing" where
  "polygon pts fill alpha stroke strokeWidth d =
     (if length pts < 3 then d
      else add_op ((new_op OpPolygon)\<lparr>op_Points := pts, op_Fill := fill, op_Alpha := alpha, op_Stroke := stroke,
        op_StrokeWidth := strokeWidth\<rparr>) d)"

definition circle :: "f64 \<Rightarrow> f64 \<Rightarrow> f64 \<Rightarrow> string \<Rightarrow> f64 \<Rightarrow> string \<Rightarrow> Drawing \<Rightarrow> Drawing" where
  "circle cx cy r fill ring ringColor d =
     (if fle r (Fin 0) then d
      else add_op ((new_op OpCircle)\<lparr>op_X := cx, op_Y := cy, op_Radius := r, op_Fill := fill, op_Ring := ring,
        op_RingColor := ringColor\<rparr>) d)"

definition strokedCircle :: "f64 \<Rightarrow> f64 \<Rightarrow> f64 \<Rightarrow> string \<Rightarrow> f64 \<Rightarrow> Drawing \<Rightarrow> Drawing" where
  "strokedCircle cx cy r stroke width d =
     (if fle r (Fin 0) then d
      else add_op ((new_op OpCircle)\<lparr>op_X := cx, op_Y := cy, op_Radius := r, op_Stroke := stroke, op_StrokeWidth := width\<rparr>) d)"

definition draw_text :: "string \<Rightarrow> f64 \<Rightarrow> f64 \<Rightarrow> f64 \<Rightarrow> bool \<Rightarrow> string \<Rightarrow> f64 \<Rightarrow> f64 \<Rightarrow> Drawing \<Rightarrow> Drawing" where
  "draw_text s x y sz bold ink ax ay d =
     (if s = [] then d
      else add_op ((new_op OpText)\<lparr>op_Text := s, op_X := x, op_Y := y, op_Size := sz, op_Bold := bold, op_Fill := ink,
        op_AnchorX := ax, op_AnchorY := ay\<rparr>) d)"

definition textOrigin :: "metrics \<Rightarrow> Op \<Rightarrow> f64 \<times> f64" where
  "textOrigin M q =
     (if feq (op_AnchorX q) (Fin 0) then op_X q else fsub (op_X q) (fmul (op_AnchorX q) (measureText M (op_Text q) (op_Size q) (op_Bold q))),
      fadd (op_Y q) (fmul (fsub (Fin 1) (op_AnchorY q)) (textHeight (op_Size q))))"

end
