(* ===== verification/ChartLayout.thy ===== *)
theory ChartLayout
  imports ChartDraw
begin

text \<open>
  The division of the canvas (\<open>src/chart/layout.go\<close>): where the title block, the legend, the panels and
  the footer of a resolved specification go.
\<close>

definition gutter :: f64 where "gutter = Fin 16"
definition titleGap :: f64 where "titleGap = Fin 6"
definition legendGap :: f64 where "legendGap = Fin 10"
definition panelGap :: f64 where "panelGap = Fin 18"
definition panelTitleH :: f64 where "panelTitleH = Fin 16"
definition xAxisH :: f64 where "xAxisH = Fin 18"
definition footerH :: f64 where "footerH = Fin 14"
definition tickLen :: f64 where "tickLen = Fin 4"
definition yLabelGap :: f64 where "yLabelGap = Fin 6"
definition lineWidth :: f64 where "lineWidth = Fin 2"
definition hairline :: f64 where "hairline = Fin 1"
definition markerRadius :: f64 where "markerRadius = Fin 4"
definition markerRing :: f64 where "markerRing = Fin 2"
definition barCap :: f64 where "barCap = Fin 24"
definition barRadius :: f64 where "barRadius = Fin 4"
definition bandAlpha :: f64 where "bandAlpha = f_const (10/100)"
definition thresholdAlpha :: f64 where "thresholdAlpha = f_const (8/100)"
definition minPanelHeight :: f64 where "minPanelHeight = Fin 48"

record rect =
  r_x :: f64
  r_y :: f64
  r_w :: f64
  r_h :: f64

definition rect_right :: "rect \<Rightarrow> f64" where "rect_right r = fadd (r_x r) (r_w r)"
definition rect_bottom :: "rect \<Rightarrow> f64" where "rect_bottom r = fadd (r_y r) (r_h r)"

record layout =
  ly_width :: f64
  ly_height :: f64
  ly_titleAt :: Pt
  ly_subtitleAt :: Pt
  ly_legendAt :: Pt
  ly_legendW :: f64
  ly_plots :: "rect list"
  ly_panelTitleAt :: "Pt list"
  ly_xAxisLabelY :: f64
  ly_footerAt :: Pt
  ly_hasFooter :: bool
  ly_roseCentre :: Pt
  ly_roseRadius :: f64

definition new_layout :: "f64 \<Rightarrow> f64 \<Rightarrow> layout" where
  "new_layout w h = (let o0 = mk_pt (Fin 0) (Fin 0) in
     \<lparr>ly_width = w, ly_height = h, ly_titleAt = o0, ly_subtitleAt = o0, ly_legendAt = o0, ly_legendW = Fin 0, ly_plots = [],
      ly_panelTitleAt = [], ly_xAxisLabelY = Fin 0, ly_footerAt = o0, ly_hasFooter = False, ly_roseCentre = o0,
      ly_roseRadius = Fin 0\<rparr>)"

definition panelWeight :: "Panel \<Rightarrow> f64" where
  "panelWeight p = (if fle (pa_Weight p) (Fin 0) then Fin 1 else pa_Weight p)"

definition panelTitle :: "Panel \<Rightarrow> string" where
  "panelTitle p =
     (if pa_Title p \<noteq> [] \<and> ax_Unit (pa_Y p) \<noteq> [] then pa_Title p @ '' ('' @ ax_Unit (pa_Y p) @ '')''
      else if pa_Title p \<noteq> [] then pa_Title p
      else ax_Unit (pa_Y p))"

definition legendEntryCount :: "Spec \<Rightarrow> nat" where
  "legendEntryCount s =
     (if sp_Kind s = KindWindrose
      then (case sp_Windrose s of None \<Rightarrow> length defaultSpeedBands + 1 | Some w \<Rightarrow> length (wo_SpeedBands w) + 1)
      else if sp_Kind s = KindMeteogram \<and> list_all (\<lambda>p. length (pa_Series p) = 1 \<and> pa_Title p \<noteq> []) (sp_Panels s) then 0
      else sum_list (List.map (\<lambda>p. length (pa_Series p)) (sp_Panels s)))"

definition layoutRose :: "f64 \<Rightarrow> f64 \<Rightarrow> layout \<Rightarrow> layout" where
  "layoutRose topY bottom l =
     (let area = \<lparr>r_x = gutter, r_y = topY, r_w = fsub (ly_width l) (Fin 32), r_h = fsub bottom topY\<rparr> in
      l\<lparr>ly_roseCentre := mk_pt (fadd (r_x area) (fdiv (r_w area) (Fin 2))) (fadd (r_y area) (fdiv (r_h area) (Fin 2))),
        ly_roseRadius := fmax (Fin 20) (fsub (fdiv (fmin (r_w area) (r_h area)) (Fin 2)) (Fin (33/2)))\<rparr>)"

text \<open>The title block, and the height below it; the footer, and the bottom above it.\<close>

definition layout_head :: "Spec \<Rightarrow> layout \<Rightarrow> layout \<times> f64" where
  "layout_head s l =
     (let y = gutter;
          (l, y) = (if sp_Title s \<noteq> [] then (l\<lparr>ly_titleAt := mk_pt gutter (fadd y (textHeight sizeTitle))\<rparr>,
              fadd y (fadd (textHeight sizeTitle) titleGap)) else (l, y));
          (l, y) = (if sp_Subtitle s \<noteq> [] then (l\<lparr>ly_subtitleAt := mk_pt gutter (fadd y (textHeight sizeSubtitle))\<rparr>,
              fadd y (fadd (textHeight sizeSubtitle) titleGap)) else (l, y))
      in if legendEntryCount s \<ge> 2 then (l\<lparr>ly_legendAt := mk_pt gutter (fadd y (textHeight sizeLegend)),
             ly_legendW := fsub (ly_width l) (Fin 32)\<rparr>, fadd y (fadd (textHeight sizeLegend) legendGap))
         else (l, y))"

definition layout_foot :: "Spec \<Rightarrow> layout \<Rightarrow> layout \<times> f64" where
  "layout_foot s l =
     (let bottom = fsub (ly_height l) gutter in
      if sp_Source s \<noteq> [] \<or> sp_Generated s \<noteq> None
      then (l\<lparr>ly_hasFooter := True, ly_footerAt := mk_pt gutter bottom\<rparr>, fsub bottom footerH)
      else (l, bottom))"

definition y_axis_width :: "metrics \<Rightarrow> Spec \<Rightarrow> f64" where
  "y_axis_width M s =
     foldl (\<lambda>w p. foldl (\<lambda>w t. fmax w (measureText M (tk_Label t) sizeAxis False)) w (ax_Ticks (pa_Y p))) (Fin 0) (sp_Panels s)"

definition right_pad :: "metrics \<Rightarrow> Spec \<Rightarrow> f64" where
  "right_pad M s =
     (if ax_Ticks (sp_X s) = [] then gutter
      else fmax gutter (fadd (fdiv (measureText M (tk_Label (last (ax_Ticks (sp_X s)))) sizeAxis False) (Fin 2)) (Fin 4)))"

text \<open>The panels from the top on; an untitled panel keeps the zero point for its title.\<close>

fun layout_panels :: "f64 \<Rightarrow> f64 \<Rightarrow> f64 \<Rightarrow> f64 \<Rightarrow> f64 \<Rightarrow> Panel list \<Rightarrow> (rect \<times> Pt) list" where
  "layout_panels left plotW avail totalWeight topY [] = []"
| "layout_panels left plotW avail totalWeight topY (p # ps) =
     (let (titleAt, topY) = (if panelTitle p \<noteq> [] then (mk_pt left (fadd topY (textHeight sizeAxis)), fadd topY panelTitleH)
            else (mk_pt (Fin 0) (Fin 0), topY));
          h = fdiv (fmul avail (panelWeight p)) totalWeight
      in (\<lparr>r_x = left, r_y = topY, r_w = plotW, r_h = h\<rparr>, titleAt)
         # layout_panels left plotW avail totalWeight (fadd topY (fadd h panelGap)) ps)"

definition computeLayout :: "metrics \<Rightarrow> Spec \<Rightarrow> layout" where
  "computeLayout M s =
     (let (l, y) = layout_head s (new_layout (f_of_int (sp_Width s)) (f_of_int (sp_Height s)));
          (l, bottom) = layout_foot s l in
      if sp_Kind s = KindWindrose then layoutRose y bottom l
      else
        (let n = length (sp_Panels s);
             plotBottom = fsub bottom xAxisH;
             left = fadd (fadd (fadd gutter (y_axis_width M s)) yLabelGap) tickLen;
             plotW = fsub (fsub (ly_width l) left) (right_pad M s);
             totalWeight = foldl (\<lambda>w p. fadd w (panelWeight p)) (Fin 0) (sp_Panels s);
             titled = length (filter (\<lambda>p. panelTitle p \<noteq> []) (sp_Panels s));
             gaps = fmul panelGap (f_of_int (int n - 1));
             avail = fsub (fsub (fsub plotBottom y) gaps) (fmul panelTitleH (f_of_int (int titled)));
             avail = fmax avail (fmul (f_of_int (int n)) minPanelHeight);
             cells = layout_panels left plotW avail totalWeight y (sp_Panels s)
         in l\<lparr>ly_xAxisLabelY := fsub bottom (fdiv (textHeight sizeAxis) (Fin 2)), ly_plots := List.map fst cells,
              ly_panelTitleAt := List.map snd cells\<rparr>))"

end
