(* ===== verification/ChartPaint.thy ===== *)
theory ChartPaint
  imports ChartLayout
begin

text \<open>
  The drawing of a resolved specification (\<open>Build\<close> of \<open>src/chart/build.go\<close>, \<open>buildRose\<close> of
  \<open>windrose.go\<close>) and the entry points \<open>Render\<close> and \<open>Encode\<close>. A step appends operations to the drawing;
  a result \<open>None\<close> is a panic.
\<close>

text \<open>The steps of a loop over a list, in order.\<close>

fun for_each :: "('a \<Rightarrow> Drawing \<Rightarrow> Drawing) \<Rightarrow> 'a list \<Rightarrow> Drawing \<Rightarrow> Drawing" where
  "for_each f [] d = d"
| "for_each f (x # xs) d = for_each f xs (f x d)"

subsection \<open>Title block, legend and footer\<close>

definition swatch :: f64 where "swatch = Fin 10"

fun legend_entries :: "metrics \<Rightarrow> f64 \<Rightarrow> f64 \<Rightarrow> f64 \<Rightarrow> Series list \<Rightarrow> Drawing \<Rightarrow> Drawing" where
  "legend_entries M legendY limit x [] d = d"
| "legend_entries M legendY limit x (ser # sers) d =
     (let w = fadd (Fin 15) (measureText M (se_Name ser) sizeLegend False) in
      if fgt (fadd x w) limit then d
      else let cy = fsub legendY (fdiv (textHeight sizeLegend) (Fin 2));
               d = draw_rect x (fsub cy (Fin 5)) swatch swatch (se_Color ser) (Fin 1) d;
               d = draw_text (se_Name ser) (fadd (fadd x swatch) (Fin 5)) legendY sizeLegend False (rp_InkSecondary (dr_Palette d)) (Fin 0) (Fin 1) d
           in legend_entries M legendY limit (fadd x (fadd w (Fin 14))) sers d)"

definition legend :: "metrics \<Rightarrow> Spec \<Rightarrow> layout \<Rightarrow> Drawing \<Rightarrow> Drawing" where
  "legend M s l d =
     legend_entries M (pY (ly_legendAt l)) (fadd (pX (ly_legendAt l)) (ly_legendW l)) (pX (ly_legendAt l))
       (List.concat (List.map pa_Series (sp_Panels s))) d"

fun rose_legend_entries :: "metrics \<Rightarrow> f64 \<Rightarrow> f64 \<Rightarrow> string list \<Rightarrow> f64 \<Rightarrow> int \<Rightarrow> string list \<Rightarrow> Drawing \<Rightarrow> Drawing option" where
  "rose_legend_entries M legendY limit colors x i [] d = Some d"
| "rose_legend_entries M legendY limit colors x i (label # labels) d =
     (let w = fadd (Fin 15) (measureText M label sizeLegend False) in
      if fgt (fadd x w) limit then Some d
      else let cy = fsub legendY (fdiv (textHeight sizeLegend) (Fin 2)) in
        Option.bind (slice_at colors i) (\<lambda>color.
          let d = draw_rect x (fsub cy (Fin 5)) swatch swatch color (Fin 1) d;
              d = draw_text label (fadd (fadd x swatch) (Fin 5)) legendY sizeLegend False (rp_InkSecondary (dr_Palette d)) (Fin 0) (Fin 1) d
          in rose_legend_entries M legendY limit colors (fadd x (fadd w (Fin 12))) (i + 1) labels d))"

definition roseLegend :: "metrics \<Rightarrow> Spec \<Rightarrow> layout \<Rightarrow> Drawing \<Rightarrow> Drawing option" where
  "roseLegend M s l d =
     Option.bind (sp_Windrose s) (\<lambda>opts.
       rose_legend_entries M (pY (ly_legendAt l)) (fadd (pX (ly_legendAt l)) (ly_legendW l)) (wo_BandColors opts)
         (pX (ly_legendAt l)) 0 (wo_BandLabels opts) d)"

definition middle_dot :: string where "middle_dot = [CHR '' '', CHR 0xC2, CHR 0xB7, CHR '' '']"

definition footer_line :: "Spec \<Rightarrow> string" where
  "footer_line s =
     (case sp_Generated s of None \<Rightarrow> sp_Source s
      | Some t \<Rightarrow> (if sp_Source s \<noteq> [] then sp_Source s @ middle_dot else sp_Source s) @ format_stamp_utc t)"

definition footer :: "metrics \<Rightarrow> Spec \<Rightarrow> layout \<Rightarrow> Drawing \<Rightarrow> Drawing" where
  "footer M s l d =
     draw_text (truncateToWidth M (footer_line s) sizeFooter False (fsub (ly_width l) (Fin 32))) (pX (ly_footerAt l)) (pY (ly_footerAt l))
       sizeFooter False (rp_InkMuted (dr_Palette d)) (Fin 0) (Fin 1) d"

definition chrome :: "metrics \<Rightarrow> Spec \<Rightarrow> layout \<Rightarrow> Drawing \<Rightarrow> Drawing option" where
  "chrome M s l d =
     (let fits = fsub (ly_width l) (Fin 32);
          d = (if sp_Title s \<noteq> [] then draw_text (truncateToWidth M (sp_Title s) sizeTitle True fits) (pX (ly_titleAt l)) (pY (ly_titleAt l))
                sizeTitle True (rp_InkPrimary (dr_Palette d)) (Fin 0) (Fin 1) d else d);
          d = (if sp_Subtitle s \<noteq> [] then draw_text (truncateToWidth M (sp_Subtitle s) sizeSubtitle False fits)
                (pX (ly_subtitleAt l)) (pY (ly_subtitleAt l)) sizeSubtitle False (rp_InkSecondary (dr_Palette d)) (Fin 0) (Fin 1) d else d)
      in Option.bind (if sp_Kind s = KindWindrose then roseLegend M s l d
           else Some (if legendEntryCount s \<ge> 2 then legend M s l d else d)) (\<lambda>d.
         Some (if ly_hasFooter l then footer M s l d else d)))"

subsection \<open>Panels\<close>

text \<open>The domain of a resolved panel: both ends are set, a nil pointer panics.\<close>

definition y_ends :: "Panel \<Rightarrow> (f64 \<times> f64) option" where
  "y_ends p = (case (ax_Min (pa_Y p), ax_Max (pa_Y p)) of (Some a, Some b) \<Rightarrow> Some (a, b) | _ \<Rightarrow> None)"

definition draw_band :: "f64 \<Rightarrow> f64 \<Rightarrow> rect \<Rightarrow> linearScale \<Rightarrow> Band \<Rightarrow> Drawing \<Rightarrow> Drawing" where
  "draw_band lo hi plot y b d =
     (let from = (case bd_From b of Some v \<Rightarrow> fmax lo v | None \<Rightarrow> lo);
          upto = (case bd_To b of Some v \<Rightarrow> fmin hi v | None \<Rightarrow> hi) in
      if fle upto from then d
      else draw_rect (r_x plot) (linear_at y upto) (r_w plot) (fsub (linear_at y from) (linear_at y upto)) (bd_Color b) thresholdAlpha d)"

definition panelBackground :: "f64 \<Rightarrow> f64 \<Rightarrow> Panel \<Rightarrow> rect \<Rightarrow> linearScale \<Rightarrow> Drawing \<Rightarrow> Drawing" where
  "panelBackground lo hi p plot y d = for_each (draw_band lo hi plot y) (pa_Bands p) d"

definition tick_instant :: "chart_libs \<Rightarrow> Tick \<Rightarrow> gotime" where
  "tick_instant L t = time_utc (of_unix_milli (to_int64 (cl_oob L) (tk_Value t)))"

definition draw_y_tick :: "f64 \<Rightarrow> f64 \<Rightarrow> rect \<Rightarrow> linearScale \<Rightarrow> Tick \<Rightarrow> Drawing \<Rightarrow> Drawing" where
  "draw_y_tick lo hi plot y t d =
     (if flt (tk_Value t) lo \<or> fgt (tk_Value t) hi then d
      else let py = fadd (fround (linear_at y (tk_Value t))) (Fin (1/2));
               d = polyline [mk_pt (r_x plot) py, mk_pt (rect_right plot) py] (rp_Gridline (dr_Palette d)) hairline d
           in draw_text (tk_Label t) (fsub (r_x plot) yLabelGap) py sizeAxis False (rp_InkMuted (dr_Palette d)) (Fin 1) (Fin (1/2)) d)"

definition draw_x_line :: "chart_libs \<Rightarrow> rect \<Rightarrow> timeScale \<Rightarrow> Tick \<Rightarrow> Drawing \<Rightarrow> Drawing" where
  "draw_x_line L plot x t d =
     (let px = fadd (fround (time_at x (tick_instant L t))) (Fin (1/2)) in
      if flt px (r_x plot) \<or> fgt px (rect_right plot) then d
      else polyline [mk_pt px (r_y plot), mk_pt px (rect_bottom plot)] (rp_Gridline (dr_Palette d)) hairline d)"

definition panelGrid :: "chart_libs \<Rightarrow> Spec \<Rightarrow> f64 \<Rightarrow> f64 \<Rightarrow> Panel \<Rightarrow> rect \<Rightarrow> timeScale \<Rightarrow> linearScale \<Rightarrow> Drawing \<Rightarrow> Drawing" where
  "panelGrid L s lo hi p plot x y d =
     (let d = for_each (draw_y_tick lo hi plot y) (ax_Ticks (pa_Y p)) d;
          d = for_each (draw_x_line L plot x) (ax_Ticks (sp_X s)) d;
          base = (if flt lo (Fin 0) \<and> fgt hi (Fin 0) then linear_at y (Fin 0) else rect_bottom plot)
      in polyline [mk_pt (r_x plot) base, mk_pt (rect_right plot) base] (rp_Baseline (dr_Palette d)) hairline d)"

definition draw_x_label :: "chart_libs \<Rightarrow> layout \<Rightarrow> rect \<Rightarrow> timeScale \<Rightarrow> Tick \<Rightarrow> Drawing \<Rightarrow> Drawing" where
  "draw_x_label L l lst x t d =
     (let px = time_at x (tick_instant L t) in
      if flt px (fsub (r_x lst) (Fin 1)) \<or> fgt px (fadd (rect_right lst) (Fin 1)) then d
      else let d = polyline [mk_pt px (rect_bottom lst), mk_pt px (fadd (rect_bottom lst) tickLen)] (rp_Baseline (dr_Palette d)) hairline d
           in draw_text (tk_Label t) px (ly_xAxisLabelY l) sizeAxis False (rp_InkMuted (dr_Palette d)) (Fin (1/2)) (Fin (1/2)) d)"

definition xAxis :: "chart_libs \<Rightarrow> gotime \<Rightarrow> Spec \<Rightarrow> layout \<Rightarrow> Drawing \<Rightarrow> Drawing" where
  "xAxis L now0 s l d =
     (if ly_plots l = [] then d
      else let lst = last (ly_plots l); (t0, t1) = xTimeDomain L now0 s;
               x = \<lparr>ts_t0 = t0, ts_t1 = t1, ts_r0 = r_x lst, ts_r1 = rect_right lst\<rparr>
           in for_each (draw_x_label L l lst x) (ax_Ticks (sp_X s)) d)"

subsection \<open>Marks\<close>

text \<open>The stretches of consecutive reported values; \<open>cur\<close> is the open one.\<close>

fun runs_from :: "nat \<Rightarrow> nat list \<Rightarrow> Point list \<Rightarrow> nat list list" where
  "runs_from i cur [] = (if cur \<noteq> [] then [cur] else [])"
| "runs_from i cur (pt # pts) =
     (if pt_Value pt = None then (if cur \<noteq> [] then cur # runs_from (Suc i) [] pts else runs_from (Suc i) cur pts)
      else runs_from (Suc i) (cur @ [i]) pts)"

definition runs :: "Point list \<Rightarrow> nat list list" where "runs pts = runs_from 0 [] pts"

text \<open>The corners of a run; a step holds the previous height until the next sample.\<close>

fun step_corners :: "Pt list \<Rightarrow> Pt list" where
  "step_corners (a # b # ps) = a # mk_pt (pX b) (pY a) # step_corners (b # ps)"
| "step_corners ps = ps"

definition run_points :: "Series \<Rightarrow> timeScale \<Rightarrow> linearScale \<Rightarrow> nat list \<Rightarrow> Pt list" where
  "run_points ser x y run =
     List.map (\<lambda>i. let pt = se_Points ser ! i in mk_pt (time_at x (pt_Time pt)) (linear_at y (the (pt_Value pt)))) run"

definition draw_run :: "Series \<Rightarrow> timeScale \<Rightarrow> linearScale \<Rightarrow> bool \<Rightarrow> nat list \<Rightarrow> Drawing \<Rightarrow> Drawing" where
  "draw_run ser x y step run d =
     (let pts = (if step then step_corners (run_points ser x y run) else run_points ser x y run) in
      case pts of
        [p] \<Rightarrow> circle (pX p) (pY p) markerRadius (se_Color ser) markerRing (rp_Surface (dr_Palette d)) d
      | _ \<Rightarrow> polyline pts (se_Color ser) lineWidth d)"

definition lineMark :: "Series \<Rightarrow> timeScale \<Rightarrow> linearScale \<Rightarrow> bool \<Rightarrow> Drawing \<Rightarrow> Drawing" where
  "lineMark ser x y step d = for_each (draw_run ser x y step) (runs (se_Points ser)) d"

definition bandMark :: "Series \<Rightarrow> timeScale \<Rightarrow> linearScale \<Rightarrow> Drawing \<Rightarrow> Drawing" where
  "bandMark ser x y d =
     (let pts = filter (\<lambda>pt. pt_Low pt \<noteq> None \<and> pt_High pt \<noteq> None) (se_Points ser);
          upper = List.map (\<lambda>pt. mk_pt (time_at x (pt_Time pt)) (linear_at y (the (pt_High pt)))) pts;
          lower = List.map (\<lambda>pt. mk_pt (time_at x (pt_Time pt)) (linear_at y (the (pt_Low pt)))) pts;
          d = (if length upper \<ge> 2 then polygon (upper @ rev lower) (se_Color ser) bandAlpha [] (Fin 0) d else d)
      in lineMark ser x y False d)"

definition pointsDomainMin :: "Series \<Rightarrow> f64" where
  "pointsDomainMin ser =
     (let lo = foldl fmin PosInf (List.map_filter pt_Value (se_Points ser)) in if lo = PosInf then Fin 0 else lo)"

definition bar_width :: "Series \<Rightarrow> rect \<Rightarrow> f64" where
  "bar_width ser plot =
     (let slot = fdiv (r_w plot) (fmax (f_of_int (int (length (se_Points ser)) - 1)) (Fin 1))
      in fmin (fmax (fsub slot (Fin 2)) (Fin 1)) barCap)"

definition draw_bar :: "Series \<Rightarrow> rect \<Rightarrow> timeScale \<Rightarrow> linearScale \<Rightarrow> f64 \<Rightarrow> f64 \<Rightarrow> Point \<Rightarrow> Drawing \<Rightarrow> Drawing" where
  "draw_bar ser plot x y w base pt d =
     (case pt_Value pt of None \<Rightarrow> d
      | Some v \<Rightarrow>
          (let cx = time_at x (pt_Time pt);
               left = fmax (fsub cx (fdiv w (Fin 2))) (r_x plot);
               right = fmin (fadd cx (fdiv w (Fin 2))) (rect_right plot);
               topY = linear_at y v
           in roundedTopRect left topY (fsub right left) (fsub base topY) barRadius (se_Color ser) d))"

definition barMark :: "Series \<Rightarrow> rect \<Rightarrow> timeScale \<Rightarrow> linearScale \<Rightarrow> Drawing \<Rightarrow> Drawing" where
  "barMark ser plot x y d =
     (if list_all (\<lambda>pt. pt_Value pt = None) (se_Points ser) then d
      else let base = (if fgt (pointsDomainMin ser) (Fin 0) then rect_bottom plot else linear_at y (Fin 0))
           in for_each (draw_bar ser plot x y (bar_width ser plot) base) (se_Points ser) d)"

definition endMarker :: "chart_libs \<Rightarrow> metrics \<Rightarrow> Series \<Rightarrow> timeScale \<Rightarrow> linearScale \<Rightarrow> nat \<Rightarrow> rect \<Rightarrow> Drawing \<Rightarrow> Drawing" where
  "endMarker L M ser x y seriesInPanel plot d =
     (case filter (\<lambda>pt. pt_Value pt \<noteq> None) (se_Points ser) of
        [] \<Rightarrow> d
      | reported \<Rightarrow>
          (let pt = last reported; v = the (pt_Value pt); px = time_at x (pt_Time pt); py = linear_at y v;
               d = circle px py markerRadius (se_Color ser) markerRing (rp_Surface (dr_Palette d)) d;
               label = FormatValue (cl_unicode L) (cl_shortest L) (se_Parameter ser) v;
               label = (if se_Unit ser \<noteq> [] then label @ '' '' @ se_Unit ser else label)
           in if seriesInPanel > 2 then d
              else if fgt (measureText M label sizeAxis True) (fdiv (r_w plot) (Fin 3)) then d
              else draw_text label (fsub (fsub px markerRadius) (Fin 4)) (fsub (fsub py markerRadius) (Fin 2)) sizeAxis True
                (rp_InkSecondary (dr_Palette d)) (Fin 1) (Fin 1) d))"

definition draw_series :: "chart_libs \<Rightarrow> metrics \<Rightarrow> rect \<Rightarrow> timeScale \<Rightarrow> linearScale \<Rightarrow> nat \<Rightarrow> Series \<Rightarrow> Drawing \<Rightarrow> Drawing" where
  "draw_series L M plot x y seriesInPanel ser d =
     (if se_Mark ser = MarkBand then bandMark ser x y d
      else if se_Mark ser = MarkBar then barMark ser plot x y d
      else if se_Mark ser = MarkStep then endMarker L M ser x y seriesInPanel plot (lineMark ser x y True d)
      else endMarker L M ser x y seriesInPanel plot (lineMark ser x y False d))"

definition draw_panel :: "chart_libs \<Rightarrow> metrics \<Rightarrow> Spec \<Rightarrow> gotime \<Rightarrow> gotime \<Rightarrow> Panel \<Rightarrow> rect \<Rightarrow> Pt \<Rightarrow> Drawing \<Rightarrow> Drawing option" where
  "draw_panel L M s t0 t1 p plot titleAt d =
     Option.bind (y_ends p) (\<lambda>(lo, hi).
       let x = \<lparr>ts_t0 = t0, ts_t1 = t1, ts_r0 = r_x plot, ts_r1 = rect_right plot\<rparr>;
           y = \<lparr>ls_d0 = lo, ls_d1 = hi, ls_r0 = rect_bottom plot, ls_r1 = r_y plot\<rparr>;
           d = panelBackground lo hi p plot y d;
           d = panelGrid L s lo hi p plot x y d;
           d = (if panelTitle p \<noteq> [] then draw_text (panelTitle p) (pX titleAt) (pY titleAt) sizeAxis True (rp_InkSecondary (dr_Palette d))
                  (Fin 0) (Fin 1) d else d)
       in Some (for_each (draw_series L M plot x y (length (pa_Series p))) (pa_Series p) d))"

fun draw_panels :: "chart_libs \<Rightarrow> metrics \<Rightarrow> Spec \<Rightarrow> gotime \<Rightarrow> gotime \<Rightarrow> Panel list \<Rightarrow> rect list \<Rightarrow> Pt list \<Rightarrow> Drawing \<Rightarrow> Drawing option" where
  "draw_panels L M s t0 t1 [] plots titles d = Some d"
| "draw_panels L M s t0 t1 (p # ps) (plot # plots) (title # titles) d =
     Option.bind (draw_panel L M s t0 t1 p plot title d) (draw_panels L M s t0 t1 ps plots titles)"
| "draw_panels L M s t0 t1 (p # ps) _ _ d = None"

subsection \<open>The wind rose\<close>

definition roseGap :: rat where "roseGap = 12/100"
definition arcStep :: f64 where "arcStep = Fin 3"

text \<open>\<open>math.Pi\<close> as a binary64 number.\<close>

definition pi_const :: f64 where "pi_const = Fin (884279719003555 / 281474976710656)"

definition polar :: "chart_libs \<Rightarrow> Pt \<Rightarrow> f64 \<Rightarrow> f64 \<Rightarrow> Pt" where
  "polar L c r bearingDeg =
     (let rad = fdiv (fmul bearingDeg pi_const) (Fin 180)
      in mk_pt (fadd (pX c) (fmul r (cl_sin L rad))) (fsub (pY c) (fmul r (cl_cos L rad))))"

definition wedge :: "chart_libs \<Rightarrow> Pt \<Rightarrow> f64 \<Rightarrow> f64 \<Rightarrow> f64 \<Rightarrow> f64 \<Rightarrow> Pt list" where
  "wedge L c r0 r1 fromDeg toDeg =
     (let steps = to_int64 (cl_oob L) (fmax (Fin 2) (fceil (fdiv (fsub toDeg fromDeg) arcStep)));
          angle = (\<lambda>i. fadd fromDeg (fdiv (fmul (fsub toDeg fromDeg) (f_of_int i)) (f_of_int steps)))
      in List.map (\<lambda>i. polar L c r1 (angle i)) [0..steps] @ List.map (\<lambda>i. polar L c r0 (angle i)) (rev [0..steps]))"

definition draw_ring :: "Pt \<Rightarrow> f64 \<Rightarrow> f64 \<Rightarrow> Tick \<Rightarrow> Drawing \<Rightarrow> Drawing" where
  "draw_ring c maxR scl ring d =
     (let r = fmul (fdiv (tk_Value ring) (Fin 100)) scl in
      if fgt r (fadd maxR (Fin (1/2))) then d
      else let d = strokedCircle (pX c) (pY c) r (rp_Gridline (dr_Palette d)) hairline d
           in draw_text (tk_Label ring) (fadd (pX c) (fmul r (f_const (36/100)))) (fsub (pY c) (fmul r (f_const (93/100)))) sizeFooter False
             (rp_InkMuted (dr_Palette d)) (Fin (1/2)) (Fin (1/2)) d)"

definition draw_compass :: "chart_libs \<Rightarrow> Pt \<Rightarrow> f64 \<Rightarrow> int \<times> string \<Rightarrow> Drawing \<Rightarrow> Drawing" where
  "draw_compass L c maxR e d =
     (case e of (i, name) \<Rightarrow>
       let p = polar L c (fadd maxR (fmul (textHeight sizeAxis) (f_const (9/10)))) (fmul (f_of_int i) (Fin 90))
       in draw_text name (pX p) (pY p) sizeAxis True (rp_InkSecondary (dr_Palette d)) (Fin (1/2)) (Fin (1/2)) d)"

definition roseGrid :: "chart_libs \<Rightarrow> Tick list \<Rightarrow> Pt \<Rightarrow> f64 \<Rightarrow> f64 \<Rightarrow> Drawing \<Rightarrow> Drawing" where
  "roseGrid L rings c maxR scl d =
     for_each (draw_compass L c maxR) [(0, ''N''), (1, ''E''), (2, ''S''), (3, ''W'')] (for_each (draw_ring c maxR scl) rings d)"

text \<open>The wedges, \<open>cum\<close> the radii reached so far in each sector.\<close>

fun draw_wedges :: "chart_libs \<Rightarrow> Pt \<Rightarrow> f64 \<Rightarrow> f64 \<Rightarrow> string list \<Rightarrow> f64 list \<Rightarrow> RoseBin list \<Rightarrow> Drawing \<Rightarrow> Drawing option" where
  "draw_wedges L c scl sectorWidth colors cum [] d = Some d"
| "draw_wedges L c scl sectorWidth colors cum (bin # bins) d =
     Option.bind (slice_at cum (rb_Sector bin)) (\<lambda>r.
       let r0 = fmul r scl; r1 = fmul (fadd r (rb_Fraction bin)) scl;
           cum = cum[nat (rb_Sector bin) := fadd r (rb_Fraction bin)];
           centre = fmul (f_of_int (rb_Sector bin)) sectorWidth;
           half = fmul (fdiv sectorWidth (Fin 2)) (f_const (1 - roseGap)) in
       Option.bind (slice_at colors (rb_Band bin)) (\<lambda>color.
         draw_wedges L c scl sectorWidth colors cum bins
           (polygon (wedge L c r0 r1 (fsub centre half) (fadd centre half)) color (Fin 1) [] (Fin 0) d)))"

definition rose_scale :: "WindroseOptions \<Rightarrow> f64 \<Rightarrow> f64" where
  "rose_scale opts maxR =
     (let outer = (if wo_Rings opts = [] then Fin 0 else fdiv (tk_Value (last (wo_Rings opts))) (Fin 100))
      in fdiv maxR (if fle outer (Fin 0) then Fin 1 else outer))"

definition buildRose :: "chart_libs \<Rightarrow> Spec \<Rightarrow> layout \<Rightarrow> Drawing \<Rightarrow> Drawing option" where
  "buildRose L s l d =
     Option.bind (sp_Windrose s) (\<lambda>opts.
       let c = ly_roseCentre l; maxR = ly_roseRadius l; scl = rose_scale opts maxR;
           d = roseGrid L (wo_Rings opts) c maxR scl d in
       if wo_Sectors opts < 0 then None
       else Option.bind (draw_wedges L c scl (sector_width (wo_Sectors opts)) (wo_BandColors opts)
           (replicate (nat (wo_Sectors opts)) (wo_CalmFraction opts)) (wo_Bins opts) d) (\<lambda>d.
         Some (if fgt (wo_CalmFraction opts) (Fin 0)
           then (let d = circle (pX c) (pY c) (fmul (wo_CalmFraction opts) scl) (rp_Gridline (dr_Palette d)) hairline (rp_Baseline (dr_Palette d)) d
             in draw_text (''calm '' @ FormatFloat_f (cl_shortest L) (fmul (wo_CalmFraction opts) (Fin 100)) 0 @ ''%'')
               (fsub (pX c) maxR) (fsub (pY c) maxR) sizeFooter False (rp_InkMuted (dr_Palette d)) (Fin 0) (Fin 0) d)
           else d)))"

subsection \<open>The whole drawing\<close>

definition Build :: "chart_libs \<Rightarrow> metrics \<Rightarrow> gotime \<Rightarrow> Spec \<Rightarrow> Drawing option" where
  "Build L M now0 s =
     Option.bind (sp_Palette s) (\<lambda>palette.
       let d = \<lparr>dr_Width = sp_Width s, dr_Height = sp_Height s, dr_Palette = palette, dr_Ops = []\<rparr>;
           l = computeLayout M s;
           d = draw_rect (Fin 0) (Fin 0) (ly_width l) (ly_height l) (rp_Surface palette) (Fin 1) d in
       Option.bind (chrome M s l d) (\<lambda>d.
         if sp_Kind s = KindWindrose then buildRose L s l d
         else (let (t0, t1) = xTimeDomain L now0 s in
           Option.bind (draw_panels L M s t0 t1 (sp_Panels s) (ly_plots l) (ly_panelTitleAt l) d) (\<lambda>d.
             Some (xAxis L now0 s l d)))))"

definition Render :: "chart_libs \<Rightarrow> metrics \<Rightarrow> gotime \<Rightarrow> gotime \<Rightarrow> Spec \<Rightarrow> (spec_error + Drawing) option" where
  "Render L M now0 now1 s =
     Option.bind (Resolved L now0 now1 s) (\<lambda>r.
       case r of Inl e \<Rightarrow> Some (Inl e) | Inr s \<Rightarrow> map_option Inr (Build L M now0 s))"

end
