(* ===== verification/ChartTicks.thy ===== *)
theory ChartTicks
  imports ChartScale
begin

text \<open>
  Correctness of the ticks: the time ticks are consecutive multiples of their step, and grouping the
  thousands of a label loses nothing.
\<close>

subsection \<open>Time ticks\<close>

lemma time_add_add: "time_add (time_add t a) b = time_add t (a + b)"
  by (simp add: time_add_def)

lemma time_tick_loop_spec:
  assumes "0 < step" "t_ns t0 \<le> t_ns t" "65 - n < fuel" "n \<le> 64"
  shows "\<exists>k. time_tick_loop fuel L t0 t1 spn step n t = Some (List.map (\<lambda>i. time_tick L (time_add t (int i * step)) spn) [0..<k])
     \<and> k + n \<le> 65 \<and> (\<forall>i<k. t_ns t + int i * step \<le> t_ns t1) \<and> (k + n = 65 \<or> t_ns t1 < t_ns t + int k * step)"
  using assms(2-)
proof (induction fuel arbitrary: n t)
  case (Suc fuel)
  show ?case
  proof (cases "time_after t t1")
    case True
    then show ?thesis using Suc.prems by (intro exI[of _ 0]) (simp add: time_after_def)
  next
    case False
    note here = False
    have skip: "\<not> time_after t0 t" using Suc.prems by (simp add: time_after_def)
    show ?thesis
    proof (cases "n = 64")
      case True
      then show ?thesis using here skip by (intro exI[of _ 1]) (simp add: time_after_def time_add_def)
    next
      case False
      let ?u = "time_add t step"
      have "t_ns t0 \<le> t_ns ?u" "65 - Suc n < fuel" "Suc n \<le> 64" using Suc.prems assms(1) False by simp_all
      from Suc.IH[OF this] obtain k where k:
        "time_tick_loop fuel L t0 t1 spn step (Suc n) ?u = Some (List.map (\<lambda>i. time_tick L (time_add ?u (int i * step)) spn) [0..<k])"
        "k + Suc n \<le> 65" "\<forall>i<k. t_ns ?u + int i * step \<le> t_ns t1" "k + Suc n = 65 \<or> t_ns t1 < t_ns ?u + int k * step"
        by blast
      have list: "time_tick L t spn # List.map (\<lambda>i. time_tick L (time_add ?u (int i * step)) spn) [0..<k]
          = List.map (\<lambda>i. time_tick L (time_add t (int i * step)) spn) [0..<Suc k]"
        by (simp only: upt_conv_Cons[of 0 "Suc k"] List.list.map map_Suc_upt[symmetric] List.map_map o_def)
          (simp add: time_add_add algebra_simps time_add_def)
      have "t_ns t + int i * step \<le> t_ns t1" if "i < Suc k" for i
        using that k(3) here by (cases i) (auto simp: time_after_def algebra_simps)
      then show ?thesis
        using here skip False k Suc.prems list
        by (intro exI[of _ "Suc k"]) (auto simp: algebra_simps)
    qed
  qed
qed simp

lemma tick_step_pos: "tick_step spn \<in> set timeTickSteps" "0 < tick_step spn"
proof -
  show m: "tick_step spn \<in> set timeTickSteps"
  proof (cases "filter (\<lambda>cand. spn sdiv cand \<le> targetTicks) timeTickSteps")
    case Nil
    then show ?thesis by (simp add: tick_step_def timeTickSteps_def)
  next
    case (Cons c cs)
    then have "c \<in> set timeTickSteps" by (metis filter_is_subset list.set_intros(1) subsetD)
    then show ?thesis using Cons by (simp add: tick_step_def)
  qed
  have "list_all (\<lambda>s. 0 < s) timeTickSteps" by code_simp
  then show "0 < tick_step spn" using m by (auto simp: list_all_iff)
qed

lemma tick_step_fits:
  assumes "0 < spn" "spn < 7 * (30 * 24 * Hour)" shows "spn < 7 * tick_step spn"
proof -
  have c: "filter (\<lambda>cand. spn sdiv cand \<le> targetTicks) timeTickSteps \<noteq> []"
  proof -
    have "spn div (30 * 24 * Hour) < 7" by (rule div_lessI) (use assms in auto)
    then have "spn sdiv (30 * 24 * Hour) \<le> targetTicks" using assms(1) by (simp add: sdiv_pos targetTicks_def)
    moreover have "30 * 24 * Hour \<in> set timeTickSteps" by (simp add: timeTickSteps_def)
    ultimately show ?thesis by (auto simp: filter_empty_conv)
  qed
  then obtain a cs where a: "filter (\<lambda>cand. spn sdiv cand \<le> targetTicks) timeTickSteps = a # cs"
    by (cases "filter (\<lambda>cand. spn sdiv cand \<le> targetTicks) timeTickSteps") auto
  then have "a \<in> set (filter (\<lambda>cand. spn sdiv cand \<le> targetTicks) timeTickSteps)" by simp
  then have "spn sdiv tick_step spn \<le> 6" using a by (simp add: tick_step_def targetTicks_def)
  then have "spn div tick_step spn \<le> 6" using sdiv_pos[of spn "tick_step spn"] assms(1) tick_step_pos(2) by simp
  then have "tick_step spn * (spn div tick_step spn) \<le> tick_step spn * 6"
    using tick_step_pos(2)[of spn] by (intro mult_left_mono) auto
  then show ?thesis using div_bounds[OF tick_step_pos(2), of spn spn] by linarith
qed

text \<open>The least multiple of the step, counted from the zero time, that is not before \<open>t0\<close>.\<close>

definition first_tick :: "duration \<Rightarrow> gotime \<Rightarrow> gotime" where
  "first_tick step t0 = t0\<lparr>t_ns := t_ns t0 + (t_ns zero_time - t_ns t0) mod step\<rparr>"

lemma first_tick:
  assumes "0 < step"
  shows "t_ns t0 \<le> t_ns (first_tick step t0)" "t_ns (first_tick step t0) < t_ns t0 + step"
    "first_tick step t0 = (if (t_ns t0 - t_ns zero_time) mod step = 0 then time_truncate t0 step
       else time_add (time_truncate t0 step) step)"
proof -
  show "t_ns t0 \<le> t_ns (first_tick step t0)" "t_ns (first_tick step t0) < t_ns t0 + step"
    using assms pos_mod_bound[of step "t_ns zero_time - t_ns t0"] by (simp_all add: first_tick_def)
  have "(t_ns zero_time - t_ns t0) mod step
      = (if (t_ns t0 - t_ns zero_time) mod step = 0 then 0 else step - (t_ns t0 - t_ns zero_time) mod step)"
    using zmod_zminus1_eq_if[of "t_ns t0 - t_ns zero_time" step] by simp
  then show "first_tick step t0 = (if (t_ns t0 - t_ns zero_time) mod step = 0 then time_truncate t0 step
       else time_add (time_truncate t0 step) step)"
    using assms by (simp add: first_tick_def time_truncate_def time_add_def algebra_simps)
qed

lemma timeTicks_loop:
  assumes "t_ns t0 < t_ns t1"
  defines "spn \<equiv> time_sub t1 t0"
  defines "step \<equiv> tick_step spn"
  defines "t \<equiv> first_tick step t0"
  obtains k where "timeTicks L t0 t1 = Some (List.map (\<lambda>i. time_tick L (time_add t (int i * step)) spn) [0..<k])"
    "k \<le> 65" "\<forall>i<k. t_ns t + int i * step \<le> t_ns t1" "k = 65 \<or> t_ns t1 < t_ns t + int k * step"
proof -
  have spn: "0 < spn" using assms(1) by (simp add: spn_def time_sub_def)
  have step: "0 < step" "step \<in> set timeTickSteps" using tick_step_pos by (simp_all add: step_def)
  note ft = first_tick[OF step(1), of t0, folded t_def]
  obtain fuel where loop: "time_tick_loop 67 L t0 t1 spn step 0 (time_truncate t0 step) = time_tick_loop fuel L t0 t1 spn step 0 t
      \<or> time_after (time_truncate t0 step) t1" "65 < fuel"
  proof (cases "(t_ns t0 - t_ns zero_time) mod step = 0")
    case True
    then show thesis using that[of 67] ft(3) by simp
  next
    case False
    then have t: "t = time_add (time_truncate t0 step) step" using ft(3) by simp
    have "time_truncate t0 step = t0\<lparr>t_ns := t_ns t0 - (t_ns t0 - t_ns zero_time) mod step\<rparr>"
      using step(1) by (simp add: time_truncate_def)
    then have "time_after t0 (time_truncate t0 step)" using False pos_mod_sign[OF step(1), of "t_ns t0 - t_ns zero_time"]
      by (simp add: time_after_def less_le)
    moreover have "\<not> time_after (time_truncate t0 step) t1"
      using assms(1) t_ns_time_truncate(2)[OF step(1), of t0] by (simp add: time_after_def)
    ultimately have "time_tick_loop (Suc 66) L t0 t1 spn step 0 (time_truncate t0 step) = time_tick_loop 66 L t0 t1 spn step 0 t"
      by (simp only: time_tick_loop.simps if_False if_True t)
    then show thesis using that[of 66] by simp
  qed
  have "\<not> time_after (time_truncate t0 step) t1"
    using assms(1) t_ns_time_truncate(2)[OF step(1), of t0] by (simp add: time_after_def)
  then have eq: "timeTicks L t0 t1 = time_tick_loop fuel L t0 t1 spn step 0 t"
    using loop(1) spn by (simp add: timeTicks_def Let_def flip: spn_def step_def)
  obtain k where k: "time_tick_loop fuel L t0 t1 spn step 0 t = Some (List.map (\<lambda>i. time_tick L (time_add t (int i * step)) spn) [0..<k])"
    "k \<le> 65" "\<forall>i<k. t_ns t + int i * step \<le> t_ns t1" "k = 65 \<or> t_ns t1 < t_ns t + int k * step"
    using time_tick_loop_spec[OF step(1) ft(1), of 0 fuel L t1 spn] loop(2) by auto
  show thesis using that k eq by simp
qed

text \<open>The clock on the wall of a location, in nanoseconds since midnight of 1 January of the year 1, and
  the locations whose offset from UTC is, throughout an interval, a whole number of steps: UTC for
  every step, a zone at a whole number of hours for steps of up to an hour, and so on.\<close>

definition wall_ns :: "chart_libs \<Rightarrow> gotime \<Rightarrow> int" where
  "wall_ns L t = t_ns t - t_ns zero_time + loc_offset (cl_zone L) t * Second"

definition whole_step_offset :: "chart_libs \<Rightarrow> duration \<Rightarrow> gotime \<Rightarrow> gotime \<Rightarrow> bool" where
  "whole_step_offset L step t0 t1 \<longleftrightarrow>
     (\<forall>t. t_loc t = t_loc t0 \<and> t_ns t0 \<le> t_ns t \<and> t_ns t \<le> t_ns t1 \<longrightarrow> step dvd loc_offset (cl_zone L) t * Second)"

lemma whole_step_offset_utc: "t_loc t0 = UTC \<Longrightarrow> whole_step_offset L step t0 t1"
  by (simp add: whole_step_offset_def loc_offset_def)

lemma wall_ns_multiple:
  assumes "whole_step_offset L step t0 t1" "t_loc t = t_loc t0" "t_ns t0 \<le> t_ns t" "t_ns t \<le> t_ns t1"
  shows "step dvd wall_ns L t \<longleftrightarrow> step dvd t_ns t - t_ns zero_time"
  using assms unfolding whole_step_offset_def wall_ns_def by (meson dvd_add_left_iff)

lemma zero_time_midnight: "86400 * Second dvd t_ns zero_time"
  unfolding dvd_eq_mod_eq_0 by code_simp

lemma wall_clock_whole:
  assumes "d * Second dvd wall_ns L t" "d dvd 86400" shows "d dvd clock_seconds (cl_zone L) t"
proof -
  have "d * Second dvd 86400 * Second" using assms(2) by (intro mult_dvd_mono) auto
  then have "d * Second dvd t_ns zero_time" using zero_time_midnight by (rule dvd_trans)
  from dvd_add[OF assms(1) this] obtain q where q: "t_ns t + loc_offset (cl_zone L) t * Second = d * Second * q"
    by (auto simp: wall_ns_def elim!: dvdE)
  have "clock_seconds (cl_zone L) t = (t_ns t + loc_offset (cl_zone L) t * Second) div Second"
    by (simp add: clock_seconds_def)
  also have "\<dots> = d * q" by (simp add: q)
  finally show ?thesis by simp
qed

lemma first_tick_multiple: "step dvd t_ns (first_tick step t0) - t_ns zero_time"
proof -
  have "t_ns (first_tick step t0) - t_ns zero_time = - (t_ns zero_time - t_ns t0 - (t_ns zero_time - t_ns t0) mod step)"
    by (simp add: first_tick_def)
  then show ?thesis by (simp add: minus_mod_eq_mult_div)
qed

lemma tick_reached:
  assumes "0 < step" "t_loc t = t_loc t0" "t_ns t0 \<le> t_ns t" "t_ns t \<le> t_ns t1" "step dvd t_ns t - t_ns zero_time"
    and "t_ns t1 < t_ns (first_tick step t0) + int k * step"
  shows "\<exists>i<k. t = time_add (first_tick step t0) (int i * step)"
proof -
  let ?f = "t_ns (first_tick step t0)"
  obtain q where q: "t_ns t - ?f = step * q"
    using dvd_diff[OF assms(5) first_tick_multiple[of step t0]] by (auto elim: dvdE)
  have "?f < t_ns t + step" using first_tick(2)[OF assms(1), of t0] assms(3) by linarith
  then have "step * (-1) < step * q" using q by simp
  then have "0 \<le> q" using assms(1) by (simp only: mult_less_cancel_left_pos)
  moreover have "step * q < step * int k" using q assms(4,6) by (simp add: mult.commute)
  then have "q < int k" using assms(1) by (simp only: mult_less_cancel_left_pos)
  moreover have "t = time_add (first_tick step t0) (q * step)"
    using q assms(2) by (simp add: time_add_def first_tick_def algebra_simps)
  ultimately show ?thesis by (intro exI[of _ "nat q"]) simp
qed

text \<open>C31. The time axis is ticked on every whole unit of the clock in the location of the start. Let the
  interval be non-empty and the location's offset from UTC be a whole number of steps throughout it, as
  in UTC. Then \<open>timeTicks\<close> returns, and its ticks are instants of that location, consecutive at
  the chosen step from the first one not before the start, none after the end, each at a whole number of
  steps on the local clock: at full local hours for steps of whole hours and at local midnight for steps
  of whole days. There are at most 65, and unless there are 65 they are all the instants of the interval
  at such a reading of the clock; an interval of less than 210 days has at most 7.\<close>

theorem timeTicks_exact:
  assumes "t_ns t0 < t_ns t1"
  defines "spn \<equiv> time_sub t1 t0" and "step \<equiv> tick_step (time_sub t1 t0)"
  assumes "whole_step_offset L step t0 t1"
  shows "\<exists>ts. timeTicks L t0 t1 = Some (List.map (\<lambda>t. time_tick L t spn) ts) \<and> step \<in> set timeTickSteps
      \<and> ts = List.map (\<lambda>i. time_add (first_tick step t0) (int i * step)) [0..<length ts]
      \<and> t_ns (first_tick step t0) < t_ns t0 + step
      \<and> (\<forall>t\<in>set ts. t_loc t = t_loc t0 \<and> t_ns t0 \<le> t_ns t \<and> t_ns t \<le> t_ns t1 \<and> step dvd wall_ns L t
           \<and> (Hour dvd step \<longrightarrow> clock_minute (cl_zone L) t = 0)
           \<and> (24 * Hour dvd step \<longrightarrow> clock_hour (cl_zone L) t = 0))
      \<and> length ts \<le> 65
      \<and> (length ts < 65 \<longrightarrow> (\<forall>t. t_loc t = t_loc t0 \<and> t_ns t0 \<le> t_ns t \<and> t_ns t \<le> t_ns t1 \<and> step dvd wall_ns L t
           \<longrightarrow> t \<in> set ts))
      \<and> (t_ns t1 - t_ns t0 < 210 * (24 * Hour) \<longrightarrow> length ts \<le> 7)"
proof -
  define t where "t = first_tick step t0"
  have spn: "0 < spn" using assms by (simp add: spn_def time_sub_def)
  have step: "0 < step" "step \<in> set timeTickSteps" using tick_step_pos by (simp_all add: step_def)
  note ft = first_tick[OF step(1), of t0, folded t_def]
  obtain k where eq: "timeTicks L t0 t1 = Some (List.map (\<lambda>i. time_tick L (time_add t (int i * step)) spn) [0..<k])"
    and k: "k \<le> 65" "\<forall>i<k. t_ns t + int i * step \<le> t_ns t1" "k = 65 \<or> t_ns t1 < t_ns t + int k * step"
    unfolding t_def step_def spn_def by (rule timeTicks_loop[OF assms(1), of L])
  define ts where "ts = List.map (\<lambda>i. time_add t (int i * step)) [0..<k]"
  have few: "k \<le> 7" if "t_ns t1 - t_ns t0 < 210 * (24 * Hour)"
  proof (rule ccontr)
    assume "\<not> k \<le> 7"
    then have "t_ns t + 7 * step \<le> t_ns t1" using k(2) by (elim allE[of _ 7]) simp
    moreover have "spn = t_ns t1 - t_ns t0" using that assms unfolding spn_def by (intro time_sub_exact) (simp add: in_int64_def)
    moreover have "spn < 7 * step" using tick_step_fits[OF spn] that calculation(2) unfolding step_def spn_def by simp
    ultimately show False using ft(1) by linarith
  qed
  have tick: "t_loc u = t_loc t0 \<and> t_ns t0 \<le> t_ns u \<and> t_ns u \<le> t_ns t1 \<and> step dvd wall_ns L u" if "u \<in> set ts" for u
  proof -
    obtain i where i: "i < k" "u = time_add t (int i * step)" using \<open>u \<in> set ts\<close> by (auto simp: ts_def)
    have u: "t_loc u = t_loc t0" "t_ns t0 \<le> t_ns u" "t_ns u \<le> t_ns t1"
      using i k(2) ft(1) step(1) by (simp_all add: t_def first_tick_def add.assoc)
    have "step dvd t_ns u - t_ns zero_time"
      using dvd_add[OF first_tick_multiple[of step t0] dvd_triv_right[of step "int i"]] by (simp add: i(2) t_def algebra_simps)
    then show ?thesis using u wall_ns_multiple[OF assms(4) u] by simp
  qed
  have clock: "(Hour dvd step \<longrightarrow> clock_minute (cl_zone L) u = 0) \<and> (24 * Hour dvd step \<longrightarrow> clock_hour (cl_zone L) u = 0)"
    if "u \<in> set ts" for u
    using wall_clock_whole[of 3600 L u] wall_clock_whole[of 86400 L u] tick[OF that, THEN conjunct2, THEN conjunct2, THEN conjunct2]
    by (auto simp: clock_minute_def clock_hour_def dest!: dvd_trans[of _ step "wall_ns L u"])
  have all: "u \<in> set ts" if "k < 65" "t_loc u = t_loc t0 \<and> t_ns t0 \<le> t_ns u \<and> t_ns u \<le> t_ns t1 \<and> step dvd wall_ns L u" for u
    using tick_reached[OF step(1), of u t0 t1 k] wall_ns_multiple[OF assms(4), of u] that k(3) by (auto simp: ts_def t_def)
  have len: "length ts = k" by (simp add: ts_def)
  have eqs: "timeTicks L t0 t1 = Some (List.map (\<lambda>t. time_tick L t spn) ts)"
    "ts = List.map (\<lambda>i. time_add t (int i * step)) [0..<length ts]"
    using eq by (simp_all add: ts_def comp_def)
  have ticks: "\<forall>t\<in>set ts. t_loc t = t_loc t0 \<and> t_ns t0 \<le> t_ns t \<and> t_ns t \<le> t_ns t1 \<and> step dvd wall_ns L t
      \<and> (Hour dvd step \<longrightarrow> clock_minute (cl_zone L) t = 0) \<and> (24 * Hour dvd step \<longrightarrow> clock_hour (cl_zone L) t = 0)"
    using tick clock by blast
  have bounds: "length ts \<le> 65"
    "length ts < 65 \<longrightarrow> (\<forall>t. t_loc t = t_loc t0 \<and> t_ns t0 \<le> t_ns t \<and> t_ns t \<le> t_ns t1 \<and> step dvd wall_ns L t \<longrightarrow> t \<in> set ts)"
    "t_ns t1 - t_ns t0 < 210 * (24 * Hour) \<longrightarrow> length ts \<le> 7"
    using k(1) all few unfolding len by blast+
  show ?thesis
    unfolding t_def[symmetric] by (intro exI[of _ ts] conjI) (rule eqs step(2) ft(2) ticks bounds)+
qed

text \<open>The ticks are on multiples of UTC days, not on local ones: in a zone two hours east, the day
  ticks of a week that starts at a local midnight fall on two o'clock, which the comment of
  \<open>timeTicks\<close> excludes.\<close>

definition plain_libs :: chart_libs where
  "plain_libs = \<lparr>cl_unicode = ascii_only, cl_shortest = format_fixed 2, cl_log10 = (\<lambda>x. Fin 0), cl_pow = (\<lambda>x y. Fin 1),
     cl_sin = (\<lambda>x. Fin 0), cl_cos = (\<lambda>x. Fin 1), cl_oob = amd64_oob, cl_zone = (\<lambda>_. 0)\<rparr>"

definition local_midnight :: gotime where
  "local_midnight = (go_date 2024 6 1 0 0 0 0)\<lparr>t_loc := FixedZone 7200, t_ns := t_ns (go_date 2024 5 31 22 0 0 0)\<rparr>"

lemma ticks_not_local_midnight:
  "clock_hour (\<lambda>_. 0) local_midnight = 0 \<and> clock_minute (\<lambda>_. 0) local_midnight = 0
   \<and> map_option (List.map (\<lambda>k. clock_hour (\<lambda>_. 0) (the (tk_Time k)))) (timeTicks plain_libs local_midnight (time_add local_midnight (5 * 24 * Hour)))
     = Some [2, 2, 2, 2, 2]"
  by code_simp

definition june_first :: gotime where "june_first = go_date 2024 6 1 6 0 0 0"

theorem timeTicks_exact_witness:
  "\<exists>ts. timeTicks plain_libs june_first (time_add june_first (5 * 24 * Hour)) = Some (List.map (\<lambda>t. time_tick plain_libs t (5 * 24 * Hour)) ts)
     \<and> length ts \<le> 7 \<and> (\<forall>t\<in>set ts. clock_hour (\<lambda>_. 0) t = 0)"
proof -
  let ?u = "time_add june_first (5 * 24 * Hour)"
  have s: "time_sub ?u june_first = 5 * 24 * Hour" "tick_step (5 * 24 * Hour) = 24 * Hour" by code_simp+
  have "t_loc june_first = UTC" by code_simp
  then have "whole_step_offset plain_libs (24 * Hour) june_first ?u" by (rule whole_step_offset_utc)
  moreover have "t_ns june_first < t_ns ?u" "t_ns ?u - t_ns june_first < 210 * (24 * Hour)" "cl_zone plain_libs = (\<lambda>_. 0)"
    by (simp_all add: plain_libs_def)
  ultimately show ?thesis
    using timeTicks_exact[of june_first ?u plain_libs] unfolding s by auto
qed

subsection \<open>Grouping of thousands\<close>

definition ungroup :: "string \<Rightarrow> string" where "ungroup s = filter (\<lambda>c. c \<noteq> CHR '','') s"

lemma ungroup_group_digits: "CHR '','' \<notin> set s \<Longrightarrow> ungroup (group_digits s) = s"
  by (induction s rule: group_digits.induct) (auto simp: ungroup_def)

lemma ungroup_id: "CHR '','' \<notin> set s \<Longrightarrow> ungroup s = s"
  by (auto simp: ungroup_def filter_id_conv)

lemma ungroup_append: "ungroup (s @ t) = ungroup s @ ungroup t"
  by (simp add: ungroup_def)

lemma groupThousands_inverse:
  assumes "CHR '','' \<notin> set s" shows "ungroup (groupThousands s) = s"
proof -
  have core: "ungroup (group_unsigned x) = x" if "CHR '','' \<notin> set x" for x
  proof (cases "cut_at CHR ''.'' x")
    case None
    then show ?thesis using that by (simp add: group_unsigned_def ungroup_group_digits ungroup_id)
  next
    case (Some lr)
    then obtain l r where "cut_at CHR ''.'' x = Some (l, r)" "x = l @ CHR ''.'' # r" using cut_at_Some by (cases lr) auto
    then show ?thesis using that by (simp add: group_unsigned_def ungroup_append ungroup_group_digits ungroup_id)
  qed
  show ?thesis
  proof (cases "has_prefix s ''-''")
    case True
    then obtain x where x: "s = CHR ''-'' # x" by (auto simp: has_prefix_iff)
    have "ungroup (groupThousands s) = ungroup ''-'' @ ungroup (group_unsigned x)"
      unfolding x groupThousands_def by (simp flip: ungroup_append)
    then show ?thesis using core[of x] assms x by (simp add: ungroup_def)
  next
    case False
    then show ?thesis using core[of s] assms by (simp add: groupThousands_def)
  qed
qed

end
