(* ===== verification/ChartDomain.thy ===== *)
theory ChartDomain
  imports ChartRose ChartTicks
begin

text \<open>
  Bounds of the y domain: \<open>niceStep\<close>, \<open>niceDomain\<close> and the rings of a rose, for values of ordinary size.
\<close>

lemma small_pow30: "\<bar>q\<bar> \<le> 10 ^ 30 \<Longrightarrow> \<bar>q\<bar> \<le> (2::rat) ^ 1000"
  by (rule order_trans) auto

lemma rnd_error_small:
  assumes "\<bar>q\<bar> \<le> B" "1 / 10 ^ 20 \<le> B" shows "\<bar>rnd q - q\<bar> \<le> B / 2 ^ 52"
proof -
  have p: "pw2 (- 53) = 1 / 2 ^ 53" "pw2 (- 120) = 1 / 2 ^ 120" by (simp_all add: power_int_def power_divide)
  have "pw2 (- 1075) \<le> pw2 (- 120)" by (rule pw2_mono) simp
  also have "\<dots> \<le> (1 / 10 ^ 20) / 2 ^ 53" unfolding p by simp
  also have "\<dots> \<le> B / 2 ^ 53" using assms(2) by (rule divide_right_mono) simp
  finally have t: "pw2 (- 1075) \<le> B / 2 ^ 53" .
  have "\<bar>q\<bar> * pw2 (- 53) \<le> B / 2 ^ 53" using assms(1) by (simp add: p)
  with t rnd_rel_error[of q] have "\<bar>rnd q - q\<bar> \<le> B / 2 ^ 53 + B / 2 ^ 53" by linarith
  then show ?thesis by simp
qed

lemma rnd_factor:
  assumes "1 / 10 ^ 20 \<le> q" shows "q / 2 \<le> rnd q" "rnd q \<le> 2 * q"
proof -
  have q: "0 < q" using assms by (rule less_le_trans[rotated]) simp
  have "\<bar>rnd q - q\<bar> \<le> q / 2 ^ 52" using rnd_error_small[of q q] assms q by simp
  moreover have "q / 2 ^ 52 \<le> q / 2" using q by (intro divide_left_mono) auto
  ultimately show "q / 2 \<le> rnd q" "rnd q \<le> 2 * q" using q by (simp_all only: abs_le_iff) linarith+
qed

subsection \<open>The step\<close>

text \<open>What \<open>niceStep\<close> relies on: ten to the floored decimal logarithm is the leading power of ten of a
  number, with a factor of two to spare.\<close>

definition decimal_libm :: "chart_libs \<Rightarrow> bool" where
  "decimal_libm L \<longleftrightarrow> (\<forall>x. 1 / 10 ^ 8 \<le> fval x \<and> fval x \<le> 10 ^ 7 \<longrightarrow>
     (let p = cl_pow L (Fin 10) (ffloor (cl_log10 L x)) in
      finite64 p \<and> 0 < fval p \<and> fval p \<le> 2 * fval x \<and> fval x \<le> 20 * fval p))"

lemma niceStep_bounds:
  assumes "decimal_libm L" "finite64 raw" "1 / 10 ^ 8 \<le> fval raw" "fval raw \<le> 10 ^ 7"
  shows "finite64 (niceStep L raw)" "fval raw / 40 \<le> fval (niceStep L raw)" "fval (niceStep L raw) \<le> 40 * fval raw"
proof -
  define p where "p = cl_pow L (Fin 10) (ffloor (cl_log10 L raw))"
  have p: "finite64 p" "0 < fval p" "fval p \<le> 2 * fval raw" "fval raw \<le> 20 * fval p"
    using assms(1,3,4) unfolding decimal_libm_def Let_def p_def by blast+
  have scaled: "finite64 (fmul (Fin c) p) \<and> fval raw / 40 \<le> fval (fmul (Fin c) p) \<and> fval (fmul (Fin c) p) \<le> 40 * fval raw"
    if c: "1 \<le> c" "c \<le> 10" for c
  proof -
    have cp: "fval p \<le> c * fval p" "c * fval p \<le> 10 * fval p" using c p(2) by simp_all
    have r: "fval raw / 20 \<le> c * fval p" "c * fval p \<le> 20 * fval raw" using cp p(3,4) by linarith+
    have "\<bar>c * fval p\<bar> \<le> 10 ^ 30" "1 / 10 ^ 20 \<le> c * fval p" using r assms(3,4) cp p(2) by (simp_all add: abs_le_iff)
    then show ?thesis
      using fmul_finite[of "Fin c" p] p(1) small_pow30[of "c * fval p"] rnd_factor[of "c * fval p"] r by auto
  qed
  have raw: "\<not> fle raw (Fin 0)" "\<not> is_inf raw" "raw \<noteq> NaN"
    using assms(3) fle_finite[OF assms(2), of "Fin 0"] assms(2)[unfolded finite64_def] by simp_all
  have one: "fval raw / 40 \<le> fval p" "fval p \<le> 40 * fval raw" using p by linarith+
  show "finite64 (niceStep L raw)" "fval raw / 40 \<le> fval (niceStep L raw)" "fval (niceStep L raw) \<le> 40 * fval raw"
    using raw p(1) one scaled[of 2] scaled[of 5] scaled[of 10]
    by (simp_all add: niceStep_def Let_def p_def[symmetric])
qed

subsection \<open>The widening\<close>

definition low_edge :: "rat \<Rightarrow> rat \<Rightarrow> rat" where
  "low_edge S l = (let n = rnd (of_int \<lfloor>rnd (l / S)\<rfloor> * S) in if n > l then rnd (n - S) else n)"

lemma low_edge_bounds:
  assumes "1 / 10 ^ 10 \<le> S" "\<bar>l\<bar> \<le> 2199023255552 * S" "rnd l = l"
  shows "low_edge S l \<le> l" "l - 2 * S \<le> low_edge S l"
    "\<bar>rnd (l / S)\<bar> \<le> 2 ^ 42" "\<bar>of_int \<lfloor>rnd (l / S)\<rfloor> * S\<bar> \<le> 4398046511104 * S"
    "\<bar>rnd (of_int \<lfloor>rnd (l / S)\<rfloor> * S)\<bar> \<le> 8796093022208 * S"
proof -
  have S: "0 < S" using assms(1) by (rule less_le_trans[rotated]) simp
  define q where "q = rnd (l / S)"
  define k where "k = (of_int \<lfloor>q\<rfloor> :: rat)"
  define n where "n = rnd (k * S)"
  have qb: "\<bar>l / S\<bar> \<le> 2 ^ 41" using assms(2) S by (simp add: abs_divide divide_le_eq)
  then have qe: "\<bar>q - l / S\<bar> \<le> 2 ^ 41 / 2 ^ 52" unfolding q_def by (rule rnd_error_small) simp
  have k: "k \<le> q" "q - 1 < k" unfolding k_def by linarith+
  have q1: "\<bar>q - l / S\<bar> \<le> 1 / 1000" by (rule order_trans[OF qe]) simp
  then have kb: "k \<le> l / S + 1/1000" "l / S - 1 - 1/1000 \<le> k" using k unfolding abs_le_iff by linarith+
  have kS: "k * S \<le> l + S / 1000" "l - S - S / 1000 \<le> k * S"
  proof -
    have "k * S \<le> (l / S + 1/1000) * S" "(l / S - 1 - 1/1000) * S \<le> k * S" using kb S by (intro mult_right_mono; simp)+
    then show "k * S \<le> l + S / 1000" "l - S - S / 1000 \<le> k * S" using S by (simp_all add: algebra_simps)
  qed
  have kSb: "\<bar>k * S\<bar> \<le> 4398046511104 * S" using kS assms(2) S unfolding abs_le_iff by linarith
  have "1 / 10 ^ 20 \<le> 4398046511104 * S" using assms(1) by simp
  from rnd_error_small[OF kSb this] have ne: "\<bar>n - k * S\<bar> \<le> S / 1000" unfolding n_def using S by (simp add: abs_le_iff)
  then have n: "n \<le> l + S / 100" "l - S - S / 100 \<le> n" using kS S unfolding abs_le_iff by linarith+
  have le: "low_edge S l = (if n > l then rnd (n - S) else n)" by (simp add: low_edge_def n_def k_def q_def Let_def)
  have nS: "\<bar>n - S\<bar> \<le> 8796093022208 * S" using n assms(2) S unfolding abs_le_iff by linarith
  have "1 / 10 ^ 20 \<le> 8796093022208 * S" using assms(1) by simp
  from rnd_error_small[OF nS this] have me: "\<bar>rnd (n - S) - (n - S)\<bar> \<le> S / 100" using S by (simp add: abs_le_iff)
  have "rnd (n - S) \<le> l" using rnd_mono[of "n - S" l] n(1) S assms(3) by simp
  then show "low_edge S l \<le> l" unfolding le by simp
  have "l - 2 * S \<le> rnd (n - S)" if "n > l" using me that S unfolding abs_le_iff by linarith
  then show "l - 2 * S \<le> low_edge S l" unfolding le using n(2) S by auto
  show "\<bar>rnd (l / S)\<bar> \<le> 2 ^ 42" using q1 qb unfolding q_def[symmetric] abs_le_iff by simp
  show "\<bar>of_int \<lfloor>rnd (l / S)\<rfloor> * S\<bar> \<le> 4398046511104 * S" using kSb unfolding k_def q_def .
  show "\<bar>rnd (of_int \<lfloor>rnd (l / S)\<rfloor> * S)\<bar> \<le> 8796093022208 * S"
    unfolding n_def[unfolded k_def q_def, symmetric] using n assms(2) S unfolding abs_le_iff by linarith
qed

lemma floor_edge:
  assumes "finite64 lo" "finite64 step" "1 / 10 ^ 10 \<le> fval step" "fval step \<le> 10 ^ 10"
    "\<bar>fval lo\<bar> \<le> 2199023255552 * fval step" "rnd (fval lo) = fval lo"
  defines "n \<equiv> fmul (ffloor (fdiv lo step)) step"
  shows "finite64 (if fgt n lo then fsub n step else n)"
    "fval (if fgt n lo then fsub n step else n) = low_edge (fval step) (fval lo)"
proof -
  let ?S = "fval step" and ?l = "fval lo"
  have S: "0 < ?S" using assms(3) by (rule less_le_trans[rotated]) simp
  note b = low_edge_bounds[OF assms(3,5,6)]
  have "\<bar>?l / ?S\<bar> \<le> 2199023255552" using assms(5) S by (simp add: abs_divide divide_le_eq)
  then have "\<bar>?l / ?S\<bar> \<le> 10 ^ 30" by simp
  then have q: "finite64 (fdiv lo step) \<and> fval (fdiv lo step) = rnd (?l / ?S)"
    using fdiv_finite[OF assms(1,2)] S small_pow30 by simp
  note f = rounding_functions_finite(1)[of "fdiv lo step"]
  have big: "4398046511104 * ?S \<le> 10 ^ 30" "8796093022208 * ?S + ?S \<le> 10 ^ 30" using assms(4) by simp_all
  have n: "finite64 n \<and> fval n = rnd (of_int \<lfloor>rnd (?l / ?S)\<rfloor> * ?S)"
    unfolding n_def using fmul_finite[of "ffloor (fdiv lo step)" step] q f assms(2) small_pow30 order_trans[OF b(4) big(1)] by simp
  have "\<bar>rnd (of_int \<lfloor>rnd (?l / ?S)\<rfloor> * ?S) - ?S\<bar> \<le> 10 ^ 30"
    using b(5) big(2) S unfolding abs_le_iff by linarith
  then have m: "finite64 (fsub n step) \<and> fval (fsub n step) = rnd (fval n - ?S)"
    using fsub_finite[of n step] n assms(2) small_pow30 by simp
  have "fgt n lo \<longleftrightarrow> ?l < fval n" using flt_finite[of lo n] n assms(1) by simp
  then show "finite64 (if fgt n lo then fsub n step else n)"
    "fval (if fgt n lo then fsub n step else n) = low_edge ?S ?l"
    using n m by (simp_all add: low_edge_def Let_def)
qed

lemma ceil_edge:
  assumes "finite64 hi" "finite64 step" "1 / 10 ^ 10 \<le> fval step" "fval step \<le> 10 ^ 10"
    "\<bar>fval hi\<bar> \<le> 2199023255552 * fval step" "rnd (fval hi) = fval hi"
  defines "n \<equiv> fmul (fceil (fdiv hi step)) step"
  shows "finite64 (if flt n hi then fadd n step else n)"
    "fval (if flt n hi then fadd n step else n) = - low_edge (fval step) (- fval hi)"
proof -
  let ?S = "fval step" and ?h = "fval hi"
  have S: "0 < ?S" using assms(3) by (rule less_le_trans[rotated]) simp
  have a: "\<bar>- ?h\<bar> \<le> 2199023255552 * ?S" "rnd (- ?h) = - ?h" using assms(5,6) by (simp_all add: rnd_uminus)
  note b = low_edge_bounds[OF assms(3) a]
  have "\<bar>?h / ?S\<bar> \<le> 2199023255552" using assms(5) S by (simp add: abs_divide divide_le_eq)
  then have "\<bar>?h / ?S\<bar> \<le> 10 ^ 30" by simp
  then have q: "finite64 (fdiv hi step) \<and> fval (fdiv hi step) = rnd (?h / ?S)"
    using fdiv_finite[OF assms(1,2)] S small_pow30 by simp
  note f = rounding_functions_finite(2)[of "fdiv hi step"]
  define N where "N = rnd (of_int \<lfloor>rnd (- ?h / ?S)\<rfloor> * ?S)"
  have c: "of_int \<lceil>rnd (?h / ?S)\<rceil> * ?S = - (of_int \<lfloor>rnd (- ?h / ?S)\<rfloor> * ?S)"
    by (simp add: rnd_uminus ceiling_def)
  have big: "4398046511104 * ?S \<le> 10 ^ 30" "8796093022208 * ?S + ?S \<le> 10 ^ 30" using assms(4) by simp_all
  have "\<bar>of_int \<lceil>rnd (?h / ?S)\<rceil> * ?S\<bar> \<le> 10 ^ 30" unfolding c abs_minus_cancel by (rule order_trans[OF b(4) big(1)])
  then have "finite64 n \<and> fval n = rnd (of_int \<lceil>rnd (?h / ?S)\<rceil> * ?S)"
    unfolding n_def using fmul_finite[of "fceil (fdiv hi step)" step] q f assms(2) small_pow30 by simp
  then have n: "finite64 n" "fval n = - N" unfolding c by (simp_all add: N_def rnd_uminus)
  have "\<bar>fval n + ?S\<bar> \<le> 10 ^ 30"
    unfolding n(2) N_def using b(5) big(2) S unfolding abs_le_iff by linarith
  then have m: "finite64 (fadd n step) \<and> fval (fadd n step) = rnd (- (N - ?S))"
    using fadd_finite[of n step] n assms(2) small_pow30 by simp
  have le: "- low_edge ?S (- ?h) = (if - ?h < N then - rnd (N - ?S) else - N)"
    by (simp only: low_edge_def Let_def N_def[symmetric]) simp
  have neg: "rnd (- (N - ?S)) = - rnd (N - ?S)" by (rule rnd_uminus)
  have "flt n hi \<longleftrightarrow> - ?h < N" using flt_finite[of n hi] n assms(1) by auto
  then show "finite64 (if flt n hi then fadd n step else n)"
    "fval (if flt n hi then fadd n step else n) = - low_edge ?S (- ?h)"
    unfolding le using n m neg by (simp_all only: if_split) auto
qed

text \<open>The widened domain contains the ends and goes beyond them by at most two steps.\<close>

lemma widen_bounds:
  assumes "finite64 lo" "finite64 hi" "finite64 step" "1 / 10 ^ 10 \<le> fval step" "fval step \<le> 10 ^ 10"
    "\<bar>fval lo\<bar> \<le> 2199023255552 * fval step" "rnd (fval lo) = fval lo"
    "\<bar>fval hi\<bar> \<le> 2199023255552 * fval step" "rnd (fval hi) = fval hi" "widen step lo hi = (a, b)"
  shows "finite64 a" "finite64 b" "fval a \<le> fval lo" "fval hi \<le> fval b"
    "fval lo - 2 * fval step \<le> fval a" "fval b \<le> fval hi + 2 * fval step"
proof -
  have a': "\<bar>- fval hi\<bar> \<le> 2199023255552 * fval step" "rnd (- fval hi) = - fval hi" using assms(8,9) by (simp_all add: rnd_uminus)
  note l = low_edge_bounds[OF assms(4,6,7)] and h = low_edge_bounds[OF assms(4) a']
  note f = floor_edge[OF assms(1,3,4,5,6,7)] and c = ceil_edge[OF assms(2,3,4,5,8,9)]
  have "a = (if fgt (fmul (ffloor (fdiv lo step)) step) lo then fsub (fmul (ffloor (fdiv lo step)) step) step
      else fmul (ffloor (fdiv lo step)) step)"
    "b = (if flt (fmul (fceil (fdiv hi step)) step) hi then fadd (fmul (fceil (fdiv hi step)) step) step
      else fmul (fceil (fdiv hi step)) step)"
    using assms(10) by (simp_all only: widen_def Let_def prod.inject)
  then show "finite64 a" "finite64 b" "fval a \<le> fval lo" "fval hi \<le> fval b"
    "fval lo - 2 * fval step \<le> fval a" "fval b \<le> fval hi + 2 * fval step"
    using f c l h by simp_all
qed

subsection \<open>The domain\<close>

definition with_zero :: "bool \<Rightarrow> rat \<Rightarrow> rat \<Rightarrow> rat \<times> rat" where
  "with_zero z l h = (if z then (min l 0, max h 0) else (l, h))"

lemma rnd_min: "rnd l = l \<Longrightarrow> rnd (min l 0) = min l 0" and rnd_max: "rnd l = l \<Longrightarrow> rnd (max l 0) = max l 0"
  by (simp_all add: min_def max_def)

lemma rnd_tenth: "0 \<le> rnd (1/10)" "rnd (1/10) \<le> 1"
  using rnd_mono[of 0 "1/10"] rnd_mono[of "1/10" "of_int 1"] rnd_of_int[of 1] by simp_all

lemma pad_bounds:
  assumes "finite64 hi" "\<bar>fval hi\<bar> \<le> 10 ^ 6"
  defines "pad \<equiv> fmax (fmul (fabs hi) (f_const (1/10))) (Fin 1)"
  shows "finite64 pad" "1 \<le> fval pad" "fval pad \<le> 10 ^ 6"
proof -
  have a: "finite64 (fabs hi) \<and> fval (fabs hi) = \<bar>fval hi\<bar>"
    using assms(1) by (auto simp: finite64_cases fabs_def signbit_def)
  have "\<bar>fval hi\<bar> * rnd (1/10) \<le> 10 ^ 6 * 1" using assms(2) rnd_tenth by (intro mult_mono) auto
  moreover have "0 \<le> \<bar>fval hi\<bar> * rnd (1/10)" using rnd_tenth by simp
  ultimately have b: "\<bar>\<bar>fval hi\<bar> * rnd (1/10)\<bar> \<le> 10 ^ 6" by simp
  then have m: "finite64 (fmul (fabs hi) (f_const (1/10))) \<and> fval (fmul (fabs hi) (f_const (1/10))) = rnd (\<bar>fval hi\<bar> * rnd (1/10))"
    using fmul_finite[of "fabs hi" "f_const (1/10)"] a small_pow30[of "\<bar>fval hi\<bar> * rnd (1/10)"] by (simp add: f_const_def)
  have "rnd (\<bar>fval hi\<bar> * rnd (1/10)) \<le> 10 ^ 6"
    using rnd_mono[of "\<bar>fval hi\<bar> * rnd (1/10)" "of_int (10 ^ 6)"] rnd_of_int[of "10 ^ 6"] b by simp
  then show "finite64 pad" "1 \<le> fval pad" "fval pad \<le> 10 ^ 6"
    using fmax_finite[of "fmul (fabs hi) (f_const (1/10))" "Fin 1"] m by (auto simp: pad_def)
qed

lemma niceDomain_core:
  assumes "decimal_libm L" "finite64 lo" "finite64 hi" "1/1000 \<le> fval hi - fval lo" "\<bar>fval lo\<bar> \<le> 2000001" "\<bar>fval hi\<bar> \<le> 2000001"
    "rnd (fval lo) = fval lo" "rnd (fval hi) = fval hi"
  defines "raw \<equiv> fdiv (fsub hi lo) (f_of_int targetTicks)"
  shows "finite64 (niceStep L raw)" "1 / 10 ^ 6 \<le> fval (niceStep L raw)" "fval (niceStep L raw) \<le> 40 * (fval hi - fval lo)"
    "widen (niceStep L raw) lo hi = (a, b) \<Longrightarrow> finite64 a \<and> finite64 b \<and> fval a \<le> fval lo \<and> fval hi \<le> fval b
       \<and> fval b \<le> fval hi + 2 * fval (niceStep L raw)"
proof -
  let ?d = "fval hi - fval lo"
  have d: "1/1000 \<le> ?d" "?d \<le> 4000002" using assms(4-6) unfolding abs_le_iff by linarith+
  have df: "finite64 (fsub hi lo) \<and> fval (fsub hi lo) = rnd ?d"
    using fsub_finite[OF assms(3,2)] small_pow30[of ?d] d by simp
  have dd: "?d / 2 \<le> rnd ?d" "rnd ?d \<le> 2 * ?d" using rnd_factor[of ?d] d(1) by simp_all
  define e where "e = rnd ?d"
  have "1/12000 \<le> e / 6" "e / 6 \<le> 2000000" using dd d unfolding e_def[symmetric] by simp_all
  then have r6: "1/12000 \<le> rnd ?d / 6" "rnd ?d / 6 \<le> 2000000" unfolding e_def by simp_all
  have six: "f_of_int targetTicks = Fin 6" by (simp add: targetTicks_def f_of_int_exact)
  have raw: "finite64 raw \<and> fval raw = rnd (rnd ?d / 6)"
    unfolding raw_def six using fdiv_finite[of "fsub hi lo" "Fin 6"] df small_pow30[of "rnd ?d / 6"] r6 by simp
  have rr: "rnd ?d / 6 / 2 \<le> fval raw" "fval raw \<le> 2 * (rnd ?d / 6)" using rnd_factor[of "rnd ?d / 6"] raw r6(1) by simp_all
  have rb: "1/24000 \<le> fval raw" "fval raw \<le> 4000000" "fval raw \<le> ?d" using rr r6 dd d unfolding e_def[symmetric] by simp_all
  have rw: "1 / 10 ^ 8 \<le> fval raw" "fval raw \<le> 10 ^ 7" using rb by simp_all
  note st = niceStep_bounds[OF assms(1) conjunct1[OF raw] rw]
  show sf: "finite64 (niceStep L raw)" and lower: "1 / 10 ^ 6 \<le> fval (niceStep L raw)" and "fval (niceStep L raw) \<le> 40 * ?d"
    using st rb by simp_all
  have s10: "1 / 10 ^ 10 \<le> fval (niceStep L raw)" "fval (niceStep L raw) \<le> 10 ^ 10" using lower st(3) rb by simp_all
  have in_steps: "\<bar>fval lo\<bar> \<le> 2199023255552 * fval (niceStep L raw)" "\<bar>fval hi\<bar> \<le> 2199023255552 * fval (niceStep L raw)"
    using assms(5,6) lower by simp_all
  show "finite64 a \<and> finite64 b \<and> fval a \<le> fval lo \<and> fval hi \<le> fval b \<and> fval b \<le> fval hi + 2 * fval (niceStep L raw)"
    if "widen (niceStep L raw) lo hi = (a, b)"
    using widen_bounds[OF assms(2,3) sf s10 in_steps(1) assms(7) in_steps(2) assms(8) that] by simp
qed

lemma niceDomain_contains:
  assumes "decimal_libm L" "finite64 lo" "finite64 hi" "fval lo \<le> fval hi" "\<bar>fval lo\<bar> \<le> 10 ^ 6" "\<bar>fval hi\<bar> \<le> 10 ^ 6"
    "rnd (fval lo) = fval lo" "rnd (fval hi) = fval hi" "with_zero z (fval lo) (fval hi) = (l, h)" "h = l \<or> 1/1000 \<le> h - l"
    "niceDomain L lo hi z = (a, b, step)"
  shows "finite64 a" "finite64 b" "finite64 step" "fval a \<le> l" "h \<le> fval b" "fval a < fval b" "1 / 10 ^ 6 \<le> fval step"
    "h \<noteq> l \<Longrightarrow> fval step \<le> 40 * (h - l) \<and> fval b \<le> h + 2 * fval step"
proof -
  define lo1 where "lo1 = (if z then fmin lo (Fin 0) else lo)"
  define hi1 where "hi1 = (if z then fmax hi (Fin 0) else hi)"
  have "finite64 lo1 \<and> finite64 hi1 \<and> fval lo1 = l \<and> fval hi1 = h \<and> l \<le> h \<and> \<bar>l\<bar> \<le> 10 ^ 6 \<and>
        \<bar>h\<bar> \<le> 10 ^ 6 \<and> rnd l = l \<and> rnd h = h"
  proof (cases z)
    case True
    have lh: "l = min (fval lo) 0" "h = max (fval hi) 0" using assms(9) True by (simp_all add: with_zero_def)
    have "finite64 lo1 \<and> fval lo1 = l" "finite64 hi1 \<and> fval hi1 = h"
      using True fmin_finite[OF assms(2), of "Fin 0"] fmax_finite[OF assms(3), of "Fin 0"] by (simp_all add: lo1_def hi1_def lh)
    moreover have "l \<le> h" "\<bar>l\<bar> \<le> 10 ^ 6" "\<bar>h\<bar> \<le> 10 ^ 6" using assms(5,6) unfolding lh by auto
    moreover have "rnd l = l" "rnd h = h" unfolding lh by (rule rnd_min[OF assms(7)], rule rnd_max[OF assms(8)])
    ultimately show ?thesis by simp
  next
    case False
    then have "l = fval lo" "h = fval hi" "lo1 = lo" "hi1 = hi" using assms(9) by (simp_all add: with_zero_def lo1_def hi1_def)
    then show ?thesis using assms(2-8) by simp
  qed
  then have 1: "finite64 lo1" "finite64 hi1" "fval lo1 = l" "fval hi1 = h" "l \<le> h" "\<bar>l\<bar> \<le> 10 ^ 6" "\<bar>h\<bar> \<le> 10 ^ 6" "rnd l = l" "rnd h = h"
    by simp_all
  have noswap: "\<not> flt hi1 lo1" using 1 flt_finite by simp
  have flat: "feq hi1 lo1 \<longleftrightarrow> h = l" using 1 feq_finite by simp
  define pad where "pad = fmax (fmul (fabs hi1) (f_const (1/10))) (Fin 1)"
  note p = pad_bounds[of hi1, folded pad_def, unfolded 1(4), OF 1(2,7)]
  define lo2 where "lo2 = (if h = l then fsub lo1 pad else lo1)"
  define hi2 where "hi2 = (if h = l then fadd hi1 pad else hi1)"
  have dom: "niceDomain L lo hi z = (case widen (niceStep L (fdiv (fsub hi2 lo2) (f_of_int targetTicks))) lo2 hi2 of
      (a, b) \<Rightarrow> (a, b, niceStep L (fdiv (fsub hi2 lo2) (f_of_int targetTicks))))"
    unfolding niceDomain_def Let_def lo1_def[symmetric] hi1_def[symmetric] prod.case if_not_P[OF noswap]
    by (simp add: flat lo2_def hi2_def pad_def)
  have "finite64 lo2 \<and> finite64 hi2 \<and> fval lo2 \<le> l \<and> h \<le> fval hi2 \<and> 1/1000 \<le> fval hi2 - fval lo2 \<and>
      \<bar>fval lo2\<bar> \<le> 2000001 \<and> \<bar>fval hi2\<bar> \<le> 2000001 \<and> rnd (fval lo2) = fval lo2 \<and> rnd (fval hi2) = fval hi2"
  proof (cases "h = l")
    case True
    have lb: "\<bar>l - fval pad\<bar> \<le> 2000000" and hb: "\<bar>h + fval pad\<bar> \<le> 2000000" using 1(6,7) p unfolding abs_le_iff by auto
    have L2: "finite64 lo2 \<and> fval lo2 = rnd (l - fval pad)" and H2: "finite64 hi2 \<and> fval hi2 = rnd (h + fval pad)"
      using True fsub_finite[OF 1(1) p(1)] fadd_finite[OF 1(2) p(1)] 1(3,4) lb hb small_pow30
      by (simp_all add: lo2_def hi2_def)
    have le: "\<bar>rnd (l - fval pad) - (l - fval pad)\<bar> \<le> 1/4" and he: "\<bar>rnd (h + fval pad) - (h + fval pad)\<bar> \<le> 1/4"
      using rnd_error_small[OF lb] rnd_error_small[OF hb] by simp_all
    have "rnd (l - fval pad) \<le> l" "h \<le> rnd (h + fval pad)"
      using rnd_mono[of "l - fval pad" l] rnd_mono[of h "h + fval pad"] 1(8,9) p(2) by simp_all
    then show ?thesis
      using L2 H2 le he lb hb True p(2) unfolding abs_le_iff by auto
  qed (use 1 assms(10) in \<open>auto simp: lo2_def hi2_def\<close>)
  then have 2: "finite64 lo2" "finite64 hi2" "fval lo2 \<le> l" "h \<le> fval hi2" "1/1000 \<le> fval hi2 - fval lo2"
    "\<bar>fval lo2\<bar> \<le> 2000001" "\<bar>fval hi2\<bar> \<le> 2000001" "rnd (fval lo2) = fval lo2" "rnd (fval hi2) = fval hi2"
    by simp_all
  note core = niceDomain_core[OF assms(1) 2(1,2,5-9)]
  obtain a' b' where w: "widen (niceStep L (fdiv (fsub hi2 lo2) (f_of_int targetTicks))) lo2 hi2 = (a', b')" by fastforce
  then have ab: "a = a'" "b = b'" "step = niceStep L (fdiv (fsub hi2 lo2) (f_of_int targetTicks))" using assms(11) dom by simp_all
  show "finite64 a" "finite64 b" "finite64 step" "fval a \<le> l" "h \<le> fval b" "fval a < fval b" "1 / 10 ^ 6 \<le> fval step"
    using core(1,2) core(4)[OF w] 2(3-5) unfolding ab by auto
  show "fval step \<le> 40 * (h - l) \<and> fval b \<le> h + 2 * fval step" if "h \<noteq> l"
    using core(3) core(4)[OF w] that 1(3,4) unfolding ab by (simp add: lo2_def hi2_def)
qed

subsection \<open>An instance\<close>

text \<open>A decimal logarithm and power with the required accuracy.\<close>

definition dec_exp :: "rat \<Rightarrow> int" where
  "dec_exp q =
     (if q < 1 / 10 ^ 7 then - 8 else if q < 1 / 10 ^ 6 then - 7 else if q < 1 / 10 ^ 5 then - 6 else if q < 1 / 10 ^ 4 then - 5
      else if q < 1 / 1000 then - 4 else if q < 1 / 100 then - 3 else if q < 1 / 10 then - 2 else if q < 1 then - 1
      else if q < 10 then 0 else if q < 100 then 1 else if q < 1000 then 2 else if q < 10 ^ 4 then 3
      else if q < 10 ^ 5 then 4 else if q < 10 ^ 6 then 5 else if q < 10 ^ 7 then 6 else 7)"

definition demo_libs :: chart_libs where
  "demo_libs = plain_libs\<lparr>cl_log10 := (\<lambda>x. Fin (of_int (dec_exp (fval x)))), cl_pow := (\<lambda>x y. f_const (10 powi \<lfloor>fval y\<rfloor>))\<rparr>"

lemma dec_exp_bounds:
  assumes "1 / 10 ^ 8 \<le> q" "q \<le> 10 ^ 7"
  shows "10 powi dec_exp q \<le> q" "q \<le> 10 * 10 powi dec_exp q" "1 / 10 ^ 20 \<le> (10::rat) powi dec_exp q"
  using assms by (simp_all add: dec_exp_def power_int_def power_divide not_less split: if_split)

lemma demo_libs_decimal: "decimal_libm demo_libs"
  unfolding decimal_libm_def
proof (intro allI impI)
  fix x assume x: "1 / 10 ^ 8 \<le> fval x \<and> fval x \<le> 10 ^ 7"
  define p where "p = f_const (10 powi dec_exp (fval x))"
  note b = dec_exp_bounds[OF conjunct1[OF x] conjunct2[OF x]]
  have p: "cl_pow demo_libs (Fin 10) (ffloor (cl_log10 demo_libs x)) = p"
    by (simp add: demo_libs_def p_def ffloor_def is_inf_def)
  have "fval p = rnd (10 powi dec_exp (fval x))" "finite64 p" by (simp_all add: p_def f_const_def)
  moreover have "0 < rnd (10 powi dec_exp (fval x))" using rnd_factor(1)[OF b(3)] by (rule less_le_trans[rotated]) simp
  ultimately show "let p = cl_pow demo_libs (Fin 10) (ffloor (cl_log10 demo_libs x)) in
      finite64 p \<and> 0 < fval p \<and> fval p \<le> 2 * fval x \<and> fval x \<le> 20 * fval p"
    unfolding Let_def p using rnd_factor[OF b(3)] b(1,2) by simp
qed

end
