(* ===== verification/ChartValid.thy ===== *)
theory ChartValid
  imports ChartSpec
begin

text \<open>
  What \<open>Validate\<close> accepts: the declarative form of the rules it checks one by one, stopping at the
  first that is broken.
\<close>

definition point_ok :: "Mark \<Rightarrow> Point \<Rightarrow> bool" where
  "point_ok mk pt \<longleftrightarrow> t_ns (pt_Time pt) \<noteq> t_ns zero_time
     \<and> (\<forall>v\<in>set [pt_Value pt, pt_Low pt, pt_High pt, pt_Direction pt]. \<not> not_finite_ptr v)
     \<and> (mk = MarkBand \<longrightarrow> (\<forall>l h. pt_Low pt = Some l \<and> pt_High pt = Some h \<longrightarrow> \<not> fgt l h))"

definition points_sorted :: "Point list \<Rightarrow> bool" where
  "points_sorted pts \<longleftrightarrow> sorted (List.map (\<lambda>p. t_ns (pt_Time p)) pts)"

definition series_ok :: "Series \<Rightarrow> bool" where
  "series_ok ser \<longleftrightarrow> se_Name ser \<noteq> [] \<and> 0 \<le> se_Slot ser \<and> se_Slot ser \<le> 8
     \<and> se_Mark ser \<in> {MarkLine, MarkStep, MarkBand, MarkBar, []}
     \<and> (\<forall>pt\<in>set (se_Points ser). point_ok (se_Mark ser) pt) \<and> points_sorted (se_Points ser)"

definition band_ok :: "Band \<Rightarrow> bool" where
  "band_ok b \<longleftrightarrow> bd_Label b \<noteq> [] \<and> Status_validate (bd_Status b) = None"

text \<open>One unit per panel.\<close>

definition one_unit :: "unicode \<Rightarrow> Series list \<Rightarrow> bool" where
  "one_unit U sers \<longleftrightarrow> (\<exists>u. \<forall>ser\<in>set sers. EffectiveUnit U ser = u)"

definition panel_ok :: "unicode \<Rightarrow> Panel \<Rightarrow> bool" where
  "panel_ok U p \<longleftrightarrow> pa_Series p \<noteq> [] \<and> (\<forall>ser\<in>set (pa_Series p). series_ok ser) \<and> one_unit U (pa_Series p)
     \<and> (\<forall>b\<in>set (pa_Bands p). band_ok b)"

definition rose_options_ok :: "WindroseOptions \<Rightarrow> bool" where
  "rose_options_ok w \<longleftrightarrow>
     (wo_Sectors w = 0 \<or> 4 \<le> wo_Sectors w \<and> wo_Sectors w \<le> 72 \<and> 360 mod wo_Sectors w = 0)
     \<and> bands_ascend (wo_SpeedBands w) \<and> (wo_SpeedBands w = [] \<or> \<not> fle (hd (wo_SpeedBands w)) (Fin 0))"

definition rose_ok :: "Spec \<Rightarrow> bool" where
  "rose_ok s \<longleftrightarrow> (\<exists>p ser. sp_Panels s = [p] \<and> pa_Series p = [ser] \<and> (\<exists>pt\<in>set (se_Points ser). has_reading pt))
     \<and> (case sp_Windrose s of None \<Rightarrow> True | Some w \<Rightarrow> rose_options_ok w)"

definition side_ok :: "int \<Rightarrow> int \<Rightarrow> int \<Rightarrow> bool" where
  "side_ok lo hi x \<longleftrightarrow> x = 0 \<or> lo \<le> x \<and> x \<le> hi"

definition spec_ok :: "unicode \<Rightarrow> Spec \<Rightarrow> bool" where
  "spec_ok U s \<longleftrightarrow>
     sp_Kind s \<in> {KindTimeSeries, KindMeteogram, KindWindrose} \<and> sp_Mode s \<in> {ModeLight, ModeDark, []}
     \<and> sp_Panels s \<noteq> [] \<and> (sp_Kind s = KindMeteogram \<or> length (sp_Panels s) = 1)
     \<and> side_ok 240 4096 (sp_Width s) \<and> side_ok 160 4096 (sp_Height s)
     \<and> (\<forall>p\<in>set (sp_Panels s). panel_ok U p) \<and> total_series (sp_Panels s) \<le> 8
     \<and> (sp_Kind s = KindWindrose \<longrightarrow> rose_ok s)"

lemma first_error: "(case x of None \<Rightarrow> y | Some e \<Rightarrow> Some e) = None \<longleftrightarrow> x = None \<and> y = None"
  by (cases x) auto

lemma validate_points_None:
  "validate_points idx ser k prev pts = None \<longleftrightarrow>
     (\<forall>pt\<in>set pts. point_ok (se_Mark ser) pt) \<and> points_sorted pts
     \<and> (case (prev, pts) of (Some u, p # _) \<Rightarrow> t_ns u \<le> t_ns (pt_Time p) | _ \<Rightarrow> True)"
proof (induction idx ser k prev pts rule: validate_points.induct)
  case (2 idx ser k prev pt pts)
  have ok: "point_ok (se_Mark ser) pt \<longleftrightarrow> t_ns (pt_Time pt) \<noteq> t_ns zero_time
      \<and> \<not> list_ex not_finite_ptr [pt_Value pt, pt_Low pt, pt_High pt, pt_Direction pt]
      \<and> \<not> (se_Mark ser = MarkBand \<and> pt_Low pt \<noteq> None \<and> pt_High pt \<noteq> None \<and> fgt (the (pt_Low pt)) (the (pt_High pt)))"
    by (auto simp: point_ok_def)
  have srt: "points_sorted (pt # pts) \<longleftrightarrow> points_sorted pts \<and> (case pts of p # _ \<Rightarrow> t_ns (pt_Time pt) \<le> t_ns (pt_Time p) | [] \<Rightarrow> True)"
    by (cases pts) (auto simp: points_sorted_def)
  show ?case
    using 2 unfolding validate_points.simps
    by (simp only: list.set(2) ball_simps(7) ok srt) (auto split: option.splits list.splits)
qed (simp add: points_sorted_def split: option.splits)

lemma validate_series_None:
  "validate_series U idx j unit ser = None \<longleftrightarrow> series_ok ser \<and> (\<forall>u. unit = Some u \<longrightarrow> EffectiveUnit U ser = u)"
  by (cases unit) (auto simp: validate_series_def chart_validatePoints_def validate_points_None series_ok_def maxSeries_def)

lemma validate_all_series_None:
  "validate_all_series U idx j unit sers = None \<longleftrightarrow>
     (\<forall>ser\<in>set sers. series_ok ser) \<and> (case unit of None \<Rightarrow> one_unit U sers | Some u \<Rightarrow> \<forall>ser\<in>set sers. EffectiveUnit U ser = u)"
proof (induction U idx j unit sers rule: validate_all_series.induct)
  case (2 U idx j unit ser sers)
  note v = validate_series_None[of U idx j unit ser]
  show ?case
  proof (cases "validate_series U idx j unit ser")
    case None
    then show ?thesis using 2[OF None] v by (cases unit) (auto simp: one_unit_def)
  next
    case (Some e)
    then show ?thesis using v by (cases unit) (auto simp: one_unit_def)
  qed
qed (auto simp: one_unit_def split: option.splits)

lemma validate_bands_None: "validate_bands idx j bs = None \<longleftrightarrow> (\<forall>b\<in>set bs. band_ok b)"
proof (induction idx j bs rule: validate_bands.induct)
  case (2 idx j b bs)
  then show ?case by (cases "Status_validate (bd_Status b)") (auto simp: band_ok_def)
qed simp

lemma validate_panels_None: "validate_panels U i ps = None \<longleftrightarrow> (\<forall>p\<in>set ps. panel_ok U p)"
proof (induction U i ps rule: validate_panels.induct)
  case (2 U i p ps)
  then show ?case
    by (simp add: first_error validatePanel_def validate_all_series_None validate_bands_None panel_ok_def) blast
qed simp

lemma validateSize_None: "validateSize s = None \<longleftrightarrow> side_ok 240 4096 (sp_Width s) \<and> side_ok 160 4096 (sp_Height s)"
  by (auto simp: validateSize_def side_ok_def size_defs)

lemma validateWindroseSpec_None: "validateWindroseSpec s = None \<longleftrightarrow> rose_ok s"
proof (cases "\<exists>p ser. sp_Panels s = [p] \<and> pa_Series p = [ser]")
  case True
  then obtain p ser where p: "sp_Panels s = [p]" "pa_Series p = [ser]" by blast
  show ?thesis
    by (cases "sp_Windrose s")
      (auto simp: validateWindroseSpec_def p rose_ok_def rose_options_ok_def no_options_def Let_def list_ex_iff)
next
  case False
  then show ?thesis by (auto simp: validateWindroseSpec_def rose_ok_def split: list.splits)
qed

lemma Validate_spec_None: "Validate_spec U s = None \<longleftrightarrow> spec_ok U s"
proof -
  have total: "int (total_series (sp_Panels s)) > maxSeries \<longleftrightarrow> \<not> total_series (sp_Panels s) \<le> 8" by (auto simp: maxSeries_def)
  have one: "sp_Panels s \<noteq> [] \<Longrightarrow> length (sp_Panels s) > 1 \<longleftrightarrow> length (sp_Panels s) \<noteq> 1" by (cases "sp_Panels s") auto
  have rose: "(if sp_Kind s = KindWindrose then validateWindroseSpec s else None) = None \<longleftrightarrow> (sp_Kind s = KindWindrose \<longrightarrow> rose_ok s)"
    by (simp add: validateWindroseSpec_None)
  have first: "(if b then Some x else r) = None \<longleftrightarrow> \<not> b \<and> r = None" for b x and r :: "spec_error option" by simp
  show ?thesis
    unfolding Validate_spec_def spec_ok_def total first first_error rose validateSize_None validate_panels_None not_not
    using one by blast
qed

text \<open>C13. \<open>Validate\<close> accepts exactly the well-formed specifications: a known kind and mode, at least one
  panel and only one outside a meteogram, sides of 0 or within 240 to 4096 and 160 to 4096, every
  series named, with a slot of 0 to 8 and a known mark, one unit per panel, samples in time order with
  finite values and no band upside down, labelled bands of a known status, at most eight series, and
  for a wind rose exactly one series, sectors that divide the circle, ascending positive speed classes
  and a point with both a direction and a speed.\<close>

theorem Validate_exact: "Validate_spec U s = None \<longleftrightarrow> spec_ok U s"
  by (rule Validate_spec_None)

end
