(* ===== verification/ChartResolved.thy ===== *)
theory ChartResolved
  imports ChartBuild ChartTicks ChartDomain ChartValid
begin

text \<open>
  Correctness of the resolution: it returns for every specification that \<open>Validate\<close> accepts, what it
  returns is well-formed again, the series get distinct colours, the y domain holds the data, and
  rows of readings become a valid specification in any order.
\<close>

subsection \<open>The registry\<close>

lemma Parameter_entry: "Parameter U name = Some d \<Longrightarrow> pd_Mark d \<in> {MarkBar, []} \<and> pd_Label d \<noteq> []"
  using Parameter_ok[of U name d] by (auto simp: def_ok_def)

lemma EffectiveMark_cases:
  "EffectiveMark U ser = se_Mark ser \<and> se_Mark ser \<noteq> [] \<or> se_Mark ser = [] \<and> EffectiveMark U ser \<in> {MarkLine, MarkBar}"
proof (cases "Parameter U (se_Parameter ser)")
  case (Some d)
  then show ?thesis using Parameter_entry[OF Some] by (auto simp: EffectiveMark_def)
qed (auto simp: EffectiveMark_def)

subsection \<open>Series and slots\<close>

text \<open>A series as the resolution leaves it, for a palette.\<close>

definition series_resolved :: "unicode \<Rightarrow> ResolvedPalette \<Rightarrow> Series \<Rightarrow> Series \<Rightarrow> bool" where
  "series_resolved U palette ser ser' \<longleftrightarrow>
     se_Unit ser' = EffectiveUnit U ser \<and> se_Mark ser' = EffectiveMark U ser \<and> 1 \<le> se_Slot ser' \<and> se_Slot ser' \<le> 8
     \<and> (se_Slot ser \<noteq> 0 \<longrightarrow> se_Slot ser' = se_Slot ser) \<and> se_Color ser' = rp_Series palette ! nat (se_Slot ser' - 1)
     \<and> se_Name ser' = se_Name ser \<and> se_Parameter ser' = se_Parameter ser \<and> se_Points ser' = se_Points ser"

lemma EffectiveMark_unit [simp]: "EffectiveMark U (ser\<lparr>se_Unit := u\<rparr>) = EffectiveMark U ser"
  by (simp add: EffectiveMark_def)

lemma resolve_series_Some:
  assumes "series_ok ser" "0 \<le> slot" "slot < 8"
  obtains slot' ser' where "resolve_series U (PaletteFor mode) slot ser = Some (slot', ser')"
    "series_resolved U (PaletteFor mode) ser ser'" "slot' = (if se_Slot ser = 0 then slot + 1 else slot)"
    "se_Slot ser = 0 \<longrightarrow> se_Slot ser' = slot + 1"
proof -
  let ?k = "if se_Slot ser = 0 then slot + 1 else se_Slot ser"
  let ?ser' = "ser\<lparr>se_Unit := EffectiveUnit U ser, se_Mark := EffectiveMark U ser, se_Slot := ?k,
    se_Color := rp_Series (PaletteFor mode) ! nat (?k - 1)\<rparr>"
  have k: "1 \<le> ?k" "?k \<le> 8" using assms by (auto simp: series_ok_def)
  have "resolve_series U (PaletteFor mode) slot ser = Some (if se_Slot ser = 0 then slot + 1 else slot, ?ser')"
    using SeriesColor_slot[OF k, of mode] by (cases "se_Slot ser = 0") (simp_all add: resolve_series_def Let_def)
  moreover have "series_resolved U (PaletteFor mode) ser ?ser'" using k by (simp add: series_resolved_def)
  ultimately show thesis using that by simp
qed

lemma resolve_all_series_Some:
  assumes "\<forall>ser\<in>set sers. series_ok ser" "0 \<le> slot" "slot + int (length sers) \<le> 8"
  shows "\<exists>slot' sers'. resolve_all_series U (PaletteFor mode) slot sers = Some (slot', sers')
     \<and> list_all2 (series_resolved U (PaletteFor mode)) sers sers' \<and> slot \<le> slot' \<and> slot' \<le> slot + int (length sers)
     \<and> ((\<forall>ser\<in>set sers. se_Slot ser = 0) \<longrightarrow> slot' = slot + int (length sers) \<and> List.map se_Slot sers' = [slot + 1..slot'])"
  using assms
proof (induction sers arbitrary: slot)
  case (Cons ser sers)
  then have "series_ok ser" "0 \<le> slot" "slot < 8" by simp_all
  then obtain s1 ser1 where 1: "resolve_series U (PaletteFor mode) slot ser = Some (s1, ser1)"
    "series_resolved U (PaletteFor mode) ser ser1" "s1 = (if se_Slot ser = 0 then slot + 1 else slot)"
    "se_Slot ser = 0 \<longrightarrow> se_Slot ser1 = slot + 1" using resolve_series_Some[of ser slot U mode] by blast
  have pre: "\<forall>ser\<in>set sers. series_ok ser" "0 \<le> s1" "s1 + int (length sers) \<le> 8" using 1(3) Cons.prems by auto
  from Cons.IH[OF this] obtain s2 sers2 where 2: "resolve_all_series U (PaletteFor mode) s1 sers = Some (s2, sers2)"
    "list_all2 (series_resolved U (PaletteFor mode)) sers sers2" "s1 \<le> s2" "s2 \<le> s1 + int (length sers)"
    "(\<forall>ser\<in>set sers. se_Slot ser = 0) \<longrightarrow> s2 = s1 + int (length sers) \<and> List.map se_Slot sers2 = [s1 + 1..s2]"
    by blast
  have "resolve_all_series U (PaletteFor mode) slot (ser # sers) = Some (s2, ser1 # sers2)" using 1(1) 2(1) by simp
  moreover have "slot \<le> s2" "s2 \<le> slot + int (length (ser # sers))" using 1(3) 2(3,4) by (auto split: if_splits)
  moreover have "s2 = slot + int (length (ser # sers)) \<and> List.map se_Slot (ser1 # sers2) = [slot + 1..s2]"
    if "\<forall>x\<in>set (ser # sers). se_Slot x = 0"
    using that 1(3,4) 2(5) by (simp add: upto_rec1[of "slot + 1"])
  ultimately show ?case using 1(2) 2(2) by simp
qed simp

subsection \<open>Panels\<close>

lemma series_resolved_ok:
  assumes "series_ok ser" "series_resolved U palette ser ser'"
  shows "series_ok ser'" "EffectiveUnit U ser' = EffectiveUnit U ser" "se_Mark ser' \<in> {MarkLine, MarkStep, MarkBand, MarkBar}"
proof -
  have r: "se_Unit ser' = EffectiveUnit U ser" "se_Mark ser' = EffectiveMark U ser" "1 \<le> se_Slot ser'" "se_Slot ser' \<le> 8"
    "se_Name ser' = se_Name ser" "se_Parameter ser' = se_Parameter ser" "se_Points ser' = se_Points ser"
    using assms(2) by (simp_all add: series_resolved_def)
  have o: "se_Name ser \<noteq> []" "se_Mark ser \<in> {MarkLine, MarkStep, MarkBand, MarkBar, []}"
    "\<forall>pt\<in>set (se_Points ser). point_ok (se_Mark ser) pt" "points_sorted (se_Points ser)"
    using assms(1) by (simp_all add: series_ok_def)
  have mark: "se_Mark ser' = se_Mark ser \<and> se_Mark ser \<noteq> [] \<or> se_Mark ser' \<in> {MarkLine, MarkBar}"
    using EffectiveMark_cases[of U ser] r(2) by auto
  then show m: "se_Mark ser' \<in> {MarkLine, MarkStep, MarkBand, MarkBar}" using o(2) by auto
  have "\<forall>pt\<in>set (se_Points ser). point_ok (se_Mark ser') pt"
    using mark o(3) by (auto simp: point_ok_def MarkLine_def MarkBar_def MarkBand_def)
  moreover have "se_Mark ser' \<in> {MarkLine, MarkStep, MarkBand, MarkBar, []}" using m by blast
  ultimately show "series_ok ser'" using r(3-7) o(1,4) unfolding series_ok_def by simp
  show "EffectiveUnit U ser' = EffectiveUnit U ser" using r by (simp add: EffectiveUnit_def split: option.splits)
qed

definition panel_resolved :: "chart_libs \<Rightarrow> ResolvedPalette \<Rightarrow> Panel \<Rightarrow> Panel \<Rightarrow> bool" where
  "panel_resolved L palette p p' \<longleftrightarrow>
     (\<exists>sers bands. p' = resolveY L (p\<lparr>pa_Series := sers, pa_Bands := bands\<rparr>)
       \<and> list_all2 (series_resolved (cl_unicode L) palette) (pa_Series p) sers
       \<and> (\<forall>b\<in>set bands. bd_Color b = StatusColor palette (bd_Status b)))
     \<and> panel_ok (cl_unicode L) p'"

lemma resolveY_fields:
  "\<exists>y. resolveY L p = p\<lparr>pa_Y := y\<lparr>ax_Min := Some (fst (y_domain L p)), ax_Max := Some (fst (snd (y_domain L p))),
     ax_Zero := wants_zero (cl_unicode L) p,
     ax_Ticks := numericTicks L (fst (y_domain L p)) (fst (snd (y_domain L p))) (snd (snd (y_domain L p))) (decimals (cl_unicode L) p)\<rparr>\<rparr>"
  by (simp only: resolveY_def Let_def case_prod_beta) (rule exI, rule refl)

lemma resolveY_simps [simp]:
  "pa_Series (resolveY L p) = pa_Series p" "pa_Bands (resolveY L p) = pa_Bands p" "pa_Title (resolveY L p) = pa_Title p"
  "ax_Min (pa_Y (resolveY L p)) = Some (fst (y_domain L p))" "ax_Max (pa_Y (resolveY L p)) = Some (fst (snd (y_domain L p)))"
  "ax_Zero (pa_Y (resolveY L p)) = wants_zero (cl_unicode L) p"
  using resolveY_fields[of L p] by auto

lemma resolve_panel_Some:
  assumes "panel_ok (cl_unicode L) p" "0 \<le> slot" "slot + int (length (pa_Series p)) \<le> 8"
  shows "\<exists>slot' p'. resolve_panel L (PaletteFor mode) slot p = Some (slot', p') \<and> panel_resolved L (PaletteFor mode) p p'
     \<and> slot \<le> slot' \<and> slot' \<le> slot + int (length (pa_Series p))
     \<and> ((\<forall>ser\<in>set (pa_Series p). se_Slot ser = 0) \<longrightarrow>
          slot' = slot + int (length (pa_Series p)) \<and> List.map se_Slot (pa_Series p') = [slot + 1..slot'])"
proof -
  let ?U = "cl_unicode L" and ?pal = "PaletteFor mode"
  have ok: "pa_Series p \<noteq> []" "\<forall>ser\<in>set (pa_Series p). series_ok ser" "one_unit ?U (pa_Series p)" "\<forall>b\<in>set (pa_Bands p). band_ok b"
    using assms(1) by (simp_all add: panel_ok_def)
  obtain slot' sers where s: "resolve_all_series ?U ?pal slot (pa_Series p) = Some (slot', sers)"
    "list_all2 (series_resolved ?U ?pal) (pa_Series p) sers" "slot \<le> slot'" "slot' \<le> slot + int (length (pa_Series p))"
    "(\<forall>ser\<in>set (pa_Series p). se_Slot ser = 0) \<longrightarrow> slot' = slot + int (length (pa_Series p)) \<and> List.map se_Slot sers = [slot + 1..slot']"
    using resolve_all_series_Some[OF ok(2) assms(2,3), of ?U mode] by blast
  define bands where "bands = pa_Bands (resolveBands L ?pal (p\<lparr>pa_Series := sers\<rparr>))"
  define p' where "p' = resolveY L (p\<lparr>pa_Series := sers, pa_Bands := bands\<rparr>)"
  have "resolveBands L ?pal (p\<lparr>pa_Series := sers\<rparr>) = p\<lparr>pa_Series := sers, pa_Bands := bands\<rparr>"
    by (simp add: bands_def resolveBands_def Let_def)
  then have eq: "resolve_panel L ?pal slot p = Some (slot', p')" by (simp add: resolve_panel_def s(1) p'_def)
  have bands: "\<forall>b\<in>set bands. bd_Color b = StatusColor ?pal (bd_Status b) \<and> band_ok b"
    using ok(4) BandsFor_ok by (auto simp: bands_def resolveBands_def Let_def band_ok_def)
  have sers: "\<forall>ser'\<in>set sers. \<exists>ser\<in>set (pa_Series p). series_resolved ?U ?pal ser ser'"
    using s(2) by (metis in_set_conv_nth list_all2_conv_all_nth)
  have "panel_ok ?U p'"
    unfolding panel_ok_def p'_def
  proof (intro conjI)
    show "pa_Series (resolveY L (p\<lparr>pa_Series := sers, pa_Bands := bands\<rparr>)) \<noteq> []" using s(2) ok(1) by auto
    show "\<forall>ser\<in>set (pa_Series (resolveY L (p\<lparr>pa_Series := sers, pa_Bands := bands\<rparr>))). series_ok ser"
      using sers ok(2) series_resolved_ok(1) by fastforce
    show "one_unit ?U (pa_Series (resolveY L (p\<lparr>pa_Series := sers, pa_Bands := bands\<rparr>)))"
      using sers ok(2,3) series_resolved_ok(2) unfolding one_unit_def by simp metis
    show "\<forall>b\<in>set (pa_Bands (resolveY L (p\<lparr>pa_Series := sers, pa_Bands := bands\<rparr>))). band_ok b" using bands by simp
  qed
  then have "panel_resolved L ?pal p p'" using s(2) bands unfolding panel_resolved_def p'_def by blast
  then show ?thesis using eq s(3-5) by (simp add: p'_def)
qed

lemma resolve_panels_Some:
  assumes "\<forall>p\<in>set ps. panel_ok (cl_unicode L) p" "0 \<le> slot" "slot + int (total_series ps) \<le> 8"
  shows "\<exists>slot' ps'. resolve_panels L (PaletteFor mode) slot ps = Some (slot', ps') \<and> list_all2 (panel_resolved L (PaletteFor mode)) ps ps'
     \<and> ((\<forall>ser\<in>set (List.concat (List.map pa_Series ps)). se_Slot ser = 0) \<longrightarrow>
          slot' = slot + int (total_series ps) \<and> List.map se_Slot (List.concat (List.map pa_Series ps')) = [slot + 1..slot'])"
  using assms
proof (induction ps arbitrary: slot)
  case Nil
  then show ?case by (simp add: total_series_def)
next
  case (Cons p ps)
  have t: "total_series (p # ps) = length (pa_Series p) + total_series ps" by (simp add: total_series_def)
  have 0: "panel_ok (cl_unicode L) p" "0 \<le> slot" "slot + int (length (pa_Series p)) \<le> 8" using Cons.prems t by simp_all
  obtain s1 p1 where 1: "resolve_panel L (PaletteFor mode) slot p = Some (s1, p1)" "panel_resolved L (PaletteFor mode) p p1"
    "slot \<le> s1" "s1 \<le> slot + int (length (pa_Series p))"
    "(\<forall>ser\<in>set (pa_Series p). se_Slot ser = 0) \<longrightarrow>
       s1 = slot + int (length (pa_Series p)) \<and> List.map se_Slot (pa_Series p1) = [slot + 1..s1]"
    using resolve_panel_Some[OF 0, of mode] by blast
  have pre: "\<forall>p\<in>set ps. panel_ok (cl_unicode L) p" "0 \<le> s1" "s1 + int (total_series ps) \<le> 8" using Cons.prems 1(3,4) t by simp_all
  from Cons.IH[OF this] obtain s2 ps2 where 2: "resolve_panels L (PaletteFor mode) s1 ps = Some (s2, ps2)"
    "list_all2 (panel_resolved L (PaletteFor mode)) ps ps2"
    "(\<forall>ser\<in>set (List.concat (List.map pa_Series ps)). se_Slot ser = 0) \<longrightarrow>
       s2 = s1 + int (total_series ps) \<and> List.map se_Slot (List.concat (List.map pa_Series ps2)) = [s1 + 1..s2]" by blast
  have "resolve_panels L (PaletteFor mode) slot (p # ps) = Some (s2, p1 # ps2)" using 1(1) 2(1) by simp
  moreover have "s2 = slot + int (total_series (p # ps))
      \<and> List.map se_Slot (List.concat (List.map pa_Series (p1 # ps2))) = [slot + 1..s2]"
    if "\<forall>ser\<in>set (List.concat (List.map pa_Series (p # ps))). se_Slot ser = 0"
  proof -
    have s: "s1 = slot + int (length (pa_Series p))" "List.map se_Slot (pa_Series p1) = [slot + 1..s1]"
      "s2 = s1 + int (total_series ps)" "List.map se_Slot (List.concat (List.map pa_Series ps2)) = [s1 + 1..s2]"
      using that 1(5) 2(3) by simp_all
    have "pa_Series p \<noteq> []" using 0(1) by (simp add: panel_ok_def)
    then have "slot + 1 \<le> s1" "s1 \<le> s2" using s(1,3) by (simp_all add: Suc_le_eq)
    then show ?thesis using s t upto_split2[of "slot + 1" s1 s2] by simp
  qed
  ultimately show ?case using 1(2) 2(2) by simp
qed

subsection \<open>The whole resolution\<close>

lemma applyDefaults_simps [simp]:
  "sp_Kind (applyDefaults s) = sp_Kind s" "sp_Panels (applyDefaults s) = sp_Panels s" "sp_X (applyDefaults s) = sp_X s"
  "sp_Windrose (applyDefaults s) = sp_Windrose s"
  "sp_Mode (applyDefaults s) = (if sp_Mode s = [] then ModeLight else sp_Mode s)"
  "sp_Width (applyDefaults s) = (if sp_Width s = 0 then 800 else sp_Width s)"
  "sp_Height (applyDefaults s) = (if sp_Height s = 0 then 600 else sp_Height s)"
  by (simp_all add: applyDefaults_def Let_def size_defs)

lemma resolveX_Some:
  "\<exists>t0 t1 ticks. t_ns t0 < t_ns t1 \<and> timeTicks L t0 t1 = Some ticks
     \<and> resolveX L now0 now1 s = Some (s\<lparr>sp_X := (sp_X s)\<lparr>ax_Min := Some (f_of_int (unix_milli t0)),
          ax_Max := Some (f_of_int (unix_milli t1)), ax_Ticks := ticks\<rparr>\<rparr>)"
proof -
  obtain e0 e1 where e: "(case timeExtent s of Some e \<Rightarrow> e | None \<Rightarrow> (time_utc now0, time_add (time_utc now1) Hour)) = (e0, e1)"
    by fastforce
  define ms where "ms = (\<lambda>v. of_unix_milli (to_int64 (cl_oob L) v))"
  define t0 where "t0 = (case ax_Min (sp_X s) of Some v \<Rightarrow> (ms v)\<lparr>t_loc := t_loc e0\<rparr> | None \<Rightarrow> e0)"
  define u where "u = (case ax_Max (sp_X s) of Some v \<Rightarrow> (ms v)\<lparr>t_loc := t_loc e1\<rparr> | None \<Rightarrow> e1)"
  define t1 where "t1 = (if time_after u t0 then u else time_add t0 Hour)"
  have lt: "t_ns t0 < t_ns t1" by (simp add: t1_def time_after_def)
  obtain ticks where ticks: "timeTicks L t0 t1 = Some ticks" using timeTicks_loop[OF lt, of L] by metis
  have "resolveX L now0 now1 s = Option.bind (timeTicks L t0 t1) (\<lambda>ticks.
      Some (s\<lparr>sp_X := (sp_X s)\<lparr>ax_Min := Some (f_of_int (unix_milli t0)), ax_Max := Some (f_of_int (unix_milli t1)), ax_Ticks := ticks\<rparr>\<rparr>))"
    unfolding resolveX_def Let_def e prod.case t1_def t0_def u_def ms_def by (rule refl)
  then show ?thesis using lt ticks by auto
qed

lemma Resolved_panels:
  assumes "Validate_spec (cl_unicode L) (applyDefaults s) = None"
  obtains panels where "list_all2 (panel_resolved L (PaletteFor (sp_Mode (applyDefaults s)))) (sp_Panels s) panels"
    "Resolved L now0 now1 s = map_option Inr (let r = (applyDefaults s)\<lparr>sp_Palette := Some (PaletteFor (sp_Mode (applyDefaults s))),
       sp_Panels := panels\<rparr> in if sp_Kind s = KindWindrose then resolveRose L r else resolveX L now0 now1 r)"
    "(\<forall>ser\<in>set (List.concat (List.map pa_Series (sp_Panels s))). se_Slot ser = 0) \<Longrightarrow>
       List.map se_Slot (List.concat (List.map pa_Series panels)) = [1..int (total_series (sp_Panels s))]"
    "spec_ok (cl_unicode L) (applyDefaults s)"
proof -
  let ?m = "sp_Mode (applyDefaults s)"
  have ok: "spec_ok (cl_unicode L) (applyDefaults s)" using assms by (simp only: Validate_spec_None)
  then have "\<forall>p\<in>set (sp_Panels s). panel_ok (cl_unicode L) p" "0 + int (total_series (sp_Panels s)) \<le> 8"
    by (simp_all add: spec_ok_def)
  then obtain slot panels where p: "resolve_panels L (PaletteFor ?m) 0 (sp_Panels s) = Some (slot, panels)"
    "list_all2 (panel_resolved L (PaletteFor ?m)) (sp_Panels s) panels"
    "(\<forall>ser\<in>set (List.concat (List.map pa_Series (sp_Panels s))). se_Slot ser = 0) \<longrightarrow>
       slot = 0 + int (total_series (sp_Panels s)) \<and> List.map se_Slot (List.concat (List.map pa_Series panels)) = [0 + 1..slot]"
    using resolve_panels_Some[of "sp_Panels s" L 0 ?m] by blast
  have "Resolved L now0 now1 s = map_option Inr (let r = (applyDefaults s)\<lparr>sp_Palette := Some (PaletteFor ?m), sp_Panels := panels\<rparr>
      in if sp_Kind s = KindWindrose then resolveRose L r else resolveX L now0 now1 r)"
    using p(1) assms by (simp add: Resolved_def Let_def)
  then show thesis using that p(2,3) ok by simp
qed

lemma panel_resolved_total:
  "list_all2 (panel_resolved L pal) ps ps' \<Longrightarrow> total_series ps' = total_series ps \<and> length ps' = length ps"
  by (induction rule: list_all2_induct)
    (auto simp: total_series_def panel_resolved_def dest: list_all2_lengthD)

lemma panel_resolved_ok:
  "list_all2 (panel_resolved L pal) ps ps' \<Longrightarrow> \<forall>p\<in>set ps'. panel_ok (cl_unicode L) p"
  by (induction rule: list_all2_induct) (auto simp: panel_resolved_def)

text \<open>C10. The resolution always completes. \<open>Resolved\<close> answers the error of \<open>Validate\<close> after the defaults
  and nothing else; otherwise, for a time series or a meteogram, it returns (no index out of range, the
  tick loops end) a specification that \<open>Validate\<close> accepts again, with the palette of its mode, sides
  within the limits, the samples unchanged, and every series with its unit, one of the four marks, a
  slot of 1 to 8 and the colour of that slot, and every panel with a y domain.\<close>

theorem Resolved_valid:
  assumes "sp_Kind s \<noteq> KindWindrose"
  shows "case Validate_spec (cl_unicode L) (applyDefaults s) of
      Some e \<Rightarrow> Resolved L now0 now1 s = Some (Inl e)
    | None \<Rightarrow> (\<exists>r. Resolved L now0 now1 s = Some (Inr r) \<and> Validate_spec (cl_unicode L) r = None
        \<and> sp_Mode r \<in> {ModeLight, ModeDark} \<and> sp_Palette r = Some (PaletteFor (sp_Mode r))
        \<and> 240 \<le> sp_Width r \<and> sp_Width r \<le> 4096 \<and> 160 \<le> sp_Height r \<and> sp_Height r \<le> 4096
        \<and> ax_Min (sp_X r) \<noteq> None \<and> ax_Max (sp_X r) \<noteq> None
        \<and> list_all2 (\<lambda>p p'. list_all2 (series_resolved (cl_unicode L) (PaletteFor (sp_Mode r))) (pa_Series p) (pa_Series p')
            \<and> (\<forall>ser\<in>set (pa_Series p'). se_Mark ser \<in> {MarkLine, MarkStep, MarkBand, MarkBar})
            \<and> ax_Min (pa_Y p') \<noteq> None \<and> ax_Max (pa_Y p') \<noteq> None) (sp_Panels s) (sp_Panels r))"
proof (cases "Validate_spec (cl_unicode L) (applyDefaults s)")
  case (Some e)
  then show ?thesis by (simp add: Resolved_def)
next
  case None
  let ?m = "sp_Mode (applyDefaults s)"
  obtain panels where p: "list_all2 (panel_resolved L (PaletteFor ?m)) (sp_Panels s) panels"
    "Resolved L now0 now1 s = map_option Inr (let r = (applyDefaults s)\<lparr>sp_Palette := Some (PaletteFor ?m),
       sp_Panels := panels\<rparr> in if sp_Kind s = KindWindrose then resolveRose L r else resolveX L now0 now1 r)"
    and ok: "spec_ok (cl_unicode L) (applyDefaults s)"
    using Resolved_panels[OF None, of now0 now1] by metis
  define d where "d = (applyDefaults s)\<lparr>sp_Palette := Some (PaletteFor ?m), sp_Panels := panels\<rparr>"
  obtain x where x: "resolveX L now0 now1 d = Some (d\<lparr>sp_X := x\<rparr>)" "ax_Min x \<noteq> None" "ax_Max x \<noteq> None"
    using resolveX_Some[of L now0 now1 d] by auto
  let ?r = "d\<lparr>sp_X := x\<rparr>"
  have res: "Resolved L now0 now1 s = Some (Inr ?r)" using p(2) x(1) assms by (simp add: d_def Let_def)
  have "panels \<noteq> [] \<and> length panels = length (sp_Panels s)" using ok panel_resolved_total[OF p(1)] by (auto simp: spec_ok_def)
  then have valid: "spec_ok (cl_unicode L) ?r"
    using ok assms panel_resolved_ok[OF p(1)] panel_resolved_total[OF p(1)] by (auto simp: spec_ok_def d_def)
  have sides: "sp_Mode ?r \<in> {ModeLight, ModeDark}" "240 \<le> sp_Width ?r" "sp_Width ?r \<le> 4096" "160 \<le> sp_Height ?r" "sp_Height ?r \<le> 4096"
    using ok by (auto simp: spec_ok_def side_ok_def d_def split: if_splits)
  have each: "list_all2 (series_resolved (cl_unicode L) (PaletteFor ?m)) (pa_Series a) (pa_Series b)
      \<and> (\<forall>ser\<in>set (pa_Series b). se_Mark ser \<in> {MarkLine, MarkStep, MarkBand, MarkBar})
      \<and> ax_Min (pa_Y b) \<noteq> None \<and> ax_Max (pa_Y b) \<noteq> None"
    if ab: "panel_resolved L (PaletteFor ?m) a b" "panel_ok (cl_unicode L) a" for a b
  proof -
    have l: "list_all2 (series_resolved (cl_unicode L) (PaletteFor ?m)) (pa_Series a) (pa_Series b)"
      using ab(1) by (auto simp: panel_resolved_def)
    have "\<forall>ser\<in>set (pa_Series b). se_Mark ser \<in> {MarkLine, MarkStep, MarkBand, MarkBar}"
      using ab(2) l series_resolved_ok(3) by (metis in_set_conv_nth list_all2_conv_all_nth panel_ok_def)
    then show ?thesis using l ab(1) by (auto simp: panel_resolved_def)
  qed
  have "list_all2 (\<lambda>a b. panel_resolved L (PaletteFor ?m) a b \<and> panel_ok (cl_unicode L) a) (sp_Panels s) panels"
    using p(1) ok by (auto simp: list_all2_conv_all_nth spec_ok_def)
  then have all: "list_all2 (\<lambda>p p'. list_all2 (series_resolved (cl_unicode L) (PaletteFor (sp_Mode ?r))) (pa_Series p) (pa_Series p')
      \<and> (\<forall>ser\<in>set (pa_Series p'). se_Mark ser \<in> {MarkLine, MarkStep, MarkBand, MarkBar})
      \<and> ax_Min (pa_Y p') \<noteq> None \<and> ax_Max (pa_Y p') \<noteq> None) (sp_Panels s) (sp_Panels ?r)"
    using each by (auto simp: d_def elim!: list_all2_mono)
  show ?thesis
    unfolding None option.case
    using res valid sides x(2,3) all by (intro exI[of _ ?r]) (simp add: Validate_spec_None d_def)
qed

subsection \<open>Colours\<close>

lemma resolved_colors:
  assumes "list_all2 (panel_resolved L pal) ps ps'"
  shows "\<forall>ser\<in>set (List.concat (List.map pa_Series ps')). 1 \<le> se_Slot ser \<and> se_Slot ser \<le> 8
     \<and> se_Color ser = rp_Series pal ! nat (se_Slot ser - 1)"
  using assms
proof (induction rule: list_all2_induct)
  case (Cons p ps p' ps')
  have "list_all2 (series_resolved (cl_unicode L) pal) (pa_Series p) (pa_Series p')"
    using Cons(1) by (auto simp: panel_resolved_def)
  then have "\<forall>ser\<in>set (pa_Series p'). \<exists>ser0. series_resolved (cl_unicode L) pal ser0 ser"
    by (metis in_set_conv_nth list_all2_conv_all_nth)
  then show ?case using Cons(3) by (auto simp: series_resolved_def)
qed simp

lemma same_color:
  "1 \<le> a \<Longrightarrow> a \<le> 8 \<Longrightarrow> 1 \<le> b \<Longrightarrow> b \<le> 8 \<Longrightarrow>
   rp_Series (PaletteFor mode) ! nat (a - 1) = rp_Series (PaletteFor mode) ! nat (b - 1) \<longleftrightarrow> a = b"
  using SeriesColor_inj[of a b mode] by (auto simp: SeriesColor_slot)

text \<open>C32. No two series share a colour. When no series of a time series or meteogram pins a slot, the
  resolution hands out the slots 1, 2, 3 and so on in order of appearance over all panels, the colours
  are pairwise different in either mode, and none is a colour of the status scale.\<close>

theorem series_colors_distinct:
  assumes "Validate_spec (cl_unicode L) (applyDefaults s) = None" "sp_Kind s \<noteq> KindWindrose"
    and "\<forall>ser\<in>set (List.concat (List.map pa_Series (sp_Panels s))). se_Slot ser = 0"
  shows "\<exists>r sers. Resolved L now0 now1 s = Some (Inr r) \<and> sers = List.concat (List.map pa_Series (sp_Panels r))
    \<and> List.map se_Slot sers = [1..int (total_series (sp_Panels s))] \<and> distinct (List.map se_Color sers)
    \<and> (\<forall>ser\<in>set sers. \<forall>st. statusSteps st \<noteq> Some (se_Color ser))"
proof -
  let ?m = "sp_Mode (applyDefaults s)"
  obtain panels where p: "list_all2 (panel_resolved L (PaletteFor ?m)) (sp_Panels s) panels"
    "Resolved L now0 now1 s = map_option Inr (let r = (applyDefaults s)\<lparr>sp_Palette := Some (PaletteFor ?m),
       sp_Panels := panels\<rparr> in if sp_Kind s = KindWindrose then resolveRose L r else resolveX L now0 now1 r)"
    "List.map se_Slot (List.concat (List.map pa_Series panels)) = [1..int (total_series (sp_Panels s))]"
    using Resolved_panels[OF assms(1), of now0 now1] assms(3) by metis
  let ?sers = "List.concat (List.map pa_Series panels)"
  note c = resolved_colors[OF p(1)]
  obtain r where r: "Resolved L now0 now1 s = Some (Inr r)" "sp_Panels r = panels"
    using p(2) assms(2) resolveX_Some[of L now0 now1 "(applyDefaults s)\<lparr>sp_Palette := Some (PaletteFor ?m), sp_Panels := panels\<rparr>"]
    by (auto simp: Let_def)
  have "distinct (List.map se_Slot ?sers)" by (simp add: p(3))
  then have "inj_on se_Slot (set ?sers)" "distinct ?sers" by (simp_all only: distinct_map)
  moreover have "inj_on se_Color (set ?sers)"
    using calculation(1) c by (simp add: inj_on_def same_color)
  ultimately have d: "distinct (List.map se_Color ?sers)" by (simp only: distinct_map)
  have st: "statusSteps st \<noteq> Some (se_Color ser)" if "ser \<in> set ?sers" for ser st
  proof -
    note b = bspec[OF c that]
    then have "nat (se_Slot ser - 1) < length (rp_Series (PaletteFor ?m))" unfolding palette_lengths by linarith
    then have "se_Color ser \<in> set (rp_Series (PaletteFor ?m))" using b nth_mem by metis
    then show ?thesis using status_not_categorical[of st "se_Color ser" ?m] by blast
  qed
  show ?thesis using r p(3) d st by (intro exI[of _ r] exI[of _ ?sers]) simp
qed

subsection \<open>The y domain\<close>

lemma fmin_inf: "finite64 v \<Longrightarrow> fmin PosInf v = v" and fmax_inf: "finite64 v \<Longrightarrow> fmax NegInf v = v"
  by (auto simp: finite64_cases fmin_def fmax_def feq_def flt_def is_inf_def)

lemma fold_fmin:
  "finite64 a \<Longrightarrow> \<forall>v\<in>set vs. finite64 v \<Longrightarrow> finite64 (foldl fmin a vs) \<and> fval (foldl fmin a vs) = Min (insert (fval a) (fval ` set vs))"
proof (induction vs arbitrary: a)
  case (Cons v vs)
  then have "finite64 (fmin a v) \<and> fval (fmin a v) = min (fval a) (fval v)" using fmin_finite by simp
  then show ?case using Cons.IH[of "fmin a v"] Cons.prems
    by (cases "vs = []") (simp_all add: min.assoc min.left_commute)
qed simp

lemma fold_fmax:
  "finite64 a \<Longrightarrow> \<forall>v\<in>set vs. finite64 v \<Longrightarrow> finite64 (foldl fmax a vs) \<and> fval (foldl fmax a vs) = Max (insert (fval a) (fval ` set vs))"
proof (induction vs arbitrary: a)
  case (Cons v vs)
  then have "finite64 (fmax a v) \<and> fval (fmax a v) = max (fval a) (fval v)" using fmax_finite by simp
  then show ?case using Cons.IH[of "fmax a v"] Cons.prems
    by (cases "vs = []") (simp_all add: max.assoc max.left_commute)
qed simp

lemma fold_extent:
  assumes "vs \<noteq> []" "\<forall>v\<in>set vs. finite64 v"
  shows "finite64 (foldl fmin PosInf vs)" "fval (foldl fmin PosInf vs) = Min (fval ` set vs)"
    "finite64 (foldl fmax NegInf vs)" "fval (foldl fmax NegInf vs) = Max (fval ` set vs)"
  using assms fold_fmin fold_fmax by (cases vs; simp add: fmin_inf fmax_inf)+

lemma resolved_same:
  assumes "list_all2 (series_resolved U pal) (pa_Series p) sers"
  shows "panel_values (p\<lparr>pa_Series := sers, pa_Bands := bands\<rparr>) = panel_values p"
    "wants_zero U (p\<lparr>pa_Series := sers, pa_Bands := bands\<rparr>) = wants_zero U p"
proof -
  have "List.map se_Points sers = List.map se_Points (pa_Series p) \<and> List.map se_Parameter sers = List.map se_Parameter (pa_Series p)"
    using assms by (induction rule: list_all2_induct) (auto simp: series_resolved_def)
  then have e: "List.map se_Points sers = List.map se_Points (pa_Series p)" "List.map se_Parameter sers = List.map se_Parameter (pa_Series p)"
    by simp_all
  have pv: "panel_values q = List.concat (List.map (\<lambda>pts. List.concat (List.map point_values pts)) (List.map se_Points (pa_Series q)))"
    for q :: Panel by (simp add: panel_values_def o_def)
  have wz: "wants_zero U q \<longleftrightarrow> ax_Zero (pa_Y q)
      \<or> list_ex (\<lambda>n. case Parameter U n of Some d \<Rightarrow> pd_Zero d | None \<Rightarrow> False) (List.map se_Parameter (pa_Series q))" for q :: Panel
    by (simp add: wants_zero_def list_ex_iff)
  show "panel_values (p\<lparr>pa_Series := sers, pa_Bands := bands\<rparr>) = panel_values p" unfolding pv by (simp add: e)
  show "wants_zero U (p\<lparr>pa_Series := sers, pa_Bands := bands\<rparr>) = wants_zero U p" unfolding wz by (simp add: e)
qed

lemma panel_ok_values:
  assumes "panel_ok U p" shows "\<forall>v\<in>set (panel_values p). finite64 v"
proof
  fix v assume "v \<in> set (panel_values p)"
  then obtain ser pt where "ser \<in> set (pa_Series p)" "pt \<in> set (se_Points ser)" and v: "v \<in> set (point_values pt)"
    by (auto simp: panel_values_def)
  then have "point_ok (se_Mark ser) pt" using assms by (auto simp: panel_ok_def series_ok_def)
  then show "finite64 v" using v
    by (auto simp: point_ok_def point_values_def List.map_filter_def not_finite_ptr_def finite64_def split: if_splits)
qed

lemma y_domain_unpinned:
  assumes "ax_Min (pa_Y p) = None" "ax_Max (pa_Y p) = None" "panel_values p \<noteq> []"
    "niceDomain L (foldl fmin PosInf (panel_values p)) (foldl fmax NegInf (panel_values p)) (wants_zero (cl_unicode L) p) = (a, b, step)"
    "\<not> fle b a"
  shows "y_domain L p = (a, b, step)"
  using assms by (simp add: y_domain_def seriesExtent_def)

text \<open>C12. The y domain holds the data. For an unpinned panel of a validated time series or meteogram
  with reported values of at most a million, whose extreme values (with zero when a parameter of the
  panel accumulates) are equal or at least a thousandth apart, the resolved domain is a non-empty
  interval of finite ends that contains every reported value, low and high, and zero when it has to.\<close>

theorem y_domain_contains_data:
  assumes "Validate_spec (cl_unicode L) (applyDefaults s) = None" "sp_Kind s \<noteq> KindWindrose" "decimal_libm L"
    and "i < length (sp_Panels s)" "ax_Min (pa_Y (sp_Panels s ! i)) = None" "ax_Max (pa_Y (sp_Panels s ! i)) = None"
    and "vs = panel_values (sp_Panels s ! i)" "vs \<noteq> []" "\<forall>v\<in>set vs. f64_ok v \<and> \<bar>fval v\<bar> \<le> 10 ^ 6"
    and "z = wants_zero (cl_unicode L) (sp_Panels s ! i)"
    and "with_zero z (Min (fval ` set vs)) (Max (fval ` set vs)) = (l, h)" "h = l \<or> 1/1000 \<le> h - l"
  shows "\<exists>r a b. Resolved L now0 now1 s = Some (Inr r) \<and> ax_Min (pa_Y (sp_Panels r ! i)) = Some a
    \<and> ax_Max (pa_Y (sp_Panels r ! i)) = Some b \<and> finite64 a \<and> finite64 b \<and> fval a < fval b
    \<and> (\<forall>v\<in>set vs. fval a \<le> fval v \<and> fval v \<le> fval b) \<and> (z \<longrightarrow> fval a \<le> 0 \<and> 0 \<le> fval b)"
proof -
  let ?m = "sp_Mode (applyDefaults s)" and ?p = "sp_Panels s ! i" and ?U = "cl_unicode L"
  let ?lo = "foldl fmin PosInf vs" and ?hi = "foldl fmax NegInf vs"
  obtain panels where p: "list_all2 (panel_resolved L (PaletteFor ?m)) (sp_Panels s) panels"
    "Resolved L now0 now1 s = map_option Inr (let r = (applyDefaults s)\<lparr>sp_Palette := Some (PaletteFor ?m),
       sp_Panels := panels\<rparr> in if sp_Kind s = KindWindrose then resolveRose L r else resolveX L now0 now1 r)"
    and ok: "spec_ok ?U (applyDefaults s)"
    using Resolved_panels[OF assms(1), of now0 now1] by metis
  obtain r where r: "Resolved L now0 now1 s = Some (Inr r)" "sp_Panels r = panels"
    using p(2) assms(2) resolveX_Some[of L now0 now1 "(applyDefaults s)\<lparr>sp_Palette := Some (PaletteFor ?m), sp_Panels := panels\<rparr>"]
    by (auto simp: Let_def)
  obtain sers bands where q: "panels ! i = resolveY L (?p\<lparr>pa_Series := sers, pa_Bands := bands\<rparr>)"
    "list_all2 (series_resolved ?U (PaletteFor ?m)) (pa_Series ?p) sers"
    using list_all2_nthD[OF p(1) assms(4)] by (auto simp: panel_resolved_def)
  define p' where "p' = ?p\<lparr>pa_Series := sers, pa_Bands := bands\<rparr>"
  have same: "panel_values p' = vs" "wants_zero ?U p' = z" "ax_Min (pa_Y p') = None" "ax_Max (pa_Y p') = None"
    using resolved_same[OF q(2), of bands] assms(5-7,10) by (simp_all add: p'_def)
  have "panel_ok ?U ?p" using ok assms(4) by (simp add: spec_ok_def)
  then have fin: "\<forall>v\<in>set vs. finite64 v" using panel_ok_values assms(7) by blast
  note e = fold_extent[OF assms(8) fin]
  have mem: "Min (fval ` set vs) \<in> fval ` set vs" "Max (fval ` set vs) \<in> fval ` set vs" using assms(8) by simp_all
  have at: "rnd x = x \<and> \<bar>x\<bar> \<le> 10 ^ 6" if "x \<in> fval ` set vs" for x using that assms(9) by (auto simp: f64_ok_def)
  have le: "fval ?lo \<le> fval ?hi" unfolding e(2,4) using mem(1) by (intro Max_ge) simp_all
  obtain a b step where d: "niceDomain L ?lo ?hi z = (a, b, step)" by (cases "niceDomain L ?lo ?hi z") auto
  note n = niceDomain_contains[OF assms(3) e(1,3) le, unfolded e(2,4), OF conjunct2[OF at[OF mem(1)]] conjunct2[OF at[OF mem(2)]]
    conjunct1[OF at[OF mem(1)]] conjunct1[OF at[OF mem(2)]] assms(11,12) d]
  have "\<not> fle b a" using n(1,2,6) fle_finite by simp
  then have y: "y_domain L p' = (a, b, step)"
    using y_domain_unpinned[where L = L, OF same(3,4)] assms(8) d unfolding same(1,2) by blast
  have inside: "fval a \<le> fval v \<and> fval v \<le> fval b" if "v \<in> set vs" for v
  proof -
    have "Min (fval ` set vs) \<le> fval v" "fval v \<le> Max (fval ` set vs)" using that by simp_all
    then show ?thesis using n(4,5) assms(11) by (auto simp: with_zero_def split: if_splits)
  qed
  have zero: "z \<longrightarrow> fval a \<le> 0 \<and> 0 \<le> fval b" using n(4,5) assms(11) by (auto simp: with_zero_def)
  show ?thesis
    using r q(1) y n(1,2,6) inside zero by (intro exI[of _ r] exI[of _ a] exI[of _ b]) (simp add: p'_def)
qed

subsection \<open>Instances\<close>

text \<open>A chart of two panels: a wind speed with a gap, and a temperature.\<close>

definition demo_points :: "f64 option list \<Rightarrow> Point list" where
  "demo_points vs = List.map (\<lambda>(i, v). \<lparr>pt_Time = go_date 2024 6 1 (int i) 0 0 0, pt_Value = v, pt_Low = None, pt_High = None,
     pt_Direction = None\<rparr>) (enumerate 0 vs)"

definition demo_spec :: Spec where
  "demo_spec = Meteogram ''Brenner''
     [PanelOf [SeriesOf ascii_only [] ''wind_speed'' (demo_points [Some (Fin 3), None, Some (Fin 17)])],
      PanelOf [SeriesOf ascii_only [] ''temperature_2m'' (demo_points [Some (Fin (- 4)), Some (Fin 6)])]]"

lemma demo_valid: "Validate_spec (cl_unicode demo_libs) (applyDefaults demo_spec) = None"
  by code_simp

lemma demo_fields:
  "sp_Kind demo_spec \<noteq> KindWindrose" "\<forall>ser\<in>set (List.concat (List.map pa_Series (sp_Panels demo_spec))). se_Slot ser = 0"
  "total_series (sp_Panels demo_spec) = 2"
  by code_simp+

theorem Resolved_valid_witness:
  "\<exists>r. Resolved demo_libs zero_time zero_time demo_spec = Some (Inr r) \<and> Validate_spec ascii_only r = None \<and> sp_Width r \<le> 4096"
proof -
  have u: "cl_unicode demo_libs = ascii_only" by (simp add: demo_libs_def plain_libs_def)
  show ?thesis
    using Resolved_valid[OF demo_fields(1), of demo_libs zero_time zero_time] unfolding u demo_valid[unfolded u] option.case by blast
qed

theorem series_colors_distinct_witness:
  "\<exists>r. Resolved demo_libs zero_time zero_time demo_spec = Some (Inr r)
     \<and> List.map se_Slot (List.concat (List.map pa_Series (sp_Panels r))) = [1, 2]"
  using series_colors_distinct[OF demo_valid demo_fields(1,2), of zero_time zero_time] unfolding demo_fields(3)
  by (elim exE conjE) (simp add: upto.simps)

theorem y_domain_contains_data_witness:
  "\<exists>r a b. Resolved demo_libs zero_time zero_time demo_spec = Some (Inr r) \<and> ax_Min (pa_Y (sp_Panels r ! 0)) = Some a
    \<and> ax_Max (pa_Y (sp_Panels r ! 0)) = Some b \<and> fval a \<le> 0 \<and> 17 \<le> fval b"
proof -
  have v: "panel_values (sp_Panels demo_spec ! 0) = [Fin 3, Fin 17]" "wants_zero (cl_unicode demo_libs) (sp_Panels demo_spec ! 0)"
    "ax_Min (pa_Y (sp_Panels demo_spec ! 0)) = None" "ax_Max (pa_Y (sp_Panels demo_spec ! 0)) = None"
    by code_simp+
  have i: "0 < length (sp_Panels demo_spec)" by code_simp
  have "rnd (of_int 3) = of_int 3" "rnd (of_int 17) = of_int 17" by (rule rnd_of_int, simp)+
  then have ok: "\<forall>v\<in>set [Fin 3, Fin 17]. f64_ok v \<and> \<bar>fval v\<bar> \<le> 10 ^ 6" by (simp add: f64_ok_def overflow_def)
  have z: "with_zero True (Min (fval ` set [Fin 3, Fin 17])) (Max (fval ` set [Fin 3, Fin 17])) = (0, 17)" "17 = 0 \<or> 1/1000 \<le> 17 - (0::rat)"
    by (simp_all add: with_zero_def)
  show ?thesis
    using y_domain_contains_data[OF demo_valid demo_fields(1) demo_libs_decimal i v(3,4) refl _ _ refl, unfolded v(1), OF _ ok,
        of 0 17 zero_time zero_time] z v(2) by fastforce
qed

text \<open>A pinned slot is not taken out of the numbering: a series pinned to slot 1 and an unpinned one get
  the same slot and colour, in a specification that \<open>Validate\<close> accepts.\<close>

lemma slot_collision:
  "Validate_spec ascii_only (applyDefaults (TimeSeries ''Two'' [mk 1, mk 0])) = None
   \<and> map_option (\<lambda>(n, sers). List.map (\<lambda>ser. (se_Slot ser, se_Color ser)) sers)
       (resolve_all_series ascii_only (PaletteFor ModeLight) 0 [mk 1, mk 0]) = Some [(1, ''#2a78d6''), (1, ''#2a78d6'')]"
  if "mk = (\<lambda>slot. (SeriesOf ascii_only ''T'' ''temperature_2m'' [])\<lparr>se_Slot := slot\<rparr>)"
  unfolding that by code_simp

end
