(* ===== verification/ChartRoseCorrect.thy ===== *)
theory ChartRoseCorrect
  imports ChartResolved
begin

text \<open>
  Correctness of the wind rose: every reading is counted once, in the cell of its sector and speed
  class or as calm, and the resolution of a validated rose ends without a panic.
\<close>

subsection \<open>Sectors\<close>

lemma fmod_360:
  assumes "finite64 x"
  shows "finite64 (fmod x (Fin 360))" "\<bar>fval (fmod x (Fin 360))\<bar> < 360" "0 \<le> fval x \<Longrightarrow> 0 \<le> fval (fmod x (Fin 360))"
proof -
  define q where "q = fval x / 360"
  define r where "r = fval x - 360 * of_int (rat_trunc q)"
  have t: "\<bar>q - of_int (rat_trunc q)\<bar> < 1" "0 \<le> q \<Longrightarrow> of_int (rat_trunc q) \<le> q"
    unfolding rat_trunc_def by (cases "q < 0"; simp; linarith)+
  have r: "r = 360 * (q - of_int (rat_trunc q))" by (simp add: r_def q_def)
  have "fval (fmod x (Fin 360)) = r" "finite64 (fmod x (Fin 360))"
    using assms by (auto simp: fmod_def Let_def r_def q_def is_inf_def finite64_def feq_def)
  then show "finite64 (fmod x (Fin 360))" "\<bar>fval (fmod x (Fin 360))\<bar> < 360" "0 \<le> fval x \<Longrightarrow> 0 \<le> fval (fmod x (Fin 360))"
    using t unfolding r by (simp_all add: abs_mult q_def)
qed

lemma sector_width_div:
  assumes "4 \<le> n" "n \<le> 72" "360 mod n = 0"
  shows "sector_width n = Fin (of_int (360 div n))" "5 \<le> 360 div n" "360 div n \<le> 90"
proof -
  have k: "of_int (360 div n) = (360 / of_int n :: rat)" using assms by (simp add: dvd_eq_mod_eq_0 of_int_div)
  have kn: "(360 div n) * n = 360" using assms(3) by (simp add: dvd_eq_mod_eq_0)
  show b: "5 \<le> 360 div n" "360 div n \<le> 90"
    using div_bounds[of n 360] assms(1,2) kn by (auto intro: div_eqI zdiv_mono2[of 360 n 72, simplified] zdiv_mono2[of 360 4 n, simplified])
  have "\<bar>360 div n\<bar> \<le> 2 ^ 53" using b by simp
  then have "rnd (360 / of_int n) = of_int (360 div n)" by (simp only: k[symmetric] rnd_of_int)
  then have "finite64 (sector_width n) \<and> fval (sector_width n) = of_int (360 div n)"
    unfolding sector_width_def
    using assms f_of_int_exact[of n] fdiv_finite[of "Fin 360" "Fin (of_int n)"] small_pow[of "360 / of_int n"] k b by auto
  then show "sector_width n = Fin (of_int (360 div n))" using b by (cases "sector_width n") auto
qed

text \<open>The numbers of sectors a resolved rose can have: those \<open>Validate\<close> accepts, and the default 16,
  which it does not, as 16 does not divide 360.\<close>

definition sectors_ok :: "int \<Rightarrow> bool" where
  "sectors_ok n \<longleftrightarrow> 4 \<le> n \<and> n \<le> 72 \<and> (360 mod n = 0 \<or> n = 16)"

lemma sector_width:
  assumes "sectors_ok n" shows "\<exists>w. sector_width n = Fin w \<and> 5 \<le> w \<and> w \<le> 90"
proof (cases "n = 16")
  case True
  have "sector_width 16 = Fin (45 / 2)" by code_simp
  then show ?thesis using True by (intro exI[of _ "45 / 2"]) simp
next
  case False
  then show ?thesis using assms sector_width_div[of n] by (auto simp: sectors_ok_def)
qed

text \<open>The sector of any finite direction is an index.\<close>

lemma rose_sector_range:
  assumes "sectors_ok n" "finite64 dir"
  shows "0 \<le> rose_sector oob n dir" "rose_sector oob n dir < n"
proof -
  obtain w where sw: "sector_width n = Fin w" "5 \<le> w" "w \<le> 90" using sector_width[OF assms(1)] by blast
  have n4: "4 \<le> n" using assms(1) by (simp add: sectors_ok_def)
  define a where "a = fadd (fmod dir (Fin 360)) (Fin 360)"
  define deg where "deg = fmod a (Fin 360)"
  define h where "h = fdiv (sector_width n) (Fin 2)"
  define x where "x = fdiv (fadd deg h) (sector_width n)"
  have m: "finite64 (fmod dir (Fin 360))" "\<bar>fval (fmod dir (Fin 360))\<bar> < 360" using fmod_360[OF assms(2)] by simp_all
  then have "finite64 a \<and> fval a = rnd (fval (fmod dir (Fin 360)) + 360)"
    unfolding a_def using fadd_finite[of "fmod dir (Fin 360)" "Fin 360"] small_pow[of "fval (fmod dir (Fin 360)) + 360"] by auto
  then have a: "finite64 a" "0 \<le> fval a" using m rnd_nonneg by auto
  then have deg: "finite64 deg" "0 \<le> fval deg" "fval deg < 360" using fmod_360[OF a(1)] by (auto simp: deg_def)
  have h: "finite64 h \<and> fval h = rnd (w / 2)"
    unfolding h_def sw(1) using fdiv_finite[of "Fin w" "Fin 2"] small_pow[of "w / 2"] sw by auto
  have "0 \<le> rnd (w / 2)" "rnd (w / 2) \<le> 45"
    using rnd_mono[of 0 "w / 2"] rnd_mono[of "w / 2" "of_int 45"] rnd_of_int[of 45] sw(2,3) by simp_all
  then have hb: "finite64 h" "0 \<le> fval h" "fval h \<le> 45" using h by auto
  have s: "finite64 (fadd deg h) \<and> fval (fadd deg h) = rnd (fval deg + fval h)"
    using fadd_finite[OF deg(1) hb(1)] small_pow[of "fval deg + fval h"] deg hb by auto
  have sb: "0 \<le> fval (fadd deg h)" "fval (fadd deg h) \<le> 405"
    using s deg hb rnd_mono[of 0 "fval deg + fval h"] rnd_mono[of "fval deg + fval h" "of_int 405"] rnd_of_int[of 405] by simp_all
  have q: "0 \<le> fval (fadd deg h) / w" "fval (fadd deg h) / w \<le> 81"
    using sb sw(2) by (simp_all add: divide_le_eq)
  have xf: "finite64 x \<and> fval x = rnd (fval (fadd deg h) / w)"
    unfolding x_def sw(1) using fdiv_finite[of "fadd deg h" "Fin w"] s q small_pow[of "fval (fadd deg h) / w"] sw(2) by auto
  have xb: "finite64 x" "0 \<le> fval x" "fval x \<le> 81"
    using xf q rnd_mono[of 0 "fval (fadd deg h) / w"] rnd_mono[of "fval (fadd deg h) / w" "of_int 81"] rnd_of_int[of 81]
    by simp_all
  have f: "finite64 (ffloor x)" "fval (ffloor x) = of_int \<lfloor>fval x\<rfloor>" using rounding_functions_finite(1)[OF xb(1)] by simp_all
  have fl: "0 \<le> \<lfloor>fval x\<rfloor>" "\<lfloor>fval x\<rfloor> \<le> 81" using xb(2,3) by (simp_all add: floor_le_iff)
  have "to_int64 oob (ffloor x) = \<lfloor>fval x\<rfloor>" using to_int64_exact[OF f] fl by (simp add: in_int64_def)
  then have "rose_sector oob n dir = \<lfloor>fval x\<rfloor> mod n"
    using fl(1) n4 smod_pos[of "\<lfloor>fval x\<rfloor>" n] by (simp add: rose_sector_def Let_def x_def h_def deg_def a_def)
  then show "0 \<le> rose_sector oob n dir" "rose_sector oob n dir < n" using n4 by simp_all
qed

subsection \<open>Rings\<close>

lemma ring_loop_ends:
  assumes "finite64 step" "1 / 10 ^ 6 \<le> fval step" "fval step \<le> 10 ^ 5" "finite64 limit" "fval limit \<le> 10 ^ 5"
    "finite64 v" "0 \<le> fval v"
  shows "\<exists>ts. ring_loop L step limit v = Some ts"
  using assms(6,7)
proof (induction "nat (\<lceil>(fval limit - fval v) * 2000000\<rceil> + 1)" arbitrary: v rule: less_induct)
  case less
  show ?case
  proof (cases "fle v limit")
    case False
    then show ?thesis by (simp add: ring_loop.simps)
  next
    case True
    then have le: "fval v \<le> fval limit" using fle_finite less.prems assms(4) by simp
    let ?u = "fadd v step"
    have s: "\<bar>fval v + fval step\<bar> \<le> 10 ^ 6" using le less.prems(2) assms(2,3,5) by simp
    then have u: "finite64 ?u \<and> fval ?u = rnd (fval v + fval step)"
      using fadd_finite[OF less.prems(1) assms(1)] small_pow[of "fval v + fval step"] by simp
    have "\<bar>rnd (fval v + fval step) - (fval v + fval step)\<bar> \<le> 10 ^ 6 / 2 ^ 52" by (rule rnd_error_small[OF s]) simp
    then have "\<bar>rnd (fval v + fval step) - (fval v + fval step)\<bar> \<le> 1 / 2000000" by (rule order_trans) simp
    then have g: "fval v + 1 / 2000000 \<le> fval ?u" using u assms(2) unfolding abs_le_iff by simp
    then have "(fval limit - fval ?u) * 2000000 \<le> (fval limit - fval v) * 2000000 - 1" by simp
    then have "\<lceil>(fval limit - fval ?u) * 2000000\<rceil> \<le> \<lceil>(fval limit - fval v) * 2000000\<rceil> - 1"
      using ceiling_mono[of "(fval limit - fval ?u) * 2000000" "(fval limit - fval v) * 2000000 - 1"] by simp
    moreover have "0 \<le> \<lceil>(fval limit - fval v) * 2000000\<rceil>" using le by simp
    ultimately have "nat (\<lceil>(fval limit - fval ?u) * 2000000\<rceil> + 1) < nat (\<lceil>(fval limit - fval v) * 2000000\<rceil> + 1)" by linarith
    from less.hyps[OF this] obtain ts where "ring_loop L step limit ?u = Some ts" using u g less.prems(2) by auto
    then show ?thesis using True by (simp add: ring_loop.simps[of L step limit v])
  qed
qed

lemma roseRings_ends:
  assumes "decimal_libm L" "finite64 m" "0 \<le> fval m" "fval m \<le> 1"
  shows "\<exists>ts. roseRings L m = Some ts"
proof -
  define hi where "hi = fmax (fmul m (Fin 100)) (Fin 1)"
  have "0 \<le> rnd (fval m * 100)" "rnd (fval m * 100) \<le> 100"
    using rnd_mono[of 0 "fval m * 100"] rnd_mono[of "fval m * 100" "of_int 100"] rnd_of_int[of 100] assms(3,4) by simp_all
  moreover have "finite64 (fmul m (Fin 100)) \<and> fval (fmul m (Fin 100)) = rnd (fval m * 100)"
    using fmul_finite[OF assms(2), of "Fin 100"] small_pow[of "fval m * 100"] assms(3,4) by simp
  moreover have "rnd 1 = 1" using rnd_of_int[of 1] by simp
  ultimately have hi: "finite64 hi" "1 \<le> fval hi" "fval hi \<le> 100" "rnd (fval hi) = fval hi"
    using fmax_finite[of "fmul m (Fin 100)" "Fin 1"] by (auto simp: hi_def max_def)
  obtain a b step where d: "niceDomain L (Fin 0) hi True = (a, b, step)" by (metis prod_cases3)
  have z: "with_zero True (fval (Fin 0)) (fval hi) = (0, fval hi)" using hi(2) by (simp add: with_zero_def)
  have D: "finite64 b" "finite64 step" "1 / 10 ^ 6 \<le> fval step" "fval step \<le> 40 * fval hi \<and> fval b \<le> fval hi + 2 * fval step" "fval hi \<le> fval b"
    using niceDomain_contains[OF assms(1) _ hi(1) _ _ _ _ hi(4) z _ d] hi by simp_all
  have st: "0 < fval step" "fval step \<le> 4000" "0 \<le> fval b" "fval b \<le> 8100" using D hi by simp_all
  have q: "finite64 (fdiv step (Fin 1000000)) \<and> fval (fdiv step (Fin 1000000)) = rnd (fval step / 1000000)"
    using fdiv_finite[OF D(2), of "Fin 1000000"] small_pow[of "fval step / 1000000"] st by simp
  have "0 \<le> rnd (fval step / 1000000)" "rnd (fval step / 1000000) \<le> 1"
    using rnd_mono[of 0 "fval step / 1000000"] rnd_mono[of "fval step / 1000000" "of_int 1"] rnd_of_int[of 1] st by simp_all
  then have e: "finite64 (fdiv step (Fin 1000000))" "0 \<le> fval (fdiv step (Fin 1000000))" "fval (fdiv step (Fin 1000000)) \<le> 1"
    using q by simp_all
  then have l: "finite64 (fadd b (fdiv step (Fin 1000000)))" "fval (fadd b (fdiv step (Fin 1000000))) \<le> 10 ^ 5"
    using fadd_finite[OF D(1) e(1)] small_pow[of "fval b + fval (fdiv step (Fin 1000000))"] st
      rnd_mono[of "fval b + fval (fdiv step (Fin 1000000))" "of_int (10 ^ 5)"] rnd_of_int[of "10 ^ 5"] by simp_all
  have "fval step \<le> 10 ^ 5" using st by simp
  from ring_loop_ends[OF D(2,3) this l D(2)] st show ?thesis
    by (simp add: roseRings_def d hi_def[symmetric])
qed

subsection \<open>Counting\<close>

datatype reading = NoReading | CalmReading | CellReading int int

text \<open>The class of a speed: the number of leading edges that it has reached.\<close>

definition speed_class :: "f64 list \<Rightarrow> f64 \<Rightarrow> nat" where
  "speed_class edges v = length (takeWhile (\<lambda>e. \<not> flt v e) edges)"

definition reading_of :: "(f64 \<Rightarrow> int) \<Rightarrow> int \<Rightarrow> f64 list \<Rightarrow> f64 \<Rightarrow> Point \<Rightarrow> reading" where
  "reading_of oob n edges calmBelow pt =
     (case (pt_Direction pt, pt_Value pt) of
        (Some dir, Some v) \<Rightarrow> if flt v calmBelow then CalmReading
                              else CellReading (rose_sector oob n dir) (int (speed_class edges v))
      | _ \<Rightarrow> NoReading)"

lemma speedBand_class: "speedBand es v = speed_class es v"
  by (induction es) (simp_all add: speed_class_def)

lemma reading_of_code:
  "reading_of oob n edges calmBelow pt =
     (case (pt_Direction pt, pt_Value pt) of
        (Some dir, Some v) \<Rightarrow> if flt v calmBelow then CalmReading
                              else CellReading (rose_sector oob n dir) (int (speedBand edges v))
      | _ \<Rightarrow> NoReading)"
  by (simp add: reading_of_def speedBand_class split: option.split)

definition how_many :: "('a \<Rightarrow> bool) \<Rightarrow> 'a list \<Rightarrow> int" where
  "how_many P xs = int (length (filter P xs))"

lemma how_many_simps [simp]:
  "how_many P [] = 0" "how_many P (x # xs) = (if P x then how_many P xs + 1 else how_many P xs)"
  by (simp_all add: how_many_def)

lemma how_many_nonneg [simp]: "0 \<le> how_many P xs"
  by (simp add: how_many_def)

definition counts_shape :: "int \<Rightarrow> nat \<Rightarrow> int list list \<Rightarrow> bool" where
  "counts_shape n nb cs \<longleftrightarrow> length cs = nat n \<and> list_all (\<lambda>row. length row = nb) cs"

lemma speedBand_le: "speedBand es v \<le> length es"
  by (induction es) auto

lemma bump_cell:
  assumes "counts_shape n nb cs" "0 \<le> i" "i < n" "0 \<le> j" "j < int nb"
  shows "\<exists>cs'. bump cs i j = Some cs' \<and> counts_shape n nb cs'
    \<and> (\<forall>a<nat n. \<forall>b<nb. cs' ! a ! b = cs ! a ! b + (if int a = i \<and> int b = j then 1 else 0))"
proof -
  have l: "length cs = nat n" "\<And>a. a < nat n \<Longrightarrow> length (cs ! a) = nb"
    using assms(1) by (auto simp: counts_shape_def list_all_length)
  have ni: "nat i < nat n" using assms(2,3) by simp
  define cs' where "cs' = cs[nat i := (cs ! nat i)[nat j := cs ! nat i ! nat j + 1]]"
  have b: "bump cs i j = Some cs'"
    using assms l(1) l(2)[OF ni] by (simp add: bump_def slice_at_def cs'_def)
  have "counts_shape n nb cs'" using l ni by (auto simp: counts_shape_def cs'_def list_all_length nth_list_update)
  moreover have "cs' ! a ! b = cs ! a ! b + (if int a = i \<and> int b = j then 1 else 0)" if "a < nat n" "b < nb" for a b
  proof (cases "a = nat i")
    case True
    have "cs' ! a = (cs ! nat i)[nat j := cs ! nat i ! nat j + 1]" using True ni l(1) by (simp add: cs'_def)
    moreover have "b < length (cs ! nat i)" using that l(2)[OF ni] by simp
    ultimately show ?thesis using True assms(2,4) by (cases "b = nat j") auto
  next
    case False
    then have "int a \<noteq> i" by auto
    then show ?thesis using False by (simp add: cs'_def)
  qed
  ultimately show ?thesis using b by blast
qed

lemma count_readings_spec:
  assumes n: "sectors_ok n"
    and fin: "list_all (\<lambda>pt. \<not> not_finite_ptr (pt_Direction pt)) pts"
    and shape: "counts_shape n (Suc (length edges)) (rc_counts acc)"
  shows "\<exists>acc'. count_readings oob n edges cb pts acc = Some acc'
    \<and> rc_total acc' = rc_total acc + how_many (\<lambda>pt. reading_of oob n edges cb pt \<noteq> NoReading) pts
    \<and> rc_calm acc' = rc_calm acc + how_many (\<lambda>pt. reading_of oob n edges cb pt = CalmReading) pts
    \<and> counts_shape n (Suc (length edges)) (rc_counts acc')
    \<and> (\<forall>a<nat n. \<forall>b<Suc (length edges). rc_counts acc' ! a ! b
         = rc_counts acc ! a ! b + how_many (\<lambda>pt. reading_of oob n edges cb pt = CellReading (int a) (int b)) pts)"
  using fin shape
proof (induction pts arbitrary: acc)
  case (Cons pt pts)
  show ?case
  proof (cases "reading_of oob n edges cb pt")
    case NoReading
    then have "count_readings oob n edges cb (pt # pts) acc = count_readings oob n edges cb pts acc"
      by (auto simp: reading_of_code split: option.splits if_splits)
    then show ?thesis using Cons NoReading by simp
  next
    case CalmReading
    then obtain dir v where p: "pt_Direction pt = Some dir" "pt_Value pt = Some v" "flt v cb"
      by (auto simp: reading_of_code split: option.splits if_splits)
    let ?acc = "acc\<lparr>rc_total := rc_total acc + 1, rc_calm := rc_calm acc + 1\<rparr>"
    have "count_readings oob n edges cb (pt # pts) acc = count_readings oob n edges cb pts ?acc" using p by simp
    then show ?thesis using Cons.IH[of ?acc] Cons.prems CalmReading by (simp add: algebra_simps)
  next
    case (CellReading i j)
    then obtain dir v where p: "pt_Direction pt = Some dir" "pt_Value pt = Some v" "\<not> flt v cb"
      "i = rose_sector oob n dir" "j = int (speedBand edges v)"
      by (auto simp: reading_of_code split: option.splits if_splits)
    have "finite64 dir" using Cons.prems(1) p(1) by (simp add: not_finite_ptr_def finite64_def)
    then have i: "0 \<le> i" "i < n" using rose_sector_range[OF n] p(4) by simp_all
    have j: "0 \<le> j" "j < int (Suc (length edges))" using speedBand_le[of edges v] p(5) by simp_all
    obtain cs where cs: "bump (rc_counts acc) i j = Some cs" "counts_shape n (Suc (length edges)) cs"
      "\<forall>a<nat n. \<forall>b<Suc (length edges). cs ! a ! b = rc_counts acc ! a ! b + (if int a = i \<and> int b = j then 1 else 0)"
      using bump_cell[OF Cons.prems(2) i j] by blast
    let ?acc = "acc\<lparr>rc_total := rc_total acc + 1, rc_counts := cs\<rparr>"
    have eq: "count_readings oob n edges cb (pt # pts) acc = count_readings oob n edges cb pts ?acc"
      using p cs(1) by simp
    obtain acc' where a: "count_readings oob n edges cb pts ?acc = Some acc'"
      "rc_total acc' = rc_total ?acc + how_many (\<lambda>pt. reading_of oob n edges cb pt \<noteq> NoReading) pts"
      "rc_calm acc' = rc_calm ?acc + how_many (\<lambda>pt. reading_of oob n edges cb pt = CalmReading) pts"
      "counts_shape n (Suc (length edges)) (rc_counts acc')"
      "\<forall>a<nat n. \<forall>b<Suc (length edges). rc_counts acc' ! a ! b
         = rc_counts ?acc ! a ! b + how_many (\<lambda>pt. reading_of oob n edges cb pt = CellReading (int a) (int b)) pts"
      using Cons.IH[of ?acc] Cons.prems(1) cs(2) by auto
    show ?thesis using eq a cs(3) CellReading by (intro exI[of _ acc']) auto
  qed
qed simp

text \<open>The cells and the calm readings share out the readings.\<close>

definition in_cells :: "nat \<Rightarrow> nat \<Rightarrow> reading \<Rightarrow> bool" where
  "in_cells n nb r \<longleftrightarrow> (case r of CellReading i j \<Rightarrow> 0 \<le> i \<and> i < int n \<and> 0 \<le> j \<and> j < int nb | _ \<Rightarrow> True)"

lemma cells_partition:
  assumes "\<forall>x\<in>set xs. in_cells n nb (f x)"
  shows "how_many (\<lambda>x. f x \<noteq> NoReading) xs = how_many (\<lambda>x. f x = CalmReading) xs
    + (\<Sum>a<n. \<Sum>b<nb. how_many (\<lambda>x. f x = CellReading (int a) (int b)) xs)"
  using assms
proof (induction xs)
  case (Cons x xs)
  have step: "(\<Sum>a<n. \<Sum>b<nb. how_many (\<lambda>x. f x = CellReading (int a) (int b)) (x # xs))
      = (\<Sum>a<n. \<Sum>b<nb. how_many (\<lambda>x. f x = CellReading (int a) (int b)) xs)
        + (\<Sum>a<n. \<Sum>b<nb. if f x = CellReading (int a) (int b) then 1 else 0)"
    unfolding sum.distrib[symmetric] by (intro sum.cong refl) simp
  have one: "(\<Sum>a<n. \<Sum>b<nb. if f x = CellReading (int a) (int b) then 1 else 0 :: int)
      = (case f x of CellReading i j \<Rightarrow> 1 | _ \<Rightarrow> 0)"
  proof (cases "f x")
    case (CellReading i j)
    then have r: "nat i < n" "nat j < nb" "int (nat i) = i" "int (nat j) = j" using Cons.prems by (auto simp: in_cells_def)
    have "(\<Sum>b<nb. if f x = CellReading (int a) (int b) then 1 else 0 :: int) = (if a = nat i then 1 else 0)" for a
    proof (cases "a = nat i")
      case True
      have "(\<Sum>b<nb. if f x = CellReading (int a) (int b) then 1 else 0 :: int) = (\<Sum>b<nb. if b = nat j then 1 else 0)"
        using True CellReading r by (intro sum.cong refl) auto
      then show ?thesis using True r by simp
    next
      case False
      then have "int a \<noteq> i" by auto
      then show ?thesis using False CellReading by (auto intro!: sum.neutral)
    qed
    then show ?thesis using CellReading r by simp
  qed auto
  show ?case using Cons unfolding step one by (cases "f x") (auto simp: in_cells_def)
qed simp

lemma sum_list_row: "length row = nb \<Longrightarrow> sum_list row = (\<Sum>b<nb. row ! b)"
  by (simp add: sum_list_sum_nth atLeast0LessThan)

subsection \<open>Fractions\<close>

lemma share_bounds:
  assumes "0 \<le> c" "c \<le> t" "0 < t" "t \<le> 2 ^ 53"
  shows "finite64 (fdiv (f_of_int c) (f_of_int t)) \<and> 0 \<le> fval (fdiv (f_of_int c) (f_of_int t)) \<and> fval (fdiv (f_of_int c) (f_of_int t)) \<le> 1"
proof -
  have e: "f_of_int c = Fin (of_int c)" "f_of_int t = Fin (of_int t)" using assms by (auto intro: f_of_int_exact)
  have q: "0 \<le> of_int c / (of_int t :: rat)" "of_int c / (of_int t :: rat) \<le> 1" using assms by (simp_all add: divide_le_eq)
  have qb: "\<bar>of_int c / (of_int t :: rat)\<bar> \<le> 1000000" unfolding abs_of_nonneg[OF q(1)] using q(2) by linarith
  have "finite64 (fdiv (f_of_int c) (f_of_int t)) \<and> fval (fdiv (f_of_int c) (f_of_int t)) = rnd (of_int c / of_int t)"
    unfolding e using fdiv_finite[of "Fin (of_int c)" "Fin (of_int t)"] small_pow[OF qb] assms(3) by simp
  moreover have "0 \<le> rnd (of_int c / of_int t)" "rnd (of_int c / of_int t) \<le> 1"
    using rnd_mono[of 0 "of_int c / of_int t"] rnd_mono[of "of_int c / of_int t" "of_int 1"] rnd_of_int[of 1] q by simp_all
  ultimately show ?thesis by simp
qed

lemma max_fraction_bounds:
  assumes "\<forall>row\<in>set rows. 0 \<le> sum_list row \<and> sum_list row \<le> t" "0 < t" "t \<le> 2 ^ 53"
  shows "finite64 (max_fraction t rows) \<and> 0 \<le> fval (max_fraction t rows) \<and> fval (max_fraction t rows) \<le> 1"
proof -
  have "finite64 (foldl (\<lambda>m row. if t > 0 then fmax m (fdiv (f_of_int (sum_list row)) (f_of_int t)) else m) m rows)
      \<and> 0 \<le> fval (foldl (\<lambda>m row. if t > 0 then fmax m (fdiv (f_of_int (sum_list row)) (f_of_int t)) else m) m rows)
      \<and> fval (foldl (\<lambda>m row. if t > 0 then fmax m (fdiv (f_of_int (sum_list row)) (f_of_int t)) else m) m rows) \<le> 1"
    if "finite64 m" "0 \<le> fval m" "fval m \<le> 1" for m
    using that assms(1)
  proof (induction rows arbitrary: m)
    case (Cons row rows)
    have b: "finite64 (fdiv (f_of_int (sum_list row)) (f_of_int t))" "0 \<le> fval (fdiv (f_of_int (sum_list row)) (f_of_int t))"
      "fval (fdiv (f_of_int (sum_list row)) (f_of_int t)) \<le> 1"
      using share_bounds[of "sum_list row" t] Cons.prems(4) assms(2,3) by simp_all
    show ?case using Cons.IH[of "fmax m (fdiv (f_of_int (sum_list row)) (f_of_int t))"] fmax_finite[OF Cons.prems(1) b(1)] b Cons.prems assms(2)
      by simp
  qed simp
  then show ?thesis by (simp add: max_fraction_def)
qed

lemma those_all: "\<forall>x\<in>set xs. f x \<noteq> None \<Longrightarrow> \<exists>ys. those (List.map f xs) = Some ys \<and> length ys = length xs"
  by (induction xs) fastforce+

lemma band_colors_Some:
  assumes "int (Suc k) \<le> 2 ^ 53"
  shows "\<exists>cs. band_colors L (PaletteFor mode) (Suc k) = Some cs \<and> length cs = Suc k"
proof -
  have "\<exists>c. SequentialColor (cl_oob L) (PaletteFor mode) (fdiv (f_of_int (int (i + 1))) (f_of_int (int (Suc k)))) = Some c"
    if "i < Suc k" for i
    using share_bounds[of "int (i + 1)" "int (Suc k)"] that assms by (intro SequentialColor_Some) auto
  then show ?thesis
    using those_all[of "[0..<Suc k]" "\<lambda>i. SequentialColor (cl_oob L) (PaletteFor mode) (fdiv (f_of_int (int (i + 1))) (f_of_int (int (Suc k))))"]
    by (auto simp: band_colors_def simp del: upt_Suc)
qed

lemma band_labels_length: "length (band_labels L unit prev es) = Suc (length es)"
  by (induction L unit prev es rule: band_labels.induct) auto

subsection \<open>The rose\<close>

text \<open>The bins as a table: every cell with readings, by sector and class.\<close>

definition table_of :: "nat \<Rightarrow> nat \<Rightarrow> (nat \<Rightarrow> nat \<Rightarrow> int) \<Rightarrow> (int \<times> int \<times> int) list" where
  "table_of n nb f = List.concat (List.map (\<lambda>a. List.map (\<lambda>b. (int a, int b, f a b)) (filter (\<lambda>b. f a b \<noteq> 0) [0..<nb])) [0..<n])"

lemma rose_bins_table:
  assumes "counts_shape n nb cs" "\<And>a b. a < nat n \<Longrightarrow> b < nb \<Longrightarrow> cs ! a ! b = f a b"
  shows "List.map (\<lambda>x. (rb_Sector x, rb_Band x, rb_Count x)) (rose_bins t cs) = table_of (nat n) nb f"
proof -
  have l: "length cs = nat n" "\<And>a. a < nat n \<Longrightarrow> length (cs ! a) = nb"
    using assms(1) by (auto simp: counts_shape_def list_all_length)
  have row: "List.map (\<lambda>x. (rb_Sector x, rb_Band x, rb_Count x)) (sector_bins t a (cs ! a))
      = List.map (\<lambda>b. (int a, int b, f a b)) (filter (\<lambda>b. f a b \<noteq> 0) [0..<nb])" if "a < nat n" for a
  proof -
    have "filter (\<lambda>b. cs ! a ! b \<noteq> 0) [0..<nb] = filter (\<lambda>b. f a b \<noteq> 0) [0..<nb]"
      using that assms(2) by (intro filter_cong) auto
    then show ?thesis using that l(2) assms(2) by (simp add: sector_bins_def)
  qed
  show ?thesis
    unfolding rose_bins_def table_of_def map_concat List.map_map l(1)
    by (intro arg_cong[of _ _ concat] List.map_cong refl) (simp add: row)
qed

lemma table_sum: "sum_list (List.map (\<lambda>(a, b, c). c) (table_of n nb f)) = (\<Sum>a<n. \<Sum>b<nb. f a b)"
proof -
  have row: "sum_list (List.map f' (filter (\<lambda>b. f' b \<noteq> 0) [0..<k])) = (\<Sum>b<k. f' b)" for f' :: "nat \<Rightarrow> int" and k
    by (induction k) auto
  show ?thesis
    by (induction n) (simp_all add: table_of_def o_def row[simplified])
qed

definition rose_count :: "chart_libs \<Rightarrow> WindroseOptions \<Rightarrow> Point list \<Rightarrow> nat \<Rightarrow> nat \<Rightarrow> int" where
  "rose_count L opts pts a b =
     how_many (\<lambda>pt. reading_of (cl_oob L) (wo_Sectors opts) (wo_SpeedBands opts) (wo_CalmBelow opts) pt
       = CellReading (int a) (int b)) pts"

lemma rose_defaults_ok:
  assumes "case w of None \<Rightarrow> True | Some w \<Rightarrow> rose_options_ok w"
  shows "sectors_ok (wo_Sectors (rose_defaults w))"
  using assms by (auto simp: sectors_ok_def rose_defaults_def Let_def no_options_def defaultSectors_def rose_options_ok_def split: option.splits)

lemma zero_counts:
  "rc_total (zero_counts n nb) = 0" "rc_calm (zero_counts n nb) = 0"
  "a < nat n \<Longrightarrow> b < nb \<Longrightarrow> rc_counts (zero_counts n nb) ! a ! b = 0"
  by (simp_all add: zero_counts_def)

lemma resolve_options_exact:
  assumes fin: "list_all (\<lambda>pt. \<not> not_finite_ptr (pt_Direction pt)) (se_Points ser)"
    and n: "sectors_ok (wo_Sectors opts)"
    and some: "\<exists>pt\<in>set (se_Points ser). has_reading pt" and lib: "decimal_libm L"
    and small: "length (se_Points ser) \<le> 2 ^ 53" "length (wo_SpeedBands opts) < 2 ^ 53"
  shows "\<exists>w. resolve_options L (PaletteFor mode) ser opts = Some w
    \<and> wo_Total w = how_many has_reading (se_Points ser) \<and> 0 < wo_Total w
    \<and> List.map (\<lambda>x. (rb_Sector x, rb_Band x, rb_Count x)) (wo_Bins w)
        = table_of (nat (wo_Sectors opts)) (Suc (length (wo_SpeedBands opts))) (rose_count L opts (se_Points ser))
    \<and> sum_list (List.map rb_Count (wo_Bins w))
        + how_many (\<lambda>pt. has_reading pt \<and> flt (the (pt_Value pt)) (wo_CalmBelow opts)) (se_Points ser) = wo_Total w
    \<and> length (wo_BandColors w) = Suc (length (wo_SpeedBands opts)) \<and> length (wo_BandLabels w) = Suc (length (wo_SpeedBands opts))
    \<and> finite64 (wo_MaxFraction w) \<and> 0 \<le> fval (wo_MaxFraction w) \<and> fval (wo_MaxFraction w) \<le> 1"
proof -
  let ?n = "wo_Sectors opts" and ?es = "wo_SpeedBands opts" and ?pts = "se_Points ser"
  let ?nb = "Suc (length ?es)"
  let ?r = "reading_of (cl_oob L) ?n ?es (wo_CalmBelow opts)"
  have shape0: "counts_shape ?n ?nb (rc_counts (zero_counts ?n ?nb))"
    by (simp add: counts_shape_def zero_counts_def list_all_iff)
  obtain c where c: "count_readings (cl_oob L) ?n ?es (wo_CalmBelow opts) ?pts (zero_counts ?n ?nb) = Some c"
    "rc_total c = how_many (\<lambda>pt. ?r pt \<noteq> NoReading) ?pts" "rc_calm c = how_many (\<lambda>pt. ?r pt = CalmReading) ?pts"
    "counts_shape ?n ?nb (rc_counts c)"
    "\<And>a b. a < nat ?n \<Longrightarrow> b < ?nb \<Longrightarrow> rc_counts c ! a ! b = rose_count L opts ?pts a b"
    using count_readings_spec[OF n fin shape0, of "cl_oob L" "wo_CalmBelow opts"]
    by (auto simp: zero_counts rose_count_def)
  have cells: "\<forall>pt\<in>set ?pts. in_cells (nat ?n) ?nb (?r pt)"
  proof
    fix pt assume "pt \<in> set ?pts"
    then have f: "\<not> not_finite_ptr (pt_Direction pt)" using fin by (simp add: list_all_iff)
    show "in_cells (nat ?n) ?nb (?r pt)"
    proof (cases "?r pt")
      case (CellReading i j)
      then obtain dir v where d: "pt_Direction pt = Some dir" "i = rose_sector (cl_oob L) ?n dir" "j = int (speedBand ?es v)"
        by (auto simp: reading_of_code split: option.splits if_splits)
      then have "finite64 dir" using f by (simp add: not_finite_ptr_def finite64_def)
      then show ?thesis using rose_sector_range[OF n] d CellReading speedBand_le[of ?es v] n by (simp add: in_cells_def sectors_ok_def)
    qed (simp_all add: in_cells_def)
  qed
  have part: "rc_total c = rc_calm c + (\<Sum>a<nat ?n. \<Sum>b<?nb. rose_count L opts ?pts a b)"
    using cells_partition[OF cells] c(2,3) by (simp add: rose_count_def)
  have reading: "?r pt \<noteq> NoReading \<longleftrightarrow> has_reading pt"
    "?r pt = CalmReading \<longleftrightarrow> has_reading pt \<and> flt (the (pt_Value pt)) (wo_CalmBelow opts)" for pt
    by (auto simp: reading_of_code has_reading_def split: option.splits)
  have total: "rc_total c = how_many has_reading ?pts" "rc_calm c = how_many (\<lambda>pt. has_reading pt \<and> flt (the (pt_Value pt)) (wo_CalmBelow opts)) ?pts"
    using c(2,3) reading by simp_all
  have pos: "0 < rc_total c" using some unfolding total how_many_def by (auto simp: filter_empty_conv)
  have le: "rc_total c \<le> 2 ^ 53"
    using order_trans[OF length_filter_le small(1), of has_reading] unfolding total how_many_def by simp
  have rows: "\<forall>row\<in>set (rc_counts c). 0 \<le> sum_list row \<and> sum_list row \<le> rc_total c"
  proof
    fix row assume "row \<in> set (rc_counts c)"
    then obtain a where a: "a < nat ?n" "row = rc_counts c ! a" "length row = ?nb"
      using c(4) by (auto simp: counts_shape_def in_set_conv_nth list_all_length)
    then have s: "sum_list row = (\<Sum>b<?nb. rose_count L opts ?pts a b)" using c(5) by (simp add: sum_list_row)
    have nn: "0 \<le> (\<Sum>b<?nb. rose_count L opts ?pts a' b)" for a' by (intro sum_nonneg) (simp add: rose_count_def)
    have "(\<Sum>b<?nb. rose_count L opts ?pts a b) \<le> (\<Sum>a<nat ?n. \<Sum>b<?nb. rose_count L opts ?pts a b)"
      using a(1) nn by (intro member_le_sum) auto
    moreover have "0 \<le> rc_calm c" unfolding c(3) by simp
    ultimately show "0 \<le> sum_list row \<and> sum_list row \<le> rc_total c" using nn[of a] unfolding s part by linarith
  qed
  note mf = max_fraction_bounds[OF rows pos le]
  obtain rings where rings: "roseRings L (max_fraction (rc_total c) (rc_counts c)) = Some rings"
    using roseRings_ends[OF lib] mf by blast
  have "int ?nb \<le> 2 ^ 53" using of_nat_mono[OF Suc_leI[OF small(2)], where 'a = int] by simp
  then obtain cols where cols: "band_colors L (PaletteFor mode) ?nb = Some cols" "length cols = ?nb"
    using band_colors_Some by blast
  have tab: "List.map (\<lambda>x. (rb_Sector x, rb_Band x, rb_Count x)) (rose_bins (rc_total c) (rc_counts c))
      = table_of (nat ?n) ?nb (rose_count L opts ?pts)"
    by (rule rose_bins_table) (use c(4,5) in auto)
  have "List.map rb_Count (rose_bins (rc_total c) (rc_counts c))
      = List.map (\<lambda>(a, b, x). x) (table_of (nat ?n) ?nb (rose_count L opts ?pts))"
    unfolding tab[symmetric] by simp
  then have sum: "sum_list (List.map rb_Count (rose_bins (rc_total c) (rc_counts c))) + rc_calm c = rc_total c"
    using part by (simp add: table_sum)
  obtain w where w: "resolve_options L (PaletteFor mode) ser opts = Some w" "wo_Total w = rc_total c"
    "wo_Bins w = rose_bins (rc_total c) (rc_counts c)" "wo_MaxFraction w = max_fraction (rc_total c) (rc_counts c)"
    "wo_BandColors w = cols" "wo_BandLabels w = speedBandLabels L ?es (se_Unit ser)"
    by (simp add: resolve_options_def Let_def c(1) cols(1) rings)
  show ?thesis
    using w(1) pos tab sum mf cols(2) unfolding total(2)[symmetric] total(1)[symmetric]
    by (intro exI[of _ w]) (simp only: w simp_thms speedBandLabels_def band_labels_length)
qed

lemma Resolved_rose:
  assumes "Validate_spec (cl_unicode L) (applyDefaults s) = None" "sp_Kind s = KindWindrose" "decimal_libm L"
    and "pts = se_Points (hd (pa_Series (hd (sp_Panels s))))" "opts = rose_defaults (sp_Windrose s)"
    and "length pts \<le> 2 ^ 53" "length (wo_SpeedBands opts) < 2 ^ 53"
  obtains d w ser m where "Resolved L now0 now1 s = Some (Inr (d\<lparr>sp_Windrose := Some w\<rparr>))"
    "resolve_options L (PaletteFor m) ser opts = Some w" "sp_Kind d = KindWindrose" "sp_Palette d = Some (PaletteFor m)"
    "sp_Width d = sp_Width (applyDefaults s)" "sp_Height d = sp_Height (applyDefaults s)" "m = sp_Mode (applyDefaults s)"
    "list_all (\<lambda>pt. \<not> not_finite_ptr (pt_Direction pt)) (se_Points ser)" "\<exists>pt\<in>set (se_Points ser). has_reading pt"
    "sectors_ok (wo_Sectors opts)" "se_Points ser = pts"
proof -
  let ?m = "sp_Mode (applyDefaults s)"
  obtain panels where p: "list_all2 (panel_resolved L (PaletteFor ?m)) (sp_Panels s) panels"
    "Resolved L now0 now1 s = map_option Inr (let r = (applyDefaults s)\<lparr>sp_Palette := Some (PaletteFor ?m),
       sp_Panels := panels\<rparr> in if sp_Kind s = KindWindrose then resolveRose L r else resolveX L now0 now1 r)"
    and ok: "spec_ok (cl_unicode L) (applyDefaults s)"
    using Resolved_panels[OF assms(1), of now0 now1] by metis
  define d where "d = (applyDefaults s)\<lparr>sp_Palette := Some (PaletteFor ?m), sp_Panels := panels\<rparr>"
  have "rose_ok (applyDefaults s)" using ok assms(2) by (simp add: spec_ok_def)
  then obtain p0 ser0 where p0: "sp_Panels s = [p0]" "pa_Series p0 = [ser0]" "\<exists>pt\<in>set (se_Points ser0). has_reading pt"
    and w0: "case sp_Windrose s of None \<Rightarrow> True | Some w \<Rightarrow> rose_options_ok w" by (auto simp: rose_ok_def)
  obtain p1 where p1: "panels = [p1]" "panel_resolved L (PaletteFor ?m) p0 p1" using p(1) p0(1) by (auto simp: list_all2_Cons1)
  then obtain ser1 where ser1: "pa_Series p1 = [ser1]" "series_resolved (cl_unicode L) (PaletteFor ?m) ser0 ser1"
    using p0(2) by (auto simp: panel_resolved_def list_all2_Cons1)
  have pts: "se_Points ser1 = pts" using ser1(2) p0 assms(4) by (simp add: series_resolved_def)
  have "series_ok ser1" using p1(2) ser1(1) by (simp add: panel_resolved_def panel_ok_def)
  then have fin: "list_all (\<lambda>pt. \<not> not_finite_ptr (pt_Direction pt)) (se_Points ser1)"
    by (auto simp: series_ok_def point_ok_def list_all_iff)
  have some: "\<exists>pt\<in>set (se_Points ser1). has_reading pt" using p0 assms(4) unfolding pts by simp
  have n: "sectors_ok (wo_Sectors opts)" using w0 rose_defaults_ok assms(5) by simp
  obtain w where w: "resolve_options L (PaletteFor ?m) ser1 opts = Some w"
    using resolve_options_exact[OF fin n some assms(3) assms(6)[folded pts] assms(7), of ?m] by blast
  have "resolveRose L d = Some (d\<lparr>sp_Windrose := Some w\<rparr>)"
    using w ser1(1) assms(5) by (simp add: resolveRose_def d_def p1(1))
  then have "Resolved L now0 now1 s = Some (Inr (d\<lparr>sp_Windrose := Some w\<rparr>))"
    using p(2) assms(2) by (simp add: d_def Let_def)
  then show thesis using that[OF _ w] assms(2) fin some n pts by (simp add: d_def)
qed

text \<open>C11. A wind rose counts every reading once. The resolution of a validated wind rose returns (no
  index out of range, and the loop of the rings ends), and its bins are the table of all non-empty
  cells, in sector and class order, with the number of readings of that sector and speed class; the
  bins and the calm readings add up to the total, which is the number of points with a direction and
  a speed; there is a colour and a label per class; and the largest share lies in 0 to 1.\<close>

theorem rose_counts_every_reading:
  assumes "Validate_spec (cl_unicode L) (applyDefaults s) = None" "sp_Kind s = KindWindrose" "decimal_libm L"
    and "pts = se_Points (hd (pa_Series (hd (sp_Panels s))))" "opts = rose_defaults (sp_Windrose s)"
    and "length pts \<le> 2 ^ 53" "length (wo_SpeedBands opts) < 2 ^ 53"
  shows "\<exists>r w. Resolved L now0 now1 s = Some (Inr r) \<and> sp_Windrose r = Some w
    \<and> wo_Total w = how_many has_reading pts \<and> 0 < wo_Total w
    \<and> List.map (\<lambda>x. (rb_Sector x, rb_Band x, rb_Count x)) (wo_Bins w)
        = table_of (nat (wo_Sectors opts)) (Suc (length (wo_SpeedBands opts))) (rose_count L opts pts)
    \<and> sum_list (List.map rb_Count (wo_Bins w))
        + how_many (\<lambda>pt. has_reading pt \<and> flt (the (pt_Value pt)) (wo_CalmBelow opts)) pts = wo_Total w
    \<and> length (wo_BandColors w) = Suc (length (wo_SpeedBands opts)) \<and> length (wo_BandLabels w) = Suc (length (wo_SpeedBands opts))
    \<and> finite64 (wo_MaxFraction w) \<and> 0 \<le> fval (wo_MaxFraction w) \<and> fval (wo_MaxFraction w) \<le> 1"
proof -
  obtain d w ser m where r: "Resolved L now0 now1 s = Some (Inr (d\<lparr>sp_Windrose := Some w\<rparr>))"
    "resolve_options L (PaletteFor m) ser opts = Some w"
    and ser: "list_all (\<lambda>pt. \<not> not_finite_ptr (pt_Direction pt)) (se_Points ser)" "\<exists>pt\<in>set (se_Points ser). has_reading pt"
      "sectors_ok (wo_Sectors opts)" "se_Points ser = pts"
    by (rule Resolved_rose[OF assms, of now0 now1])
  note x = resolve_options_exact[OF ser(1,3,2) assms(3) assms(6)[folded ser(4)] assms(7), of m, unfolded r(2) ser(4)]
  show ?thesis using r(1) x by (intro exI[of _ "d\<lparr>sp_Windrose := Some w\<rparr>"] exI[of _ w]) simp
qed

text \<open>The documented default of 16 sectors is refused when it is asked for, and a resolved rose that was
  given the default does not validate again.\<close>

definition one_reading :: Point where
  "one_reading = \<lparr>pt_Time = go_date 2024 6 1 12 0 0 0, pt_Value = Some (Fin 5), pt_Low = None, pt_High = None,
     pt_Direction = Some (Fin 0)\<rparr>"

definition calm_reading :: Point where
  "calm_reading = one_reading\<lparr>pt_Time := go_date 2024 6 1 13 0 0 0, pt_Value := Some (Fin (1/4))\<rparr>"

definition wind_series :: Series where
  "wind_series = \<lparr>se_Name = ''Wind'', se_Parameter = ''wind_speed'', se_Mark = [], se_Unit = [], se_Slot = 0,
     se_Color = [], se_Points = [one_reading, calm_reading]\<rparr>"

definition small_rose :: "WindroseOptions option \<Rightarrow> Spec" where
  "small_rose w = Windrose ''Wind'' wind_series w"

lemma sixteen_refused:
  "Validate_spec ascii_only (applyDefaults (small_rose None)) = None
   \<and> Validate_spec ascii_only (applyDefaults (small_rose (Some (no_options\<lparr>wo_Sectors := defaultSectors\<rparr>)))) = Some (RoseSectors 16)"
  by code_simp

theorem rose_counts_every_reading_witness:
  "\<exists>r w. Resolved demo_libs zero_time zero_time (small_rose None) = Some (Inr r) \<and> sp_Windrose r = Some w \<and> wo_Total w = 2
     \<and> List.map (\<lambda>x. (rb_Sector x, rb_Band x, rb_Count x)) (wo_Bins w) = [(0, 2, 1)]"
proof -
  let ?s = "small_rose None" and ?opts = "rose_defaults None"
  have k: "sp_Kind ?s = KindWindrose" "sp_Windrose ?s = None"
    "se_Points (hd (pa_Series (hd (sp_Panels ?s)))) = [one_reading, calm_reading]"
    by (simp_all add: small_rose_def Windrose_def new_spec_def new_panel_def wind_series_def)
  have v: "Validate_spec (cl_unicode demo_libs) (applyDefaults ?s) = None"
    using sixteen_refused by (simp add: demo_libs_def plain_libs_def)
  have l: "length [one_reading, calm_reading] \<le> 2 ^ 53" "length (wo_SpeedBands ?opts) < 2 ^ 53"
    by (simp_all add: rose_defaults_def Let_def no_options_def defaultSpeedBands_def)
  have r: "reading_of (cl_oob demo_libs) 16 defaultSpeedBands defaultCalmBelow one_reading = CellReading 0 2"
    "reading_of (cl_oob demo_libs) 16 defaultSpeedBands defaultCalmBelow calm_reading = CalmReading"
    "how_many has_reading [one_reading, calm_reading] = 2" by code_simp+
  have f: "wo_Sectors ?opts = 16" "wo_SpeedBands ?opts = defaultSpeedBands" "wo_CalmBelow ?opts = defaultCalmBelow"
    "length defaultSpeedBands = 5" by code_simp+
  have "rose_count demo_libs ?opts [one_reading, calm_reading] = (\<lambda>a b. if a = 0 \<and> b = 2 then 1 else 0)"
    by (intro ext) (simp add: rose_count_def how_many_def r f)
  moreover have "table_of 16 6 (\<lambda>a b. if a = 0 \<and> b = 2 then 1 else 0) = [(0, 2, 1)]" by (simp add: table_of_def upt_rec)
  ultimately have t: "table_of (nat (wo_Sectors ?opts)) (Suc (length (wo_SpeedBands ?opts)))
      (rose_count demo_libs ?opts [one_reading, calm_reading]) = [(0, 2, 1)]" by (simp only: f) simp
  show ?thesis
    using rose_counts_every_reading[OF v k(1) demo_libs_decimal refl refl, unfolded k(2,3), OF l, of zero_time zero_time]
    unfolding t r(3) by (elim exE conjE) (intro exI conjI; assumption)
qed

end
