(* ===== verification/ChartColors.thy ===== *)
theory ChartColors
  imports ChartPaint ChartRoseCorrect
begin

text \<open>
  The drawing of a resolved specification never panics, and it uses the colours of the palette in their
  roles: text wears an ink, marks wear the colour of a series, a status or a speed class.
\<close>

definition inks :: "ResolvedPalette \<Rightarrow> string set" where
  "inks pal = {rp_InkPrimary pal, rp_InkSecondary pal, rp_InkMuted pal}"

text \<open>The colours an operation other than text may have: none, the surface, the grid, and those of the marks.\<close>

definition paint :: "ResolvedPalette \<Rightarrow> string set \<Rightarrow> string set" where
  "paint pal C = {[], rp_Surface pal, rp_Gridline pal, rp_Baseline pal} \<union> C"

definition op_ok :: "ResolvedPalette \<Rightarrow> string set \<Rightarrow> Op \<Rightarrow> bool" where
  "op_ok pal C q \<longleftrightarrow>
     (if op_Kind q = OpText then op_Fill q \<in> inks pal else {op_Fill q, op_Stroke q, op_RingColor q} \<subseteq> paint pal C)"

definition drawing_ok :: "string set \<Rightarrow> Drawing \<Rightarrow> bool" where
  "drawing_ok C d \<longleftrightarrow> (\<forall>q\<in>set (dr_Ops d). op_ok (dr_Palette d) C q)"

named_theorems draws \<open>palette and colours of a drawing step\<close>

lemma paint_simps [simp]:
  "[] \<in> paint pal C" "rp_Surface pal \<in> paint pal C" "rp_Gridline pal \<in> paint pal C" "rp_Baseline pal \<in> paint pal C"
  by (simp_all add: paint_def)

lemma paint_mark [draws]: "c \<in> C \<Longrightarrow> c \<in> paint pal C"
  by (simp add: paint_def)

lemma ink_simps [simp]: "rp_InkPrimary pal \<in> inks pal" "rp_InkSecondary pal \<in> inks pal" "rp_InkMuted pal \<in> inks pal"
  by (simp_all add: inks_def)

lemma new_op_fields [simp]:
  "op_Kind (new_op k) = k" "op_Fill (new_op k) = []" "op_Stroke (new_op k) = []" "op_RingColor (new_op k) = []"
  by (simp_all add: new_op_def)

lemma add_op_ok: "dr_Palette (add_op q d) = dr_Palette d" "drawing_ok C d \<Longrightarrow> op_ok (dr_Palette d) C q \<Longrightarrow> drawing_ok C (add_op q d)"
  by (auto simp: drawing_ok_def add_op_def)

lemma draw_rect_ok [draws]:
  "dr_Palette (draw_rect x y w h c a d) = dr_Palette d"
  "drawing_ok C d \<Longrightarrow> c \<in> paint (dr_Palette d) C \<Longrightarrow> drawing_ok C (draw_rect x y w h c a d)"
  by (simp_all add: draw_rect_def add_op_ok op_ok_def op_kind_defs)

lemma roundedTopRect_ok [draws]:
  "dr_Palette (roundedTopRect x y w h r c d) = dr_Palette d"
  "drawing_ok C d \<Longrightarrow> c \<in> paint (dr_Palette d) C \<Longrightarrow> drawing_ok C (roundedTopRect x y w h r c d)"
  by (simp_all add: roundedTopRect_def Let_def add_op_ok op_ok_def op_kind_defs split: prod.split)

lemma polyline_ok [draws]:
  "dr_Palette (polyline pts c w d) = dr_Palette d"
  "drawing_ok C d \<Longrightarrow> c \<in> paint (dr_Palette d) C \<Longrightarrow> drawing_ok C (polyline pts c w d)"
  by (simp_all add: polyline_def add_op_ok op_ok_def op_kind_defs)

lemma polygon_ok [draws]:
  "dr_Palette (polygon pts c a s w d) = dr_Palette d"
  "drawing_ok C d \<Longrightarrow> c \<in> paint (dr_Palette d) C \<Longrightarrow> s \<in> paint (dr_Palette d) C \<Longrightarrow> drawing_ok C (polygon pts c a s w d)"
  by (simp_all add: polygon_def add_op_ok op_ok_def op_kind_defs)

lemma circle_ok [draws]:
  "dr_Palette (circle x y r c w s d) = dr_Palette d"
  "drawing_ok C d \<Longrightarrow> c \<in> paint (dr_Palette d) C \<Longrightarrow> s \<in> paint (dr_Palette d) C \<Longrightarrow> drawing_ok C (circle x y r c w s d)"
  by (simp_all add: circle_def add_op_ok op_ok_def op_kind_defs)

lemma strokedCircle_ok [draws]:
  "dr_Palette (strokedCircle x y r c w d) = dr_Palette d"
  "drawing_ok C d \<Longrightarrow> c \<in> paint (dr_Palette d) C \<Longrightarrow> drawing_ok C (strokedCircle x y r c w d)"
  by (simp_all add: strokedCircle_def add_op_ok op_ok_def op_kind_defs)

lemma draw_text_ok [draws]:
  "dr_Palette (draw_text t x y sz b c ax ay d) = dr_Palette d"
  "drawing_ok C d \<Longrightarrow> c \<in> inks (dr_Palette d) \<Longrightarrow> drawing_ok C (draw_text t x y sz b c ax ay d)"
  by (simp_all add: draw_text_def add_op_ok op_ok_def op_kind_defs)

lemma for_each_palette: "(\<And>x d. dr_Palette (f x d) = dr_Palette d) \<Longrightarrow> dr_Palette (for_each f xs d) = dr_Palette d"
  by (induction xs arbitrary: d) auto

lemma for_each_ok:
  assumes "\<And>x d. dr_Palette (f x d) = dr_Palette d" "drawing_ok C d" "dr_Palette d = pal"
    "\<And>x d. x \<in> set xs \<Longrightarrow> drawing_ok C d \<Longrightarrow> dr_Palette d = pal \<Longrightarrow> drawing_ok C (f x d)"
  shows "drawing_ok C (for_each f xs d)"
  using assms(2-) by (induction xs arbitrary: d) (auto simp: assms(1))

subsection \<open>Title block, legend and footer\<close>

lemma legend_ok [draws]:
  "dr_Palette (legend M s l d) = dr_Palette d"
  "drawing_ok C d \<Longrightarrow> \<forall>p\<in>set (sp_Panels s). \<forall>ser\<in>set (pa_Series p). se_Color ser \<in> C \<Longrightarrow> drawing_ok C (legend M s l d)"
proof -
  have "dr_Palette (legend_entries M ly limit x sers d) = dr_Palette d" for ly limit x sers d
    by (induction sers arbitrary: x d) (simp_all add: Let_def draws)
  moreover have "drawing_ok C d \<Longrightarrow> \<forall>ser\<in>set sers. se_Color ser \<in> C \<Longrightarrow> drawing_ok C (legend_entries M ly limit x sers d)" for ly limit x sers d
    by (induction sers arbitrary: x d) (simp_all add: Let_def draws)
  ultimately show "dr_Palette (legend M s l d) = dr_Palette d"
    "drawing_ok C d \<Longrightarrow> \<forall>p\<in>set (sp_Panels s). \<forall>ser\<in>set (pa_Series p). se_Color ser \<in> C \<Longrightarrow> drawing_ok C (legend M s l d)"
    by (simp_all add: legend_def)
qed

lemma footer_ok [draws]: "dr_Palette (footer M s l d) = dr_Palette d" "drawing_ok C d \<Longrightarrow> drawing_ok C (footer M s l d)"
  by (simp_all add: footer_def draws)

text \<open>A step that returns a drawing in the colours of the marks.\<close>

definition paints :: "string set \<Rightarrow> ResolvedPalette \<Rightarrow> Drawing option \<Rightarrow> bool" where
  "paints C pal r \<longleftrightarrow> (\<exists>d. r = Some d \<and> drawing_ok C d \<and> dr_Palette d = pal)"

lemma paints_Some [simp]: "paints C pal (Some d) \<longleftrightarrow> drawing_ok C d \<and> dr_Palette d = pal"
  by (simp add: paints_def)

lemma paints_bind:
  "paints C pal r \<Longrightarrow> (\<And>d. drawing_ok C d \<Longrightarrow> dr_Palette d = pal \<Longrightarrow> paints C pal (f d)) \<Longrightarrow> paints C pal (Option.bind r f)"
  by (auto simp: paints_def)

lemma rose_legend_ok:
  "drawing_ok C d \<Longrightarrow> dr_Palette d = pal \<Longrightarrow> set colors \<subseteq> C \<Longrightarrow> 0 \<le> i \<Longrightarrow> i + int (length labels) \<le> int (length colors) \<Longrightarrow>
   paints C pal (rose_legend_entries M ly limit colors x i labels d)"
proof (induction labels arbitrary: x i d)
  case (Cons label labels)
  obtain color where c: "slice_at colors i = Some color" "color \<in> C"
    using Cons.prems by (simp add: slice_at_def subset_iff nat_less_iff)
  then show ?case using Cons by (simp add: Let_def draws)
qed simp

lemma chrome_ok:
  assumes "drawing_ok C d" "dr_Palette d = pal"
    "sp_Kind s \<noteq> KindWindrose \<Longrightarrow> \<forall>p\<in>set (sp_Panels s). \<forall>ser\<in>set (pa_Series p). se_Color ser \<in> C"
    "sp_Kind s = KindWindrose \<Longrightarrow> \<exists>w. sp_Windrose s = Some w \<and> set (wo_BandColors w) \<subseteq> C \<and> length (wo_BandLabels w) \<le> length (wo_BandColors w)"
  shows "paints C pal (chrome M s l d)"
  unfolding chrome_def Let_def
proof (rule paints_bind)
  define d1 where "d1 = (if sp_Title s \<noteq> [] then draw_text (truncateToWidth M (sp_Title s) sizeTitle True (fsub (ly_width l) (Fin 32)))
    (pX (ly_titleAt l)) (pY (ly_titleAt l)) sizeTitle True (rp_InkPrimary (dr_Palette d)) (Fin 0) (Fin 1) d else d)"
  define d2 where "d2 = (if sp_Subtitle s \<noteq> [] then draw_text (truncateToWidth M (sp_Subtitle s) sizeSubtitle False (fsub (ly_width l) (Fin 32)))
    (pX (ly_subtitleAt l)) (pY (ly_subtitleAt l)) sizeSubtitle False (rp_InkSecondary (dr_Palette d1)) (Fin 0) (Fin 1) d1 else d1)"
  have d2: "drawing_ok C d2" "dr_Palette d2 = pal" using assms(1,2) by (simp_all add: d2_def d1_def draws)
  show "paints C pal (if sp_Kind s = KindWindrose then roseLegend M s l d2
      else Some (if legendEntryCount s \<ge> 2 then legend M s l d2 else d2))"
  proof (cases "sp_Kind s = KindWindrose")
    case True
    then show ?thesis using assms(4) d2 by (auto simp: roseLegend_def intro!: rose_legend_ok)
  next
    case False
    then show ?thesis using assms(3) d2 by (simp add: draws)
  qed
qed (simp add: draws)

subsection \<open>Panels\<close>

lemma panelBackground_ok [draws]:
  "dr_Palette (panelBackground lo hi p plot y d) = dr_Palette d"
  "drawing_ok C d \<Longrightarrow> \<forall>b\<in>set (pa_Bands p). bd_Color b \<in> C \<Longrightarrow> drawing_ok C (panelBackground lo hi p plot y d)"
proof -
  have pal: "dr_Palette (draw_band lo hi plot y b d) = dr_Palette d" for b d by (simp add: draw_band_def Let_def draws)
  then show "dr_Palette (panelBackground lo hi p plot y d) = dr_Palette d" by (simp add: panelBackground_def for_each_palette)
  show "drawing_ok C (panelBackground lo hi p plot y d)" if "drawing_ok C d" "\<forall>b\<in>set (pa_Bands p). bd_Color b \<in> C"
    unfolding panelBackground_def using that pal
    by (intro for_each_ok[OF pal _ refl]) (simp_all add: draw_band_def Let_def draws)
qed

lemma panelGrid_ok [draws]:
  "dr_Palette (panelGrid L s lo hi p plot x y d) = dr_Palette d"
  "drawing_ok C d \<Longrightarrow> drawing_ok C (panelGrid L s lo hi p plot x y d)"
proof -
  have pal: "dr_Palette (draw_y_tick lo hi plot y t d) = dr_Palette d" "dr_Palette (draw_x_line L plot x t d) = dr_Palette d" for t d
    by (simp_all add: draw_y_tick_def draw_x_line_def Let_def draws)
  show "dr_Palette (panelGrid L s lo hi p plot x y d) = dr_Palette d"
    by (simp add: panelGrid_def Let_def for_each_palette pal draws)
  have "drawing_ok C d \<Longrightarrow> drawing_ok C (for_each (draw_y_tick lo hi plot y) ts d)"
    "drawing_ok C d \<Longrightarrow> drawing_ok C (for_each (draw_x_line L plot x) ts d)" for ts d
    by (rule for_each_ok[OF pal(1) _ refl], assumption, simp add: draw_y_tick_def Let_def draws)
      (rule for_each_ok[OF pal(2) _ refl], assumption, simp add: draw_x_line_def Let_def draws)
  then show "drawing_ok C d \<Longrightarrow> drawing_ok C (panelGrid L s lo hi p plot x y d)"
    by (simp add: panelGrid_def Let_def for_each_palette pal draws)
qed

lemma xAxis_ok: "drawing_ok C d \<Longrightarrow> drawing_ok C (xAxis L now0 s l d) \<and> dr_Palette (xAxis L now0 s l d) = dr_Palette d"
proof -
  have pal: "dr_Palette (draw_x_label L l r x t d) = dr_Palette d" for r x t d
    by (simp add: draw_x_label_def Let_def draws)
  have "drawing_ok C d \<Longrightarrow> drawing_ok C (for_each (draw_x_label L l r x) ts d)" for r x ts d
    by (rule for_each_ok[OF pal _ refl], assumption, simp add: draw_x_label_def Let_def draws)
  then show "drawing_ok C d \<Longrightarrow> ?thesis"
    by (simp add: xAxis_def Let_def for_each_palette pal split: prod.split)
qed

subsection \<open>Marks\<close>

lemma lineMark_ok [draws]:
  "dr_Palette (lineMark ser x y step d) = dr_Palette d"
  "drawing_ok C d \<Longrightarrow> se_Color ser \<in> C \<Longrightarrow> drawing_ok C (lineMark ser x y step d)"
proof -
  have pal: "dr_Palette (draw_run ser x y step r d) = dr_Palette d" for r d
    by (simp add: draw_run_def Let_def draws split: list.split)
  show "dr_Palette (lineMark ser x y step d) = dr_Palette d" by (simp add: lineMark_def for_each_palette pal)
  show "drawing_ok C d \<Longrightarrow> se_Color ser \<in> C \<Longrightarrow> drawing_ok C (lineMark ser x y step d)"
    unfolding lineMark_def
    by (rule for_each_ok[OF pal _ refl], assumption, simp add: draw_run_def Let_def draws split: list.split)
qed

lemma bandMark_ok [draws]:
  "dr_Palette (bandMark ser x y d) = dr_Palette d"
  "drawing_ok C d \<Longrightarrow> se_Color ser \<in> C \<Longrightarrow> drawing_ok C (bandMark ser x y d)"
  by (simp_all add: bandMark_def Let_def draws)

lemma barMark_ok [draws]:
  "dr_Palette (barMark ser plot x y d) = dr_Palette d"
  "drawing_ok C d \<Longrightarrow> se_Color ser \<in> C \<Longrightarrow> drawing_ok C (barMark ser plot x y d)"
proof -
  have pal: "dr_Palette (draw_bar ser plot x y w base pt d) = dr_Palette d" for w base pt d
    by (simp add: draw_bar_def Let_def draws split: option.split)
  show "dr_Palette (barMark ser plot x y d) = dr_Palette d" by (simp add: barMark_def Let_def for_each_palette pal)
  have "drawing_ok C d \<Longrightarrow> se_Color ser \<in> C \<Longrightarrow> drawing_ok C (for_each (draw_bar ser plot x y w base) pts d)" for w base pts d
    by (rule for_each_ok[OF pal _ refl], assumption, simp add: draw_bar_def Let_def draws split: option.split)
  then show "drawing_ok C d \<Longrightarrow> se_Color ser \<in> C \<Longrightarrow> drawing_ok C (barMark ser plot x y d)"
    by (simp add: barMark_def Let_def)
qed

lemma endMarker_ok [draws]:
  "dr_Palette (endMarker L M ser x y n plot d) = dr_Palette d"
  "drawing_ok C d \<Longrightarrow> se_Color ser \<in> C \<Longrightarrow> drawing_ok C (endMarker L M ser x y n plot d)"
  by (simp_all add: endMarker_def Let_def draws split: list.split)

lemma draw_series_ok [draws]:
  "dr_Palette (draw_series L M plot x y n ser d) = dr_Palette d"
  "drawing_ok C d \<Longrightarrow> se_Color ser \<in> C \<Longrightarrow> drawing_ok C (draw_series L M plot x y n ser d)"
  by (simp_all add: draw_series_def draws)

lemma draw_panel_ok:
  assumes "drawing_ok C d" "dr_Palette d = pal" "ax_Min (pa_Y p) \<noteq> None" "ax_Max (pa_Y p) \<noteq> None"
    "\<forall>ser\<in>set (pa_Series p). se_Color ser \<in> C" "\<forall>b\<in>set (pa_Bands p). bd_Color b \<in> C"
  shows "paints C pal (draw_panel L M s t0 t1 p plot at0 d)"
proof -
  obtain lo hi where e: "y_ends p = Some (lo, hi)" using assms(3,4) by (auto simp: y_ends_def)
  have series: "drawing_ok C d \<Longrightarrow> drawing_ok C (for_each (draw_series L M plot x y n) (pa_Series p) d)"
    "dr_Palette (for_each (draw_series L M plot x y n) (pa_Series p) d) = dr_Palette d" for x y n d
    using assms(5) by (auto intro!: for_each_ok[OF draw_series_ok(1) _ refl] for_each_palette simp: draws)
  show ?thesis using assms by (simp add: draw_panel_def e Let_def series draws)
qed

lemma draw_panels_ok:
  assumes "drawing_ok C d" "dr_Palette d = pal" "length plots = length ps" "length titles = length ps"
    "\<forall>p\<in>set ps. ax_Min (pa_Y p) \<noteq> None \<and> ax_Max (pa_Y p) \<noteq> None \<and> (\<forall>ser\<in>set (pa_Series p). se_Color ser \<in> C)
       \<and> (\<forall>b\<in>set (pa_Bands p). bd_Color b \<in> C)"
  shows "paints C pal (draw_panels L M s t0 t1 ps plots titles d)"
  using assms
proof (induction ps arbitrary: plots titles d)
  case (Cons p ps)
  then obtain plot plots' title titles' where c: "plots = plot # plots'" "titles = title # titles'"
    by (auto simp: length_Suc_conv)
  have "paints C pal (draw_panel L M s t0 t1 p plot title d)" using Cons.prems by (intro draw_panel_ok) auto
  then show ?case unfolding c draw_panels.simps using Cons c by (elim paints_bind) simp
qed simp

subsection \<open>The wind rose\<close>

lemma roseGrid_ok [draws]:
  "dr_Palette (roseGrid L rings c maxR scl d) = dr_Palette d"
  "drawing_ok C d \<Longrightarrow> drawing_ok C (roseGrid L rings c maxR scl d)"
proof -
  have pal: "dr_Palette (draw_ring c maxR scl ring d) = dr_Palette d" "dr_Palette (draw_compass L c maxR e d) = dr_Palette d" for ring e d
    by (simp_all add: draw_ring_def draw_compass_def Let_def draws split: prod.split)
  show "dr_Palette (roseGrid L rings c maxR scl d) = dr_Palette d" by (simp only: roseGrid_def for_each_palette pal)
  have "drawing_ok C d \<Longrightarrow> drawing_ok C (for_each (draw_ring c maxR scl) ks d)"
    "drawing_ok C d \<Longrightarrow> drawing_ok C (for_each (draw_compass L c maxR) es d)" for ks es d
    by (rule for_each_ok[OF pal(1) _ refl], assumption, simp add: draw_ring_def Let_def draws)
      (rule for_each_ok[OF pal(2) _ refl], assumption, simp add: draw_compass_def Let_def draws split: prod.split)
  then show "drawing_ok C d \<Longrightarrow> drawing_ok C (roseGrid L rings c maxR scl d)" unfolding roseGrid_def by blast
qed

lemma draw_wedges_ok:
  assumes "drawing_ok C d" "dr_Palette d = pal" "set colors \<subseteq> C"
    "\<forall>bin\<in>set bins. 0 \<le> rb_Sector bin \<and> rb_Sector bin < int (length cum) \<and> 0 \<le> rb_Band bin \<and> rb_Band bin < int (length colors)"
  shows "paints C pal (draw_wedges L c scl sw colors cum bins d)"
  using assms
proof (induction bins arbitrary: cum d)
  case (Cons bin bins)
  then have "slice_at cum (rb_Sector bin) = Some (cum ! nat (rb_Sector bin))"
    "slice_at colors (rb_Band bin) = Some (colors ! nat (rb_Band bin))" "colors ! nat (rb_Band bin) \<in> C"
    by (simp_all add: slice_at_def subset_iff nat_less_iff)
  then show ?case using Cons by (simp add: Let_def draws)
qed simp

lemma buildRose_ok:
  assumes "drawing_ok C d" "dr_Palette d = pal" "sp_Windrose s = Some w" "set (wo_BandColors w) \<subseteq> C" "0 \<le> wo_Sectors w"
    "\<forall>bin\<in>set (wo_Bins w). 0 \<le> rb_Sector bin \<and> rb_Sector bin < wo_Sectors w \<and> 0 \<le> rb_Band bin \<and> rb_Band bin < int (length (wo_BandColors w))"
  shows "paints C pal (buildRose L s l d)"
  unfolding buildRose_def assms(3) Option.bind.simps Let_def if_not_P[OF assms(5)[folded not_less]]
proof (rule paints_bind[OF draw_wedges_ok])
  show "drawing_ok C (roseGrid L (wo_Rings w) (ly_roseCentre l) (ly_roseRadius l) (rose_scale w (ly_roseRadius l)) d)"
    "dr_Palette (roseGrid L (wo_Rings w) (ly_roseCentre l) (ly_roseRadius l) (rose_scale w (ly_roseRadius l)) d) = pal"
    using assms(1,2) by (simp_all add: draws)
  show "set (wo_BandColors w) \<subseteq> C" by fact
  show "\<forall>bin\<in>set (wo_Bins w). 0 \<le> rb_Sector bin \<and> rb_Sector bin < int (length (replicate (nat (wo_Sectors w)) (wo_CalmFraction w)))
      \<and> 0 \<le> rb_Band bin \<and> rb_Band bin < int (length (wo_BandColors w))" using assms(5,6) by simp
qed (simp add: draws)

subsection \<open>The whole drawing\<close>

lemma layout_panels_length: "length (layout_panels left w a tw y ps) = length ps"
  by (induction ps arbitrary: y) (simp_all add: Let_def split: prod.split)

lemma computeLayout_lengths:
  "sp_Kind s \<noteq> KindWindrose \<Longrightarrow> length (ly_plots (computeLayout M s)) = length (sp_Panels s)
     \<and> length (ly_panelTitleAt (computeLayout M s)) = length (sp_Panels s)"
  by (simp add: computeLayout_def Let_def layout_panels_length split: prod.split)

lemma Build_ok:
  assumes "sp_Palette s = Some pal"
    "sp_Kind s \<noteq> KindWindrose \<Longrightarrow> \<forall>p\<in>set (sp_Panels s). ax_Min (pa_Y p) \<noteq> None \<and> ax_Max (pa_Y p) \<noteq> None
       \<and> (\<forall>ser\<in>set (pa_Series p). se_Color ser \<in> C) \<and> (\<forall>b\<in>set (pa_Bands p). bd_Color b \<in> C)"
    "sp_Kind s = KindWindrose \<Longrightarrow> \<exists>w. sp_Windrose s = Some w \<and> set (wo_BandColors w) \<subseteq> C
       \<and> length (wo_BandLabels w) \<le> length (wo_BandColors w) \<and> 0 \<le> wo_Sectors w
       \<and> (\<forall>bin\<in>set (wo_Bins w). 0 \<le> rb_Sector bin \<and> rb_Sector bin < wo_Sectors w \<and> 0 \<le> rb_Band bin \<and> rb_Band bin < int (length (wo_BandColors w)))"
  shows "paints C pal (Build L M now0 s)"
  unfolding Build_def assms(1) Option.bind.simps Let_def
proof (rule paints_bind[OF chrome_ok], goal_cases)
  case 1
  have "drawing_ok C \<lparr>dr_Width = sp_Width s, dr_Height = sp_Height s, dr_Palette = pal, dr_Ops = []\<rparr>" by (simp add: drawing_ok_def)
  then show ?case by (simp add: draws)
next
  case 5
  then show ?case
  proof (cases "sp_Kind s = KindWindrose")
    case True
    then show ?thesis using 5 assms(3) by (auto intro!: buildRose_ok)
  next
    case False
    then show ?thesis using 5 assms(2) computeLayout_lengths[OF False]
      by (auto split: prod.split intro!: paints_bind[OF draw_panels_ok] simp: xAxis_ok)
  qed
qed (use assms in \<open>auto simp: draws\<close>)

lemma StatusColor_ran: "StatusColor (PaletteFor mode) st \<in> ran statusSteps"
proof (cases "statusSteps st")
  case None
  have "statusSteps StatusNone = Some ''#898781''" by code_simp
  then show ?thesis using None by (auto simp: StatusColor_def intro: ranI)
qed (auto simp: StatusColor_def intro: ranI)

lemma ink_not_categorical: "c \<in> inks (PaletteFor mode) \<Longrightarrow> c \<notin> set (rp_Series (PaletteFor mode))"
  by (auto simp: inks_def PaletteFor_def seriesLight_def seriesDark_def)

lemma those_mem: "those xs = Some ys \<Longrightarrow> y \<in> set ys \<Longrightarrow> Some y \<in> set xs"
  by (induction xs arbitrary: ys) (auto split: option.splits)

lemma band_colors_ramp: "band_colors L pal n = Some cols \<Longrightarrow> set cols \<subseteq> set (rp_Sequential pal)"
proof
  have at: "x \<in> set xs" if "slice_at xs i = Some x" for xs i and x :: string
    using that by (auto simp: slice_at_def nat_less_iff split: if_splits)
  fix x assume "band_colors L pal n = Some cols" "x \<in> set cols"
  then have "Some x \<in> set (List.map (\<lambda>i. SequentialColor (cl_oob L) pal (fdiv (f_of_int (int (i + 1))) (f_of_int (int n)))) [0..<n])"
    unfolding band_colors_def by (rule those_mem)
  then show "x \<in> set (rp_Sequential pal)" using at by (auto simp: SequentialColor_def Let_def split: if_splits)
qed

lemma resolve_options_fields:
  "resolve_options L pal ser opts = Some w \<Longrightarrow> wo_Sectors w = wo_Sectors opts \<and> set (wo_BandColors w) \<subseteq> set (rp_Sequential pal)"
  by (auto simp: resolve_options_def Let_def bind_eq_Some_conv dest: band_colors_ramp[THEN subsetD])

lemma table_cells:
  assumes "List.map (\<lambda>x. (rb_Sector x, rb_Band x, rb_Count x)) bins = table_of n nb f" "bin \<in> set bins"
  shows "0 \<le> rb_Sector bin \<and> rb_Sector bin < int n \<and> 0 \<le> rb_Band bin \<and> rb_Band bin < int nb"
proof -
  have "(rb_Sector bin, rb_Band bin, rb_Count bin) \<in> set (table_of n nb f)"
    unfolding assms(1)[symmetric] using assms(2) by auto
  then show ?thesis by (auto simp: table_of_def)
qed

text \<open>The colours of the marks: series, status scale and ramp.\<close>

definition mark_colors :: "ResolvedPalette \<Rightarrow> string set" where
  "mark_colors pal = set (rp_Series pal) \<union> ran (rp_Status pal) \<union> set (rp_Sequential pal)"

lemma Render_panels:
  assumes "Validate_spec (cl_unicode L) (applyDefaults s) = None" "sp_Kind s \<noteq> KindWindrose"
  shows "\<exists>d. Render L M now0 now1 s = Some (Inr d) \<and> dr_Palette d = PaletteFor (sp_Mode (applyDefaults s))
    \<and> drawing_ok (mark_colors (PaletteFor (sp_Mode (applyDefaults s)))) d"
proof -
  let ?m = "sp_Mode (applyDefaults s)"
  let ?C = "mark_colors (PaletteFor ?m)"
  obtain panels where p: "list_all2 (panel_resolved L (PaletteFor ?m)) (sp_Panels s) panels"
    "Resolved L now0 now1 s = map_option Inr (let r = (applyDefaults s)\<lparr>sp_Palette := Some (PaletteFor ?m),
       sp_Panels := panels\<rparr> in if sp_Kind s = KindWindrose then resolveRose L r else resolveX L now0 now1 r)"
    using Resolved_panels[OF assms(1), of now0 now1] by metis
  define d where "d = (applyDefaults s)\<lparr>sp_Palette := Some (PaletteFor ?m), sp_Panels := panels\<rparr>"
  obtain x where r: "Resolved L now0 now1 s = Some (Inr (d\<lparr>sp_X := x\<rparr>))"
    using p(2) assms(2) resolveX_Some[of L now0 now1 d] by (auto simp: d_def Let_def)
  have colors: "se_Color ser \<in> ?C" if "q \<in> set panels" "ser \<in> set (pa_Series q)" for q ser
  proof -
    have c: "1 \<le> se_Slot ser \<and> se_Slot ser \<le> 8 \<and> se_Color ser = rp_Series (PaletteFor ?m) ! nat (se_Slot ser - 1)"
      using resolved_colors[OF p(1)] that by auto
    then have "nat (se_Slot ser - 1) < length (rp_Series (PaletteFor ?m))" unfolding palette_lengths by linarith
    then show ?thesis using c nth_mem unfolding mark_colors_def by (metis UnI1)
  qed
  have panel: "ax_Min (pa_Y q) \<noteq> None \<and> ax_Max (pa_Y q) \<noteq> None \<and> (\<forall>b\<in>set (pa_Bands q). bd_Color b \<in> ?C)" if q: "q \<in> set panels" for q
  proof -
    obtain p0 where "panel_resolved L (PaletteFor ?m) p0 q" using p(1) q by (metis in_set_conv_nth list_all2_conv_all_nth)
    then show ?thesis using StatusColor_ran[of ?m] by (auto simp: panel_resolved_def mark_colors_def)
  qed
  have "paints ?C (PaletteFor ?m) (Build L M now0 (d\<lparr>sp_X := x\<rparr>))"
    using assms(2) colors panel by (intro Build_ok) (auto simp: d_def)
  then show ?thesis using r by (auto simp: Render_def paints_def)
qed

lemma Render_rose:
  assumes "Validate_spec (cl_unicode L) (applyDefaults s) = None" "sp_Kind s = KindWindrose" "decimal_libm L"
    and "pts = se_Points (hd (pa_Series (hd (sp_Panels s))))" "opts = rose_defaults (sp_Windrose s)"
    and "length pts \<le> 2 ^ 53" "length (wo_SpeedBands opts) < 2 ^ 53"
  shows "\<exists>d. Render L M now0 now1 s = Some (Inr d) \<and> dr_Palette d = PaletteFor (sp_Mode (applyDefaults s))
    \<and> drawing_ok (mark_colors (PaletteFor (sp_Mode (applyDefaults s)))) d"
proof -
  obtain d w ser m where r: "Resolved L now0 now1 s = Some (Inr (d\<lparr>sp_Windrose := Some w\<rparr>))"
    "resolve_options L (PaletteFor m) ser opts = Some w"
    and d: "sp_Kind d = KindWindrose" "sp_Palette d = Some (PaletteFor m)" "m = sp_Mode (applyDefaults s)"
    and ser: "list_all (\<lambda>pt. \<not> not_finite_ptr (pt_Direction pt)) (se_Points ser)" "\<exists>pt\<in>set (se_Points ser). has_reading pt"
      "sectors_ok (wo_Sectors opts)" "se_Points ser = pts"
    by (rule Resolved_rose[OF assms, of now0 now1])
  obtain w' where w': "resolve_options L (PaletteFor m) ser opts = Some w'"
    "List.map (\<lambda>x. (rb_Sector x, rb_Band x, rb_Count x)) (wo_Bins w')
        = table_of (nat (wo_Sectors opts)) (Suc (length (wo_SpeedBands opts))) (rose_count L opts pts)"
    "length (wo_BandColors w') = Suc (length (wo_SpeedBands opts))" "length (wo_BandLabels w') = Suc (length (wo_SpeedBands opts))"
    using resolve_options_exact[OF ser(1,3,2) assms(3) assms(6)[folded ser(4)] assms(7), of m] unfolding ser(4) by blast
  have eq: "w' = w" using w'(1) r(2) by simp
  note f = resolve_options_fields[OF r(2)]
  have n: "0 \<le> wo_Sectors w" using ser(3) f by (simp add: sectors_ok_def)
  have bins: "\<forall>bin\<in>set (wo_Bins w). 0 \<le> rb_Sector bin \<and> rb_Sector bin < wo_Sectors w \<and> 0 \<le> rb_Band bin \<and> rb_Band bin < int (length (wo_BandColors w))"
    using table_cells[OF w'(2)[unfolded eq]] f n w'(3) unfolding eq by fastforce
  have "set (wo_BandColors w) \<subseteq> mark_colors (PaletteFor m)" using f by (auto simp: mark_colors_def)
  then have "paints (mark_colors (PaletteFor m)) (PaletteFor m) (Build L M now0 (d\<lparr>sp_Windrose := Some w\<rparr>))"
    using d(1,2) bins n w'(3,4) unfolding eq by (intro Build_ok) auto
  then show ?thesis using r(1) d(3) by (auto simp: Render_def paints_def)
qed

text \<open>C8. Every accepted specification is drawn, in the colours of its palette. \<open>Render\<close> answers the
  error of \<open>Validate\<close> and nothing else; otherwise it returns a drawing (no nil pointer, no index out of
  range, every loop ends; for a wind rose under the documented accuracy of the decimal logarithm), in
  which a text always wears one of the three inks and never the hue of a series, and every other
  operation wears the surface, the grid, a slot, a status colour or a step of the ramp.\<close>

theorem Render_complete:
  assumes "sp_Kind s = KindWindrose \<longrightarrow> decimal_libm L \<and> length (se_Points (hd (pa_Series (hd (sp_Panels s))))) \<le> 2 ^ 53
      \<and> length (wo_SpeedBands (rose_defaults (sp_Windrose s))) < 2 ^ 53"
    and "pal = PaletteFor (sp_Mode (applyDefaults s))"
  shows "case Validate_spec (cl_unicode L) (applyDefaults s) of
      Some e \<Rightarrow> Render L M now0 now1 s = Some (Inl e)
    | None \<Rightarrow> (\<exists>d. Render L M now0 now1 s = Some (Inr d) \<and> dr_Palette d = pal
        \<and> (\<forall>q\<in>set (dr_Ops d). if op_Kind q = OpText then op_Fill q \<in> inks pal \<and> op_Fill q \<notin> set (rp_Series pal)
            else {op_Fill q, op_Stroke q, op_RingColor q} \<subseteq> paint pal (mark_colors pal)))"
proof (cases "Validate_spec (cl_unicode L) (applyDefaults s)")
  case (Some e)
  then show ?thesis by (simp add: Render_def Resolved_def)
next
  case None
  obtain d where d: "Render L M now0 now1 s = Some (Inr d)" "dr_Palette d = pal" "drawing_ok (mark_colors pal) d"
    unfolding assms(2) using Render_panels[OF None] Render_rose[OF None _ _ refl refl] assms(1) by blast
  have "if op_Kind q = OpText then op_Fill q \<in> inks pal \<and> op_Fill q \<notin> set (rp_Series pal)
      else {op_Fill q, op_Stroke q, op_RingColor q} \<subseteq> paint pal (mark_colors pal)" if "q \<in> set (dr_Ops d)" for q
  proof -
    have "op_ok pal (mark_colors pal) q" using d(2,3) that by (simp add: drawing_ok_def)
    then show ?thesis using ink_not_categorical[of "op_Fill q" "sp_Mode (applyDefaults s)", folded assms(2)]
      by (cases "op_Kind q = OpText") (simp_all add: op_ok_def)
  qed
  then show ?thesis unfolding None option.case using d(1,2) by blast
qed

theorem Render_complete_witness:
  "(\<exists>d. Render demo_libs (\<lambda>_ _ _. None) zero_time zero_time demo_spec = Some (Inr d))
   \<and> (\<exists>d. Render demo_libs (\<lambda>_ _ _. None) zero_time zero_time (small_rose None) = Some (Inr d))"
proof
  have "sp_Kind demo_spec = KindWindrose \<longrightarrow> decimal_libm demo_libs
      \<and> length (se_Points (hd (pa_Series (hd (sp_Panels demo_spec))))) \<le> 2 ^ 53
      \<and> length (wo_SpeedBands (rose_defaults (sp_Windrose demo_spec))) < 2 ^ 53" using demo_fields(1) by simp
  from Render_complete[where M = "\<lambda>_ _ _. None" and ?now0.0 = zero_time and ?now1.0 = zero_time and L = demo_libs and s = demo_spec, OF this refl, unfolded demo_valid option.case]
  show "\<exists>d. Render demo_libs (\<lambda>_ _ _. None) zero_time zero_time demo_spec = Some (Inr d)" by (elim exE conjE) (rule exI)
  have a: "Validate_spec (cl_unicode demo_libs) (applyDefaults (small_rose None)) = None" by code_simp
  have "length (se_Points (hd (pa_Series (hd (sp_Panels (small_rose None)))))) \<le> 2 ^ 53
      \<and> length (wo_SpeedBands (rose_defaults (sp_Windrose (small_rose None)))) < 2 ^ 53"
    by (simp add: small_rose_def Windrose_def new_spec_def new_panel_def wind_series_def rose_defaults_def Let_def no_options_def
        defaultSpeedBands_def)
  then have "sp_Kind (small_rose None) = KindWindrose \<longrightarrow> decimal_libm demo_libs \<and> length (se_Points (hd (pa_Series (hd (sp_Panels (small_rose None)))))) \<le> 2 ^ 53
      \<and> length (wo_SpeedBands (rose_defaults (sp_Windrose (small_rose None)))) < 2 ^ 53" using demo_libs_decimal by blast
  from Render_complete[where M = "\<lambda>_ _ _. None" and ?now0.0 = zero_time and ?now1.0 = zero_time, OF this refl, unfolded a option.case]
  show "\<exists>d. Render demo_libs (\<lambda>_ _ _. None) zero_time zero_time (small_rose None) = Some (Inr d)" by (elim exE conjE) (rule exI)
qed

end
