(* ===== verification/ChartMarks.thy ===== *)
theory ChartMarks
  imports ChartColors
begin

text \<open>
  Correctness of the marks: a line is drawn per stretch of reported values and never across a gap, and
  three places where a mark is not drawn as its comment says.
\<close>

subsection \<open>Lines and gaps\<close>

definition contiguous :: "nat list \<Rightarrow> bool" where
  "contiguous r \<longleftrightarrow> r \<noteq> [] \<and> r = [hd r..<Suc (last r)]"

definition apart :: "nat list \<Rightarrow> nat list \<Rightarrow> bool" where "apart a b \<longleftrightarrow> Suc (last a) < hd b"

lemma contiguous_upt: assumes "a < i" shows "contiguous [a..<i]"
proof -
  have "hd [a..<i] = a" "last [a..<i] = i - 1" "[a..<i] \<noteq> []" using assms by simp_all
  then show ?thesis unfolding contiguous_def using assms by simp
qed

lemma runs_from_spec:
  "a \<le> i \<Longrightarrow> List.concat (runs_from i [a..<i] pts) = [a..<i] @ filter (\<lambda>k. pt_Value (pts ! (k - i)) \<noteq> None) [i..<i + length pts]
     \<and> list_all contiguous (runs_from i [a..<i] pts) \<and> successively apart (runs_from i [a..<i] pts)
     \<and> (runs_from i [a..<i] pts \<noteq> [] \<longrightarrow> a \<le> hd (hd (runs_from i [a..<i] pts)))"
proof (induction pts arbitrary: i a)
  case Nil
  then show ?case by (auto simp: contiguous_upt)
next
  case (Cons pt pts)
  have shift: "filter (\<lambda>k. pt_Value ((pt # pts) ! (k - i)) \<noteq> None) [i..<i + length (pt # pts)]
      = (if pt_Value pt \<noteq> None then [i] else []) @ filter (\<lambda>k. pt_Value (pts ! (k - Suc i)) \<noteq> None) [Suc i..<Suc i + length pts]"
  proof -
    have "[i..<i + length (pt # pts)] = i # [Suc i..<Suc i + length pts]" by (subst upt_conv_Cons) simp_all
    moreover have "filter (\<lambda>k. pt_Value ((pt # pts) ! (k - i)) \<noteq> None) [Suc i..<Suc i + length pts]
        = filter (\<lambda>k. pt_Value (pts ! (k - Suc i)) \<noteq> None) [Suc i..<Suc i + length pts]"
      by (rule filter_cong) (auto simp: Suc_diff_le nth_Cons')
    ultimately show ?thesis by simp
  qed
  show ?case
  proof (cases "pt_Value pt")
    case (Some v)
    have "[a..<i] @ [i] = [a..<Suc i]" using Cons.prems by simp
    then show ?thesis using Cons.IH[of a "Suc i"] Cons.prems Some unfolding shift by (simp del: upt_Suc)
  next
    case None
    note ih = Cons.IH[of "Suc i" "Suc i", simplified]
    show ?thesis
    proof (cases "a = i")
      case True
      then show ?thesis using ih None unfolding shift by auto
    next
      case False
      then have lt: "a < i" using Cons.prems by simp
      then have "last [a..<i] = i - 1" "hd [a..<i] = a" by simp_all
      then show ?thesis using ih None lt contiguous_upt[OF lt] unfolding shift
        by (auto simp: successively_Cons apart_def)
    qed
  qed
qed

lemma run_points_length: "length (run_points ser x y r) = length r"
  by (simp add: run_points_def)

text \<open>The operation of one run.\<close>

definition draws_run :: "Series \<Rightarrow> timeScale \<Rightarrow> linearScale \<Rightarrow> nat list \<Rightarrow> Op \<Rightarrow> bool" where
  "draws_run ser x y r q \<longleftrightarrow>
     (if length r = 1 then op_Kind q = OpCircle \<and> [mk_pt (op_X q) (op_Y q)] = run_points ser x y r
      else op_Kind q = OpPolyline \<and> op_Points q = run_points ser x y r)"

lemma draw_run_op:
  assumes "contiguous r" shows "\<exists>q. dr_Ops (draw_run ser x y False r d) = dr_Ops d @ [q] \<and> draws_run ser x y r q"
proof (cases "run_points ser x y r")
  case Nil
  then show ?thesis using assms run_points_length[of ser x y r] by (auto simp: contiguous_def)
next
  case (Cons p ps)
  have l: "length r = Suc (length ps)" using run_points_length[of ser x y r] by (simp add: Cons)
  show ?thesis
  proof (cases ps)
    case Nil
    have "\<not> fle markerRadius (Fin 0)" by code_simp
    then show ?thesis using l by (simp add: draw_run_def Cons Nil circle_def add_op_def draws_run_def new_op_def op_kind_defs mk_pt_def)
  next
    case (Cons p' ps')
    then show ?thesis using l \<open>run_points ser x y r = p # ps\<close>
      by (simp add: draw_run_def polyline_def add_op_def draws_run_def new_op_def op_kind_defs)
  qed
qed

lemma for_each_runs:
  "list_all contiguous rs \<Longrightarrow> \<exists>ops. dr_Ops (for_each (draw_run ser x y False) rs d) = dr_Ops d @ ops \<and> list_all2 (draws_run ser x y) rs ops"
proof (induction rs arbitrary: d)
  case (Cons r rs)
  obtain q where q: "dr_Ops (draw_run ser x y False r d) = dr_Ops d @ [q]" "draws_run ser x y r q"
    using draw_run_op[of r ser x y d] Cons.prems by auto
  obtain ops where "dr_Ops (for_each (draw_run ser x y False) rs (draw_run ser x y False r d)) = dr_Ops d @ q # ops"
    "list_all2 (draws_run ser x y) rs ops" using Cons.IH[of "draw_run ser x y False r d"] Cons.prems q(1) by auto
  then show ?case using q(2) by (intro exI[of _ "q # ops"]) simp
qed simp

text \<open>C34. A line never bridges a gap. The runs of a series are exactly its stretches of consecutive
  reported values: together they list the reported samples in order, each is contiguous, and between
  two of them lies at least one missing sample; and a line mark draws one operation per run, a polyline
  through the values of that run alone, or a dot for a lone reading.\<close>

theorem lines_never_bridge_gaps:
  "List.concat (runs pts) = filter (\<lambda>i. pt_Value (pts ! i) \<noteq> None) [0..<length pts]
   \<and> list_all contiguous (runs pts) \<and> successively apart (runs pts)
   \<and> (\<exists>ops. dr_Ops (lineMark (ser\<lparr>se_Points := pts\<rparr>) x y False d) = dr_Ops d @ ops
        \<and> list_all2 (draws_run (ser\<lparr>se_Points := pts\<rparr>) x y) (runs pts) ops)"
proof -
  have r: "List.concat (runs pts) = filter (\<lambda>i. pt_Value (pts ! i) \<noteq> None) [0..<length pts]"
    "list_all contiguous (runs pts)" "successively apart (runs pts)"
    using runs_from_spec[of 0 0 pts] by (simp_all add: runs_def)
  then show ?thesis using for_each_runs[OF r(2), of "ser\<lparr>se_Points := pts\<rparr>" x y d] by (simp add: lineMark_def)
qed

subsection \<open>Bars\<close>

text \<open>A domain from -10 to 10 on a plot of height 100: zero is drawn at 50.\<close>

definition demo_plot :: rect where "demo_plot = \<lparr>r_x = Fin 0, r_y = Fin 0, r_w = Fin 100, r_h = Fin 100\<rparr>"
definition demo_y :: linearScale where "demo_y = \<lparr>ls_d0 = Fin (- 10), ls_d1 = Fin 10, ls_r0 = Fin 100, ls_r1 = Fin 0\<rparr>"
definition demo_x :: timeScale where
  "demo_x = \<lparr>ts_t0 = \<lparr>t_ns = 0, t_loc = UTC\<rparr>, ts_t1 = \<lparr>t_ns = 2, t_loc = UTC\<rparr>, ts_r0 = Fin 0, ts_r1 = Fin 100\<rparr>"

definition bar_point :: "int \<Rightarrow> f64 option \<Rightarrow> Point" where
  "bar_point i v = \<lparr>pt_Time = \<lparr>t_ns = i, t_loc = UTC\<rparr>, pt_Value = v, pt_Low = None, pt_High = None, pt_Direction = None\<rparr>"

definition bar_ops :: "rat \<Rightarrow> Op list" where
  "bar_ops v = dr_Ops (barMark ((SeriesOf ascii_only ''Rain'' [] [bar_point 0 None, bar_point 1 (Some (Fin v)), bar_point 2 None])\<lparr>se_Color := ''#2a78d6''\<rparr>)
     demo_plot demo_x demo_y \<lparr>dr_Width = 100, dr_Height = 100, dr_Palette = PaletteFor ModeLight, dr_Ops = []\<rparr>)"

text \<open>When every value is positive the bars grow from the bottom of the plot, also when the domain, pinned by
  the caller, straddles zero: a bar of 5 is three quarters of the plot high, and not a quarter.\<close>

lemma bar_from_the_bottom: "List.map (\<lambda>q. (op_Y q, op_H q)) (bar_ops 5) = [(Fin 25, Fin 75)] \<and> linear_at demo_y (Fin 0) = Fin 50"
  by code_simp

text \<open>The bar of a negative value is a rectangle below zero with a corner radius; its upper end, the one
  that is rounded, lies on the zero line.\<close>

lemma negative_bar_rounds_at_zero:
  "List.map (\<lambda>q. (op_Y q, op_H q, op_Radius q)) (bar_ops (- 5)) = [(Fin 50, Fin 25, Fin 4)] \<and> linear_at demo_y (Fin 0) = Fin 50"
  by code_simp

subsection \<open>Wedges\<close>

text \<open>The wedges of a rose start outside the disc of the calm readings, but the scale is that of the
  fullest sector alone: with one calm reading out of two, whose outermost ring is that of 50 percent,
  the wedge of the other reading begins on that ring and reaches twice its radius.\<close>

definition half_calm :: WindroseOptions where
  "half_calm = no_options\<lparr>wo_Sectors := 16, wo_CalmFraction := Fin (1/2), wo_MaxFraction := Fin (1/2),
     wo_Rings := [\<lparr>tk_Value = Fin 50, tk_Label = ''50%'', tk_Time = None\<rparr>],
     wo_Bins := [\<lparr>rb_Sector = 0, rb_Band = 0, rb_Count = 1, rb_Fraction = Fin (1/2)\<rparr>]\<rparr>"

lemma wedge_beyond_the_ring:
  "\<exists>a b. draw_wedges L c (rose_scale half_calm (Fin 100)) (sector_width 16) [color]
       (replicate 16 (wo_CalmFraction half_calm)) (wo_Bins half_calm) d
     = Some (polygon (wedge L c (Fin 100) (Fin 200) a b) color (Fin 1) [] (Fin 0) d)"
proof -
  have s: "rose_scale half_calm (Fin 100) = Fin 200" by code_simp
  have r: "fmul (Fin (1/2)) (Fin 200) = Fin 100" "fmul (fadd (Fin (1/2)) (Fin (1/2))) (Fin 200) = Fin 200" by code_simp+
  have f: "wo_CalmFraction half_calm = Fin (1/2)"
    "wo_Bins half_calm = [\<lparr>rb_Sector = 0, rb_Band = 0, rb_Count = 1, rb_Fraction = Fin (1/2)\<rparr>]" by (simp_all add: half_calm_def)
  show ?thesis by (simp add: s f slice_at_def Let_def r) (intro exI, rule refl)
qed

end
