(* ===== verification/ChartSvg.thy ===== *)
theory ChartSvg
  imports ChartColors
begin

text \<open>
  The SVG encoding of a drawing (\<open>src/chart/svg.go\<close>), the entry points of \<open>chart.go\<close> and the colours of
  \<open>png.go\<close>. The rasterisation and the JSON encoding are parameters of \<open>Encode\<close>. A text of the caller
  adds no markup: the tags of the output are counted by its operations.
\<close>

subsection \<open>Escaping\<close>

definition escape_char :: "char \<Rightarrow> string" where
  "escape_char c =
     (if c = CHR ''&'' then ''&amp;'' else if c = CHR ''<'' then ''&lt;'' else if c = CHR ''>'' then ''&gt;''
      else if c = CHR 0x22 then ''&quot;'' else if c = CHR 0x27 then ''&#39;'' else [c])"

definition escapeXML :: "string \<Rightarrow> string" where "escapeXML s = List.concat (List.map escape_char s)"

subsection \<open>Numbers and points\<close>

definition num :: "chart_libs \<Rightarrow> f64 \<Rightarrow> string" where
  "num L v = (let r = fdiv (fround (fmul v (Fin 100))) (Fin 100) in if feq r (Fin 0) then ''0'' else cl_shortest L r)"

fun svg_more_points :: "chart_libs \<Rightarrow> Pt list \<Rightarrow> string" where
  "svg_more_points L [] = []"
| "svg_more_points L (p # ps) = '' '' @ num L (pX p) @ '','' @ num L (pY p) @ svg_more_points L ps"

definition svgPoints :: "chart_libs \<Rightarrow> Pt list \<Rightarrow> string" where
  "svgPoints L ps = (case ps of [] \<Rightarrow> [] | p # ps \<Rightarrow> num L (pX p) @ '','' @ num L (pY p) @ svg_more_points L ps)"

text \<open>An attribute \<open>name="value"\<close> after a blank.\<close>

definition attr :: "string \<Rightarrow> string \<Rightarrow> string" where
  "attr name v = '' '' @ name @ ''='' @ [CHR 0x22] @ v @ [CHR 0x22]"

subsection \<open>Operations\<close>

definition svg_fill :: "chart_libs \<Rightarrow> Op \<Rightarrow> string" where
  "svg_fill L q =
     (if op_Fill q \<noteq> [] then attr ''fill'' (op_Fill q) @ (if flt (op_alpha q) (Fin 1) then attr ''fill-opacity'' (num L (op_alpha q)) else [])
      else attr ''fill'' ''none'')"

definition writeSVGPaint :: "chart_libs \<Rightarrow> Op \<Rightarrow> string" where
  "writeSVGPaint L q = svg_fill L q
     @ (if op_Stroke q \<noteq> [] \<and> fgt (op_StrokeWidth q) (Fin 0) then attr ''stroke'' (op_Stroke q) @ attr ''stroke-width'' (num L (op_StrokeWidth q))
        else [])"

definition writeSVGCirclePaint :: "chart_libs \<Rightarrow> Op \<Rightarrow> string" where
  "writeSVGCirclePaint L q = svg_fill L q
     @ (if fgt (op_Ring q) (Fin 0) \<and> op_RingColor q \<noteq> [] then attr ''stroke'' (op_RingColor q) @ attr ''stroke-width'' (num L (op_Ring q))
        else if op_Stroke q \<noteq> [] \<and> fgt (op_StrokeWidth q) (Fin 0)
        then attr ''stroke'' (op_Stroke q) @ attr ''stroke-width'' (num L (op_StrokeWidth q))
        else [])"

definition roundedTopPath :: "chart_libs \<Rightarrow> Op \<Rightarrow> string" where
  "roundedTopPath L q =
     (let x = op_X q; y = op_Y q; w = op_W q; h = op_H q; r = op_Radius q in
      ''M'' @ num L x @ '' '' @ num L (fadd y r) @ ''A'' @ num L r @ '' '' @ num L r @ '' 0 0 1 '' @ num L (fadd x r) @ '' '' @ num L y
      @ ''H'' @ num L (fsub (fadd x w) r) @ ''A'' @ num L r @ '' '' @ num L r @ '' 0 0 1 '' @ num L (fadd x w) @ '' '' @ num L (fadd y r)
      @ ''V'' @ num L (fadd y h) @ ''H'' @ num L x @ ''Z'')"

definition writeSVGRect :: "chart_libs \<Rightarrow> Op \<Rightarrow> string" where
  "writeSVGRect L q =
     (if fgt (op_Radius q) (Fin 0) then ''<path'' @ attr ''d'' (roundedTopPath L q) @ writeSVGPaint L q @ ''/>''
      else ''<rect'' @ attr ''x'' (num L (op_X q)) @ attr ''y'' (num L (op_Y q)) @ attr ''width'' (num L (op_W q))
        @ attr ''height'' (num L (op_H q)) @ writeSVGPaint L q @ ''/>'')"

definition writeSVGText :: "chart_libs \<Rightarrow> metrics \<Rightarrow> Op \<Rightarrow> string" where
  "writeSVGText L M q =
     (case textOrigin M q of (x, y) \<Rightarrow>
       ''<text'' @ attr ''x'' (num L x) @ attr ''y'' (num L y) @ attr ''font-size'' (num L (op_Size q))
       @ attr ''font-weight'' (if op_Bold q then ''600'' else ''400'') @ attr ''fill'' (op_Fill q) @ ''>''
       @ escapeXML (op_Text q) @ ''</text>'')"

definition writeSVGOp :: "chart_libs \<Rightarrow> metrics \<Rightarrow> Op \<Rightarrow> string" where
  "writeSVGOp L M q =
     (if op_Kind q = OpRect then writeSVGRect L q
      else if op_Kind q = OpPolyline then ''<polyline'' @ attr ''points'' (svgPoints L (op_Points q)) @ attr ''fill'' ''none''
        @ attr ''stroke'' (op_Stroke q) @ attr ''stroke-width'' (num L (op_StrokeWidth q)) @ attr ''stroke-linejoin'' ''round''
        @ attr ''stroke-linecap'' ''round'' @ ''/>''
      else if op_Kind q = OpPolygon then ''<polygon'' @ attr ''points'' (svgPoints L (op_Points q)) @ writeSVGPaint L q @ ''/>''
      else if op_Kind q = OpCircle then ''<circle'' @ attr ''cx'' (num L (op_X q)) @ attr ''cy'' (num L (op_Y q))
        @ attr ''r'' (num L (op_Radius q)) @ writeSVGCirclePaint L q @ ''/>''
      else if op_Kind q = OpText then writeSVGText L M q
      else [])"

definition svgFontStack :: string where
  "svgFontStack = ''system-ui, -apple-system, '' @ [CHR 0x22] @ ''Segoe UI'' @ [CHR 0x22] @ '', '' @ [CHR 0x22] @ ''Go'' @ [CHR 0x22]
     @ '', sans-serif''"

definition renderSVG :: "chart_libs \<Rightarrow> metrics \<Rightarrow> Drawing \<Rightarrow> string" where
  "renderSVG L M d =
     (let w = int_to_string (dr_Width d); h = int_to_string (dr_Height d) in
      ''<svg'' @ attr ''xmlns'' ''http://www.w3.org/2000/svg'' @ attr ''width'' w @ attr ''height'' h
      @ attr ''viewBox'' (''0 0 '' @ w @ '' '' @ h) @ attr ''role'' ''img'' @ attr ''data-mode'' (rp_Mode (dr_Palette d)) @ ''>''
      @ ''<style>text{font-family:'' @ svgFontStack @ '';fill-opacity:1}</style>''
      @ List.concat (List.map (writeSVGOp L M) (dr_Ops d)) @ ''</svg>'')"

subsection \<open>Entry points\<close>

datatype encode_error = SpecError spec_error | PngError string | MarshalError string | UnknownFormat string

definition chart_PNG :: "chart_libs \<Rightarrow> metrics \<Rightarrow> (Drawing \<Rightarrow> string + string) \<Rightarrow> gotime \<Rightarrow> gotime \<Rightarrow> Spec \<Rightarrow> (encode_error + string) option" where
  "chart_PNG L M raster now0 now1 s =
     map_option (\<lambda>r. case r of Inl e \<Rightarrow> Inl (SpecError e) | Inr d \<Rightarrow> map_err PngError (raster d)) (Render L M now0 now1 s)"

definition chart_SVG :: "chart_libs \<Rightarrow> metrics \<Rightarrow> gotime \<Rightarrow> gotime \<Rightarrow> Spec \<Rightarrow> (encode_error + string) option" where
  "chart_SVG L M now0 now1 s =
     map_option (\<lambda>r. case r of Inl e \<Rightarrow> Inl (SpecError e) | Inr d \<Rightarrow> Inr (renderSVG L M d)) (Render L M now0 now1 s)"

definition chart_JSON :: "chart_libs \<Rightarrow> (Spec \<Rightarrow> string + string) \<Rightarrow> gotime \<Rightarrow> gotime \<Rightarrow> Spec \<Rightarrow> (encode_error + string) option" where
  "chart_JSON L marshal now0 now1 s =
     map_option (\<lambda>r. case r of Inl e \<Rightarrow> Inl (SpecError e) | Inr r \<Rightarrow> map_err MarshalError (marshal r)) (Resolved L now0 now1 s)"

definition MIMEPNG :: string where "MIMEPNG = ''image/png''"
definition MIMESVG :: string where "MIMESVG = ''image/svg+xml''"
definition MIMEJSON :: string where "MIMEJSON = ''application/json; charset=utf-8''"

text \<open>The content type is returned with an error too.\<close>

definition Encode ::
  "chart_libs \<Rightarrow> metrics \<Rightarrow> (Drawing \<Rightarrow> string + string) \<Rightarrow> (Spec \<Rightarrow> string + string) \<Rightarrow> gotime \<Rightarrow> gotime \<Rightarrow> Spec \<Rightarrow> string
    \<Rightarrow> ((encode_error + string) \<times> string) option" where
  "Encode L M raster marshal now0 now1 s f =
     (if f = FormatPNG then map_option (\<lambda>r. (r, MIMEPNG)) (chart_PNG L M raster now0 now1 s)
      else if f = FormatSVG then map_option (\<lambda>r. (r, MIMESVG)) (chart_SVG L M now0 now1 s)
      else if f = FormatSpec then map_option (\<lambda>r. (r, MIMEJSON)) (chart_JSON L marshal now0 now1 s)
      else Some (Inl (UnknownFormat f), []))"

subsection \<open>Colours of the raster output\<close>

record NRGBA =
  c_R :: int
  c_G :: int
  c_B :: int
  c_A :: int

definition parse_rgb :: "string \<Rightarrow> int option" where
  "parse_rgb s = map_option (foldl (\<lambda>v x. 16 * v + x) 0) (those (List.map hex_val s))"

definition parseHex :: "chart_libs \<Rightarrow> string \<Rightarrow> f64 \<Rightarrow> NRGBA" where
  "parseHex L hx alpha =
     (let fallback = \<lparr>c_R = 0x89, c_G = 0x87, c_B = 0x81, c_A = 0xFF\<rparr>;
          s = trim_space (cl_unicode L) hx; s = (if has_prefix s ''#'' then tl s else s);
          s = (if length s = 3 then [s ! 0, s ! 0, s ! 1, s ! 1, s ! 2, s ! 2] else s) in
      if length s \<noteq> 6 then fallback
      else case parse_rgb s of
          None \<Rightarrow> fallback
        | Some v \<Rightarrow>
            (let a = (if fgt alpha (Fin 0) \<and> flt alpha (Fin 1) then fmul (Fin 255) alpha else Fin 255) in
             \<lparr>c_R = v div 65536 mod 256, c_G = v div 256 mod 256, c_B = v mod 256,
              c_A = to_int64 (cl_oob L) (fadd a (Fin (1/2))) mod 256\<rparr>))"

text \<open>Every colour of the two palettes is one that \<open>parseHex\<close> reads.\<close>

definition hex_colour :: "string \<Rightarrow> bool" where
  "hex_colour c \<longleftrightarrow> length c = 7 \<and> hd c = CHR ''#'' \<and> list_all (\<lambda>x. x \<in> set ''0123456789abcdef'') (tl c)"

definition status_colors :: "string list" where
  "status_colors = [''#0ca30c'', ''#fab219'', ''#ec835a'', ''#d03b3b'', ''#898781'']"

definition palette_colors :: "ResolvedPalette \<Rightarrow> string list" where
  "palette_colors p = [rp_Surface p, rp_Page p, rp_InkPrimary p, rp_InkSecondary p, rp_InkMuted p, rp_Gridline p, rp_Baseline p]
     @ rp_Series p @ rp_Sequential p @ status_colors"

lemma hex_digits: "list_all (\<lambda>c. hex_val c \<noteq> None) ''0123456789abcdef''"
  by code_simp

lemma palette_hex: "list_all hex_colour (palette_colors (PaletteFor mode))"
  by (simp add: palette_colors_def status_colors_def PaletteFor_def seriesLight_def seriesDark_def sequentialLight_def sequentialDark_def hex_colour_def)

lemma hex_colour_parses: "hex_colour c \<Longrightarrow> parse_rgb (tl c) \<noteq> None"
proof -
  have "those (List.map hex_val s) \<noteq> None" if "list_all (\<lambda>x. hex_val x \<noteq> None) s" for s
    using that by (induction s) auto
  moreover assume "hex_colour c"
  then have "list_all (\<lambda>x. hex_val x \<noteq> None) (tl c)" using hex_digits unfolding hex_colour_def list_all_iff by blast
  ultimately show ?thesis by (simp add: parse_rgb_def)
qed

lemma status_in: "statusSteps st = Some c \<Longrightarrow> c \<in> set status_colors"
  unfolding statusSteps_def status_colors_def by (drule map_of_SomeD) auto

lemma painted_hex:
  assumes "c \<in> paint (PaletteFor mode) (mark_colors (PaletteFor mode)) \<union> inks (PaletteFor mode)"
  shows "c = [] \<or> hex_colour c"
proof -
  have "c \<in> insert [] (set (palette_colors (PaletteFor mode)))"
    using assms status_in unfolding paint_def mark_colors_def inks_def palette_colors_def ran_def palette_status by auto
  then show ?thesis using palette_hex[of mode] unfolding list_all_iff by blast
qed

subsection \<open>No markup from text\<close>

text \<open>What a reader of the markup makes of character data.\<close>

fun unescape :: "string \<Rightarrow> string" where
  "unescape [] = []"
| "unescape (c # s) =
     (if c \<noteq> CHR ''&'' then c # unescape s
      else if has_prefix s ''amp;'' then CHR ''&'' # unescape (drop 4 s)
      else if has_prefix s ''lt;'' then CHR ''<'' # unescape (drop 3 s)
      else if has_prefix s ''gt;'' then CHR ''>'' # unescape (drop 3 s)
      else if has_prefix s ''quot;'' then CHR 0x22 # unescape (drop 5 s)
      else if has_prefix s ''#39;'' then CHR 0x27 # unescape (drop 4 s)
      else c # unescape s)"

lemma escape_char_cases:
  "escape_char c = ''&amp;'' \<and> c = CHR ''&'' \<or> escape_char c = ''&lt;'' \<and> c = CHR ''<'' \<or> escape_char c = ''&gt;'' \<and> c = CHR ''>''
   \<or> escape_char c = ''&quot;'' \<and> c = CHR 0x22 \<or> escape_char c = ''&#39;'' \<and> c = CHR 0x27
   \<or> escape_char c = [c] \<and> c \<notin> {CHR ''&'', CHR ''<'', CHR ''>'', CHR 0x22, CHR 0x27}"
  by (simp add: escape_char_def)

lemma escape_inert: "set (escapeXML s) \<inter> {CHR ''<'', CHR ''>'', CHR 0x22, CHR 0x27} = {}"
proof -
  have "set (escape_char c) \<inter> {CHR ''<'', CHR ''>'', CHR 0x22, CHR 0x27} = {}" for c
    using escape_char_cases[of c] by (elim disjE conjE) simp_all
  then show ?thesis unfolding escapeXML_def by fastforce
qed

text \<open>C35. Escaped text is inert and loses nothing: the escaped form of any string has no angle bracket and
  no quote, and a reader of the markup gets the string back.\<close>

theorem escapeXML_inverse:
  "unescape (escapeXML s) = s \<and> set (escapeXML s) \<inter> {CHR ''<'', CHR ''>'', CHR 0x22, CHR 0x27} = {}"
proof (intro conjI escape_inert)
  show "unescape (escapeXML s) = s"
  proof (induction s)
    case (Cons c s)
    have "escapeXML (c # s) = escape_char c @ escapeXML s" by (simp add: escapeXML_def)
    then show ?case using escape_char_cases[of c] Cons by (elim disjE conjE) simp_all
  qed (simp add: escapeXML_def)
qed

subsection \<open>Counting tags\<close>

lemma count_list_concat: "count_list (List.concat xss) c = sum_list (List.map (\<lambda>xs. count_list xs c) xss)"
  by (induction xss) simp_all

definition no_angle :: "string \<Rightarrow> bool" where "no_angle s \<longleftrightarrow> CHR ''<'' \<notin> set s \<and> CHR ''>'' \<notin> set s"

lemma no_angle_append [simp]: "no_angle (s @ t) \<longleftrightarrow> no_angle s \<and> no_angle t"
  by (auto simp: no_angle_def)

lemma no_angle_simps [simp]: "no_angle []" "no_angle (c # s) \<longleftrightarrow> c \<noteq> CHR ''<'' \<and> c \<noteq> CHR ''>'' \<and> no_angle s"
  by (auto simp: no_angle_def)

lemma no_angle_count: "no_angle s \<Longrightarrow> count_list s (CHR ''<'') = 0 \<and> count_list s (CHR ''>'') = 0"
  by (simp add: no_angle_def count_list_0_iff)

text \<open>The shortest form of a number is digits, a sign, a point, or one of the three special names.\<close>

definition plain_numbers :: "chart_libs \<Rightarrow> bool" where "plain_numbers L \<longleftrightarrow> (\<forall>v. no_angle (cl_shortest L v))"

lemma num_no_angle [simp]: "plain_numbers L \<Longrightarrow> no_angle (num L v)"
  by (simp add: num_def Let_def plain_numbers_def)

lemma points_no_angle [simp]: "plain_numbers L \<Longrightarrow> no_angle (svgPoints L ps)"
proof -
  have "plain_numbers L \<Longrightarrow> no_angle (svg_more_points L qs)" for qs by (induction qs) simp_all
  then show "plain_numbers L \<Longrightarrow> no_angle (svgPoints L ps)" by (simp add: svgPoints_def split: list.split)
qed

lemma attr_no_angle [simp]: "no_angle (attr n v) \<longleftrightarrow> no_angle n \<and> no_angle v"
  by (simp add: attr_def)

lemma paint_no_angle:
  assumes "plain_numbers L" "no_angle (op_Fill q)" "no_angle (op_Stroke q)" "no_angle (op_RingColor q)"
  shows "no_angle (writeSVGPaint L q)" "no_angle (writeSVGCirclePaint L q)"
  using assms by (simp_all add: writeSVGPaint_def writeSVGCirclePaint_def svg_fill_def)

lemma path_no_angle: "plain_numbers L \<Longrightarrow> no_angle (roundedTopPath L q)"
  by (simp add: roundedTopPath_def Let_def)

text \<open>The tags of an operation.\<close>

definition op_tags :: "Op \<Rightarrow> nat" where
  "op_tags q = (if op_Kind q = OpText then 2 else if op_Kind q \<in> {OpRect, OpPolyline, OpPolygon, OpCircle} then 1 else 0)"

lemma writeSVGOp_tags:
  assumes "plain_numbers L" "no_angle (op_Fill q)" "op_Kind q \<noteq> OpText \<Longrightarrow> no_angle (op_Stroke q) \<and> no_angle (op_RingColor q)"
  shows "count_list (writeSVGOp L M q) (CHR ''<'') = op_tags q \<and> count_list (writeSVGOp L M q) (CHR ''>'') = op_tags q"
proof -
  note c = no_angle_count[OF num_no_angle[OF assms(1)]] no_angle_count[OF points_no_angle[OF assms(1)]]
    no_angle_count[OF path_no_angle[OF assms(1)]]
  have at: "no_angle n \<Longrightarrow> no_angle v \<Longrightarrow> count_list (attr n v) (CHR ''<'') = 0 \<and> count_list (attr n v) (CHR ''>'') = 0" for n v
    using no_angle_count[of "attr n v"] by simp
  consider "op_Kind q = OpText" | "op_Kind q \<noteq> OpText" "op_Kind q \<in> {OpRect, OpPolyline, OpPolygon, OpCircle}"
    | "op_Kind q \<notin> {OpText, OpRect, OpPolyline, OpPolygon, OpCircle}" by blast
  then show ?thesis
  proof cases
    case 1
    have "no_angle (escapeXML (op_Text q))" using escape_inert by (auto simp: no_angle_def)
    then have e: "count_list (escapeXML (op_Text q)) (CHR ''<'') = 0" "count_list (escapeXML (op_Text q)) (CHR ''>'') = 0"
      using no_angle_count by blast+
    then show ?thesis using 1 assms(1,2)
      by (simp add: writeSVGOp_def writeSVGText_def op_tags_def op_kind_defs at split: prod.split)
  next
    case 2
    note p = no_angle_count[OF paint_no_angle(1)] no_angle_count[OF paint_no_angle(2)]
    have "no_angle (op_Stroke q)" "no_angle (op_RingColor q)" using 2(1) assms(3) by simp_all
    then show ?thesis using 2(2) assms(1,2)
      by (auto simp: writeSVGOp_def writeSVGRect_def op_tags_def op_kind_defs at p path_no_angle)
  next
    case 3
    then show ?thesis by (simp add: writeSVGOp_def op_tags_def)
  qed
qed

lemma no_angle_subset: "no_angle t \<Longrightarrow> set s \<subseteq> set t \<Longrightarrow> no_angle s"
  unfolding no_angle_def by blast

lemma hex_no_angle: "c = [] \<or> hex_colour c \<Longrightarrow> no_angle c"
proof -
  have a: "no_angle ''#0123456789abcdef''" by simp
  have "set c \<subseteq> set ''#0123456789abcdef''" if h: "hex_colour c"
  proof (cases c)
    case (Cons x xs)
    then have "x = CHR ''#''" "set xs \<subseteq> set ''0123456789abcdef''"
      using h by (simp_all only: hex_colour_def list.sel list_all_iff) blast
    then show ?thesis unfolding Cons by (simp only: list.set insert_mono subset_insertI2 insert_subset) blast
  qed simp
  then show "c = [] \<or> hex_colour c \<Longrightarrow> no_angle c" using no_angle_subset[OF a] by auto
qed

lemma nat_no_angle [simp]: "no_angle (nat_to_string k)"
proof -
  have "\<not> is_digit CHR ''<''" "\<not> is_digit CHR ''>''" by code_simp+
  then show ?thesis using digits_nat_to_string[of k] unfolding no_angle_def list_all_iff by blast
qed

lemma int_no_angle: "no_angle (int_to_string x)"
  by (simp add: int_to_string_def)

lemma renderSVG_tags:
  assumes "plain_numbers L" "dr_Palette d = PaletteFor mode" "drawing_ok (mark_colors (PaletteFor mode)) d"
  shows "count_list (renderSVG L M d) (CHR ''<'') = 4 + sum_list (List.map op_tags (dr_Ops d))"
    "count_list (renderSVG L M d) (CHR ''>'') = 4 + sum_list (List.map op_tags (dr_Ops d))"
proof -
  have ops: "count_list (writeSVGOp L M q) (CHR ''<'') = op_tags q \<and> count_list (writeSVGOp L M q) (CHR ''>'') = op_tags q"
    if "q \<in> set (dr_Ops d)" for q
  proof -
    have "op_ok (PaletteFor mode) (mark_colors (PaletteFor mode)) q" using assms(2,3) that by (simp add: drawing_ok_def)
    then have "no_angle (op_Fill q) \<and> (op_Kind q \<noteq> OpText \<longrightarrow> no_angle (op_Stroke q) \<and> no_angle (op_RingColor q))"
      using hex_no_angle[OF painted_hex] by (auto simp: op_ok_def split: if_splits)
    then show ?thesis by (intro writeSVGOp_tags assms(1)) auto
  qed
  have sum: "count_list (List.concat (List.map (writeSVGOp L M) (dr_Ops d))) (CHR ''<'') = sum_list (List.map op_tags (dr_Ops d))"
    "count_list (List.concat (List.map (writeSVGOp L M) (dr_Ops d))) (CHR ''>'') = sum_list (List.map op_tags (dr_Ops d))"
    unfolding count_list_concat List.map_map o_def using ops by (auto intro!: arg_cong[where f = sum_list])
  have mode: "no_angle (rp_Mode (PaletteFor mode))" by (simp add: PaletteFor_def ModeLight_def ModeDark_def)
  note n = no_angle_count[OF int_no_angle] no_angle_count[OF mode]
  show "count_list (renderSVG L M d) (CHR ''<'') = 4 + sum_list (List.map op_tags (dr_Ops d))"
    "count_list (renderSVG L M d) (CHR ''>'') = 4 + sum_list (List.map op_tags (dr_Ops d))"
    by (simp_all add: renderSVG_def Let_def attr_def svgFontStack_def sum n assms(2))
qed

subsection \<open>The properties\<close>

text \<open>C9. A chart's text cannot become markup. For every accepted specification (and, for a wind rose, a
  decimal logarithm of the documented accuracy) \<open>SVG\<close> returns, and the angle brackets of its output are
  those the renderer writes itself: two elements around and one per drawn shape, or a pair of tags per
  text, whatever the titles, names, units and labels of the caller contain.\<close>

theorem svg_text_adds_no_markup:
  assumes "Validate_spec (cl_unicode L) (applyDefaults s) = None" "plain_numbers L"
    and "sp_Kind s = KindWindrose \<longrightarrow> decimal_libm L \<and> length (se_Points (hd (pa_Series (hd (sp_Panels s))))) \<le> 2 ^ 53
      \<and> length (wo_SpeedBands (rose_defaults (sp_Windrose s))) < 2 ^ 53"
  shows "\<exists>d out. Render L M now0 now1 s = Some (Inr d) \<and> chart_SVG L M now0 now1 s = Some (Inr out)
    \<and> count_list out (CHR ''<'') = 4 + sum_list (List.map op_tags (dr_Ops d))
    \<and> count_list out (CHR ''>'') = 4 + sum_list (List.map op_tags (dr_Ops d))"
proof -
  obtain d where d: "Render L M now0 now1 s = Some (Inr d)" "dr_Palette d = PaletteFor (sp_Mode (applyDefaults s))"
    "drawing_ok (mark_colors (PaletteFor (sp_Mode (applyDefaults s)))) d"
    using Render_panels[OF assms(1)] Render_rose[OF assms(1) _ _ refl refl] assms(3) by blast
  then show ?thesis using renderSVG_tags[OF assms(2) d(2,3)] by (simp add: chart_SVG_def)
qed

text \<open>A title full of markup.\<close>

definition hostile_spec :: Spec where
  "hostile_spec = demo_spec\<lparr>sp_Title := ''</text><script>alert(1)</script>''\<rparr>"

lemma demo_plain_numbers: "plain_numbers demo_libs"
proof -
  have "no_angle (replicate n CHR ''0'')" for n by (simp add: no_angle_def)
  then have "no_angle (format_fixed 2 v)" for v by (simp add: format_fixed_def decimal_digits_def pad_left_def)
  then show ?thesis by (simp add: plain_numbers_def demo_libs_def plain_libs_def)
qed

lemma hostile_valid: "Validate_spec (cl_unicode demo_libs) (applyDefaults hostile_spec) = None" "sp_Kind hostile_spec \<noteq> KindWindrose"
  by code_simp+

theorem svg_text_adds_no_markup_witness:
  "\<exists>d out. Render demo_libs (\<lambda>_ _ _. None) zero_time zero_time hostile_spec = Some (Inr d)
    \<and> chart_SVG demo_libs (\<lambda>_ _ _. None) zero_time zero_time hostile_spec = Some (Inr out)
    \<and> count_list out (CHR ''<'') = 4 + sum_list (List.map op_tags (dr_Ops d))"
proof -
  have "sp_Kind hostile_spec = KindWindrose \<longrightarrow> decimal_libm demo_libs
      \<and> length (se_Points (hd (pa_Series (hd (sp_Panels hostile_spec))))) \<le> 2 ^ 53
      \<and> length (wo_SpeedBands (rose_defaults (sp_Windrose hostile_spec))) < 2 ^ 53" using hostile_valid(2) by simp
  from svg_text_adds_no_markup[OF hostile_valid(1) demo_plain_numbers this, of "\<lambda>_ _ _. None" zero_time zero_time]
  show ?thesis by (elim exE conjE) (intro exI conjI)
qed

end
