(* ===== verification/ChartRaster.thy ===== *)
theory ChartRaster
  imports ChartSvg
begin

text \<open>
  The raster output (\<open>src/chart/png.go\<close>) as the calls it makes on the drawing context of the \<open>gg\<close> library,
  and the pool of font faces that it draws and the layout measures with (\<open>src/chart/text.go\<close>). The property:
  a face is never in the hands of two owners, and measuring through the pool is a pure function.
\<close>

subsection \<open>Font faces\<close>

text \<open>A face is known by the number of its allocation. The font library is an argument: whether the two
  embedded fonts parse, whether a face of a size and weight can be built, and the advance of a string in
  such a face, in 26.6 fixed point. The sizes are numbers other than \<open>-0\<close>, on which the equality of Go's
  map keys is equality.\<close>

type_synonym face = nat
type_synonym faceKey = "f64 \<times> bool"

record font_library =
  fl_regular :: "string option"              \<comment> \<open>the error of parsing the regular font, if any\<close>
  fl_bold :: "string option"
  fl_face :: "f64 \<Rightarrow> bool \<Rightarrow> string option"    \<comment> \<open>the error of \<open>opentype.NewFace\<close>\<close>
  fl_advance :: "f64 \<Rightarrow> bool \<Rightarrow> string \<Rightarrow> int"   \<comment> \<open>\<open>font.MeasureString\<close>\<close>

record font_state =
  fs_once :: bool
  fs_err :: "string option"
  fs_pool :: "faceKey \<Rightarrow> face list"
  fs_next :: nat
  fs_built :: "face \<Rightarrow> faceKey option"          \<comment> \<open>the options each face was built with\<close>

text \<open>The error of parsing the fonts, the regular one first.\<close>

definition font_error :: "font_library \<Rightarrow> string option" where
  "font_error ft =
     (case fl_regular ft of
        Some e \<Rightarrow> Some (''chart: parse regular font: '' @ e)
      | None \<Rightarrow> map_option (\<lambda>e. ''chart: parse bold font: '' @ e) (fl_bold ft))"

definition loadFonts :: "font_library \<Rightarrow> font_state \<Rightarrow> string option \<times> font_state" where
  "loadFonts ft st =
     (if fs_once st then (fs_err st, st)
      else (font_error ft, st\<lparr>fs_once := True, fs_err := font_error ft\<rparr>))"

text \<open>The first critical section of \<open>acquireFace\<close> takes the last pooled face of the key.\<close>

definition pop_face :: "faceKey \<Rightarrow> font_state \<Rightarrow> (face \<times> font_state) option" where
  "pop_face k st =
     (let pooled = fs_pool st k in
      if pooled = [] then None
      else Some (last pooled, st\<lparr>fs_pool := (fs_pool st)(k := butlast pooled)\<rparr>))"

text \<open>After it, outside the lock, a new face is built. \<open>shown\<close> is the size under \<open>%v\<close>.\<close>

definition build_face :: "font_library \<Rightarrow> (f64 \<Rightarrow> string) \<Rightarrow> faceKey \<Rightarrow> font_state \<Rightarrow> (string + face) \<times> font_state" where
  "build_face ft shown k st =
     (case loadFonts ft st of
        (Some e, st) \<Rightarrow> (Inl e, st)
      | (None, st) \<Rightarrow>
          (case fl_face ft (fst k) (snd k) of
             Some e \<Rightarrow> (Inl (''chart: build '' @ shown (fst k) @ ''px face: '' @ e), st)
           | None \<Rightarrow> (Inr (fs_next st), st\<lparr>fs_next := Suc (fs_next st), fs_built := (fs_built st)(fs_next st \<mapsto> k)\<rparr>)))"

definition acquireFace :: "font_library \<Rightarrow> (f64 \<Rightarrow> string) \<Rightarrow> faceKey \<Rightarrow> font_state \<Rightarrow> (string + face) \<times> font_state" where
  "acquireFace ft shown k st =
     (case pop_face k st of
        Some (f, st) \<Rightarrow> (Inr f, st)
      | None \<Rightarrow> build_face ft shown k st)"

definition releaseFace :: "faceKey \<Rightarrow> face option \<Rightarrow> font_state \<Rightarrow> font_state" where
  "releaseFace k f st =
     (case f of
        None \<Rightarrow> st
      | Some f \<Rightarrow> if length (fs_pool st k) < 8 then st\<lparr>fs_pool := (fs_pool st)(k := fs_pool st k @ [f])\<rparr> else st)"

text \<open>\<open>measureText\<close> with the pool it borrows its face from: a face measures as it was built.\<close>

definition face_advance :: "font_library \<Rightarrow> font_state \<Rightarrow> face \<Rightarrow> string \<Rightarrow> int" where
  "face_advance ft st f s = (case fs_built st f of None \<Rightarrow> 0 | Some (sz, bold) \<Rightarrow> fl_advance ft sz bold s)"

definition measure_pooled :: "font_library \<Rightarrow> (f64 \<Rightarrow> string) \<Rightarrow> string \<Rightarrow> f64 \<Rightarrow> bool \<Rightarrow> font_state \<Rightarrow> f64 \<times> font_state" where
  "measure_pooled ft shown s sz bold st =
     (if s = [] then (Fin 0, st)
      else case acquireFace ft shown (sz, bold) st of
          (Inl e, st) \<Rightarrow> (fmul (fmul (f_of_int (int (length (runes_of s)))) sz) (f_const (6/10)), st)
        | (Inr f, st) \<Rightarrow> (fdiv (f_of_int (face_advance ft st f s)) (Fin 64), releaseFace (sz, bold) (Some f) st))"

text \<open>The width as the layout uses it: a function of the font library alone.\<close>

definition font_metrics :: "font_library \<Rightarrow> metrics" where
  "font_metrics ft s sz bold =
     (if font_error ft = None \<and> fl_face ft sz bold = None then Some (fl_advance ft sz bold s) else None)"

subsection \<open>Calls on the drawing context\<close>

text \<open>The angles of an arc are in degrees: \<open>gg.Radians\<close> is applied to both.\<close>

datatype gg_call =
    NewSubPath
  | MoveTo f64 f64
  | LineTo f64 f64
  | DrawArc f64 f64 f64 int int
  | ClosePath
  | DrawRectangle f64 f64 f64 f64
  | DrawCircle f64 f64 f64
  | SetLineWidth f64
  | SetLineCapRound
  | SetLineJoinRound
  | SetColor NRGBA
  | SetFontFace face
  | FillPath
  | FillPreserve
  | StrokePath
  | ClearPath
  | DrawString string f64 f64

definition path_calls :: "Pt list \<Rightarrow> gg_call list" where
  "path_calls pts = (case pts of [] \<Rightarrow> []
     | p # ps \<Rightarrow> MoveTo (pX p) (pY p) # List.map (\<lambda>p. LineTo (pX p) (pY p)) ps)"

definition fillThenStroke :: "chart_libs \<Rightarrow> Op \<Rightarrow> gg_call list" where
  "fillThenStroke L q =
     (let (stroke, strokeWidth) =
            (if fgt (op_Ring q) (Fin 0) \<and> op_RingColor q \<noteq> [] then (op_RingColor q, op_Ring q)
             else (op_Stroke q, op_StrokeWidth q));
          no_stroke = (stroke = [] \<or> fle strokeWidth (Fin 0));
          strokes = [SetLineWidth strokeWidth, SetColor (parseHex L stroke (Fin 1)), StrokePath]
      in if op_Fill q \<noteq> [] then
           SetColor (parseHex L (op_Fill q) (op_alpha q)) # (if no_stroke then [FillPath] else FillPreserve # strokes)
         else if no_stroke then [ClearPath]
         else strokes)"

definition rounded_outline :: "Op \<Rightarrow> gg_call list" where
  "rounded_outline q =
     (let x = op_X q; y = op_Y q; w = op_W q; h = op_H q; r = op_Radius q in
      [NewSubPath, MoveTo x (fadd y r), DrawArc (fadd x r) (fadd y r) r 180 270, LineTo (fsub (fadd x w) r) y,
       DrawArc (fsub (fadd x w) r) (fadd y r) r 270 360, LineTo (fadd x w) (fadd y h), LineTo x (fadd y h), ClosePath])"

definition drawPNGRect :: "chart_libs \<Rightarrow> Op \<Rightarrow> gg_call list" where
  "drawPNGRect L q =
     (if fle (op_Radius q) (Fin 0) then DrawRectangle (op_X q) (op_Y q) (op_W q) (op_H q) # fillThenStroke L q
      else rounded_outline q @ fillThenStroke L q)"

text \<open>What the raster renderer gets from outside: the libraries of a drawing, the fonts, and the PNG
  encoder, which makes an image of a canvas size and the calls on it.\<close>

record raster_libs =
  rl_libs :: chart_libs
  rl_fonts :: font_library
  rl_shown :: "f64 \<Rightarrow> string"
  rl_encode :: "int \<Rightarrow> int \<Rightarrow> gg_call list \<Rightarrow> string + string"

definition origin_pooled :: "raster_libs \<Rightarrow> Op \<Rightarrow> font_state \<Rightarrow> (f64 \<times> f64) \<times> font_state" where
  "origin_pooled R q st =
     (let (x, st) =
        (if feq (op_AnchorX q) (Fin 0) then (op_X q, st)
         else case measure_pooled (rl_fonts R) (rl_shown R) (op_Text q) (op_Size q) (op_Bold q) st of
             (w, st) \<Rightarrow> (fsub (op_X q) (fmul (op_AnchorX q) w), st))
      in ((x, fadd (op_Y q) (fmul (fsub (Fin 1) (op_AnchorY q)) (textHeight (op_Size q)))), st))"

text \<open>The face is released when the function returns; its text may be measured while it is held.\<close>

definition drawPNGText :: "raster_libs \<Rightarrow> Op \<Rightarrow> font_state \<Rightarrow> (string + gg_call list) \<times> font_state" where
  "drawPNGText R q st =
     (let k = (op_Size q, op_Bold q) in
      case acquireFace (rl_fonts R) (rl_shown R) k st of
        (Inl e, st) \<Rightarrow> (Inl e, st)
      | (Inr f, st) \<Rightarrow>
          (case origin_pooled R q st of
             ((x, y), st) \<Rightarrow>
               (Inr [SetFontFace f, SetColor (parseHex (rl_libs R) (op_Fill q) (op_alpha q)), DrawString (op_Text q) x y],
                releaseFace k (Some f) st)))"

definition drawPNGOp :: "raster_libs \<Rightarrow> Op \<Rightarrow> font_state \<Rightarrow> (string + gg_call list) \<times> font_state" where
  "drawPNGOp R q st =
     (let L = rl_libs R in
      if op_Kind q = OpRect then (Inr (drawPNGRect L q), st)
      else if op_Kind q = OpPolyline then
        (Inr (NewSubPath # path_calls (op_Points q)
           @ [SetLineWidth (op_StrokeWidth q), SetLineCapRound, SetLineJoinRound, SetColor (parseHex L (op_Stroke q) (Fin 1)), StrokePath]), st)
      else if op_Kind q = OpPolygon then (Inr (NewSubPath # path_calls (op_Points q) @ ClosePath # fillThenStroke L q), st)
      else if op_Kind q = OpCircle then (Inr (DrawCircle (op_X q) (op_Y q) (op_Radius q) # fillThenStroke L q), st)
      else if op_Kind q = OpText then drawPNGText R q st
      else (Inr [], st))"

fun draw_ops :: "raster_libs \<Rightarrow> Op list \<Rightarrow> font_state \<Rightarrow> (string + gg_call list) \<times> font_state" where
  "draw_ops R [] st = (Inr [], st)"
| "draw_ops R (q # qs) st =
     (case drawPNGOp R q st of
        (Inl e, st) \<Rightarrow> (Inl e, st)
      | (Inr cs, st) \<Rightarrow> (case draw_ops R qs st of (r, st) \<Rightarrow> (map_sum id ((@) cs) r, st)))"

definition renderPNG :: "raster_libs \<Rightarrow> Drawing \<Rightarrow> font_state \<Rightarrow> (string + string) \<times> font_state" where
  "renderPNG R d st =
     (case draw_ops R (dr_Ops d) st of
        (Inl e, st) \<Rightarrow> (Inl e, st)
      | (Inr cs, st) \<Rightarrow> (map_err (\<lambda>e. ''chart: encode png: '' @ e) (rl_encode R (dr_Width d) (dr_Height d) cs), st))"

subsection \<open>Lending faces\<close>

text \<open>Owners acquire and release faces in any order. The pool is only touched under the lock, so that an
  acquisition from the pool is one step; a new face is built outside it, whatever the pool holds by then.
  An owner releases a face under the key it acquired it with.\<close>

definition no_faces :: font_state where
  "no_faces = \<lparr>fs_once = False, fs_err = None, fs_pool = (\<lambda>_. []), fs_next = 0, fs_built = Map.empty\<rparr>"

inductive lending :: "font_library \<Rightarrow> (f64 \<Rightarrow> string) \<Rightarrow> font_state \<Rightarrow> (face \<times> faceKey) list \<Rightarrow> bool" for ft shown where
  start: "lending ft shown no_faces []"
| pooled: "lending ft shown st lent \<Longrightarrow> pop_face k st = Some (f, st') \<Longrightarrow> lending ft shown st' ((f, k) # lent)"
| built: "lending ft shown st lent \<Longrightarrow> build_face ft shown k st = (Inr f, st') \<Longrightarrow> lending ft shown st' ((f, k) # lent)"
| failed: "lending ft shown st lent \<Longrightarrow> build_face ft shown k st = (Inl e, st') \<Longrightarrow> lending ft shown st' lent"
| released: "lending ft shown st (us @ (f, k) # vs) \<Longrightarrow> lending ft shown (releaseFace k (Some f) st) (us @ vs)"

lemma acquire_lends:
  assumes "lending ft shown st lent"
  shows "acquireFace ft shown k st = (Inr f, st') \<Longrightarrow> lending ft shown st' ((f, k) # lent)"
    "acquireFace ft shown k st = (Inl e, st') \<Longrightarrow> lending ft shown st' lent"
  using assms by (auto simp: acquireFace_def intro: pooled built failed split: option.splits)

lemma release_lends: "lending ft shown st ((f, k) # lent) \<Longrightarrow> lending ft shown (releaseFace k (Some f) st) lent"
  using released[of ft shown st "[]" f k lent] by simp

definition faces_ok :: "font_library \<Rightarrow> font_state \<Rightarrow> (face \<times> faceKey) list \<Rightarrow> bool" where
  "faces_ok ft st lent \<longleftrightarrow> distinct (List.map fst lent)
     \<and> (\<forall>k. distinct (fs_pool st k)) \<and> (\<forall>k. length (fs_pool st k) \<le> 8)
     \<and> (\<forall>f k. f \<in> set (fs_pool st k) \<longrightarrow> f \<notin> fst ` set lent)
     \<and> (\<forall>f k. f \<in> set (fs_pool st k) \<longrightarrow> fs_built st f = Some k)
     \<and> (\<forall>f k. (f, k) \<in> set lent \<longrightarrow> fs_built st f = Some k)
     \<and> (\<forall>f k. fs_built st f = Some k \<longrightarrow> f < fs_next st)
     \<and> (\<forall>f k. fs_built st f = Some k \<longrightarrow> font_error ft = None \<and> fl_face ft (fst k) (snd k) = None)
     \<and> (fs_once st \<longrightarrow> fs_err st = font_error ft)"

lemma faces_okI:
  assumes "distinct (List.map fst lent)" "\<And>k. distinct (fs_pool st k)" "\<And>k. length (fs_pool st k) \<le> 8"
    and "\<And>f k. f \<in> set (fs_pool st k) \<Longrightarrow> f \<notin> fst ` set lent" "\<And>f k. f \<in> set (fs_pool st k) \<Longrightarrow> fs_built st f = Some k"
    and "\<And>f k. (f, k) \<in> set lent \<Longrightarrow> fs_built st f = Some k" "\<And>f k. fs_built st f = Some k \<Longrightarrow> f < fs_next st"
    and "\<And>f k. fs_built st f = Some k \<Longrightarrow> font_error ft = None \<and> fl_face ft (fst k) (snd k) = None"
    and "fs_once st \<Longrightarrow> fs_err st = font_error ft"
  shows "faces_ok ft st lent"
  using assms unfolding faces_ok_def by simp

lemma faces_okD:
  assumes "faces_ok ft st lent"
  shows "distinct (List.map fst lent)" "distinct (fs_pool st k)" "length (fs_pool st k) \<le> 8"
    "f \<in> set (fs_pool st k) \<Longrightarrow> f \<notin> fst ` set lent" "f \<in> set (fs_pool st k) \<Longrightarrow> fs_built st f = Some k"
    "(f, k) \<in> set lent \<Longrightarrow> fs_built st f = Some k" "fs_built st f = Some k \<Longrightarrow> f < fs_next st"
    "fs_built st f = Some k \<Longrightarrow> font_error ft = None \<and> fl_face ft (fst k) (snd k) = None"
    "fs_once st \<Longrightarrow> fs_err st = font_error ft"
proof -
  note c = assms[unfolded faces_ok_def]
  note c1 = c[THEN conjunct1] and d1 = c[THEN conjunct2]
  note c2 = d1[THEN conjunct1] and d2 = d1[THEN conjunct2]
  note c3 = d2[THEN conjunct1] and d3 = d2[THEN conjunct2]
  note c4 = d3[THEN conjunct1] and d4 = d3[THEN conjunct2]
  note c5 = d4[THEN conjunct1] and d5 = d4[THEN conjunct2]
  note c6 = d5[THEN conjunct1] and d6 = d5[THEN conjunct2]
  note c7 = d6[THEN conjunct1] and d7 = d6[THEN conjunct2]
  note cs = c1 c2 c3 c4 c5 c6 c7 d7[THEN conjunct1] d7[THEN conjunct2]
  show "distinct (List.map fst lent)" "distinct (fs_pool st k)" "length (fs_pool st k) \<le> 8"
    "f \<in> set (fs_pool st k) \<Longrightarrow> f \<notin> fst ` set lent" "f \<in> set (fs_pool st k) \<Longrightarrow> fs_built st f = Some k"
    "(f, k) \<in> set lent \<Longrightarrow> fs_built st f = Some k" "fs_built st f = Some k \<Longrightarrow> f < fs_next st"
    "fs_built st f = Some k \<Longrightarrow> font_error ft = None \<and> fl_face ft (fst k) (snd k) = None"
    "fs_once st \<Longrightarrow> fs_err st = font_error ft"
    by (rule cs cs[rule_format]; assumption?)+
qed

lemma faces_ok_pop:
  assumes ok: "faces_ok ft st lent" and pop: "pop_face k st = Some (f, st')"
  shows "faces_ok ft st' ((f, k) # lent)"
proof -
  note D = faces_okD[OF ok]
  have st': "st' = st\<lparr>fs_pool := (fs_pool st)(k := butlast (fs_pool st k))\<rparr>" and f: "f = last (fs_pool st k)" "fs_pool st k \<noteq> []"
    using pop by (auto simp: pop_face_def Let_def split: if_splits)
  then have pool: "fs_pool st k = butlast (fs_pool st k) @ [f]" by simp
  have "distinct (butlast (fs_pool st k) @ [f])" using D(2)[of k] pool by simp
  then have out: "f \<notin> set (butlast (fs_pool st k))" "distinct (butlast (fs_pool st k))" by simp_all
  have f_in: "f \<in> set (fs_pool st k)" using f by simp
  have other: "f \<notin> set (fs_pool st k')" if "k' \<noteq> k" for k' using D(5)[OF f_in] D(5)[of f k'] that by auto
  have pool': "g \<in> set (fs_pool st' k') \<Longrightarrow> g \<in> set (fs_pool st k') \<and> g \<noteq> f" for g k'
    using out(1) other[of k'] by (cases "k' = k") (auto simp: st' dest: in_set_butlastD)
  show ?thesis
  proof (rule faces_okI)
    show "distinct (List.map fst ((f, k) # lent))" using D(1) D(4)[OF f_in] by simp
    show "distinct (fs_pool st' k')" for k' using D(2) out(2) by (simp add: st')
    show "length (fs_pool st' k') \<le> 8" for k' using D(3)[of k] D(3)[of k'] by (cases "k' = k") (simp_all add: st')
    show "g \<notin> fst ` set ((f, k) # lent)" if "g \<in> set (fs_pool st' k')" for g k' using D(4)[of g k'] pool'[OF that] by simp
    show "fs_built st' g = Some k'" if "g \<in> set (fs_pool st' k')" for g k' using D(5) pool'[OF that] by (auto simp: st')
    show "fs_built st' g = Some k'" if "(g, k') \<in> set ((f, k) # lent)" for g k' using D(5)[OF f_in] D(6)[of g k'] that by (auto simp: st')
  qed (use D(7-9) in \<open>simp_all add: st'\<close>)
qed

lemma build_face_cases:
  assumes "faces_ok ft st lent" "build_face ft shown k st = (r, st')"
  shows "faces_ok ft st' lent \<and> (\<exists>e. r = Inl e) \<and> \<not> (font_error ft = None \<and> fl_face ft (fst k) (snd k) = None)
     \<or> r = Inr (fs_next st) \<and> font_error ft = None \<and> fl_face ft (fst k) (snd k) = None \<and> faces_ok ft st' ((fs_next st, k) # lent)"
proof -
  have err: "\<exists>st1. loadFonts ft st = (font_error ft, st1) \<and> faces_ok ft st1 lent \<and> fs_next st1 = fs_next st"
    using assms(1) by (simp add: loadFonts_def faces_ok_def)
  then obtain st1 where st1: "loadFonts ft st = (font_error ft, st1)" "faces_ok ft st1 lent" "fs_next st1 = fs_next st" by blast
  note D = faces_okD[OF st1(2)]
  have fresh: "fs_built st1 (fs_next st) = None" using D(7)[of "fs_next st"] st1(3) by (cases "fs_built st1 (fs_next st)") auto
  have "faces_ok ft (st1\<lparr>fs_next := Suc (fs_next st1), fs_built := (fs_built st1)(fs_next st1 \<mapsto> k)\<rparr>) ((fs_next st, k) # lent)"
    if new: "font_error ft = None" "fl_face ft (fst k) (snd k) = None"
  proof (rule faces_okI)
    show "distinct (List.map fst ((fs_next st, k) # lent))" using D(1,6) fresh by force
    show "g \<notin> fst ` set ((fs_next st, k) # lent)"
      if "g \<in> set (fs_pool (st1\<lparr>fs_next := Suc (fs_next st1), fs_built := (fs_built st1)(fs_next st1 \<mapsto> k)\<rparr>) k')" for g k'
      using D(4,5)[of g k'] that fresh by auto
  qed (use D(2,3,5-9) fresh new st1(3) in \<open>auto simp: less_Suc_eq split: if_splits\<close>)
  then show ?thesis using assms(2) st1 by (auto simp: build_face_def split: option.splits)
qed

lemma faces_ok_release:
  assumes ok: "faces_ok ft st (us @ (f, k) # vs)"
  shows "faces_ok ft (releaseFace k (Some f) st) (us @ vs)"
proof -
  note D = faces_okD[OF ok]
  have f: "f \<notin> fst ` set (us @ vs)" "fs_built st f = Some k" using D(1) D(6)[of f k] by auto
  have out: "f \<notin> set (fs_pool st k')" for k' using D(4)[of f k'] by auto
  have pool: "g \<in> set (fs_pool (releaseFace k (Some f) st) k') \<Longrightarrow> g \<in> set (fs_pool st k') \<or> g = f \<and> k' = k" for g k'
    by (auto simp: releaseFace_def split: if_splits)
  have fields: "fs_built (releaseFace k (Some f) st) = fs_built st" "fs_next (releaseFace k (Some f) st) = fs_next st"
    "fs_once (releaseFace k (Some f) st) = fs_once st" "fs_err (releaseFace k (Some f) st) = fs_err st"
    by (simp_all add: releaseFace_def)
  show ?thesis
  proof (rule faces_okI)
    show "distinct (List.map fst (us @ vs))" using D(1) by auto
    show "distinct (fs_pool (releaseFace k (Some f) st) k')" for k' using D(2) out by (simp add: releaseFace_def)
    show "length (fs_pool (releaseFace k (Some f) st) k') \<le> 8" for k' using D(3) by (simp add: releaseFace_def)
    show "g \<notin> fst ` set (us @ vs)" if "g \<in> set (fs_pool (releaseFace k (Some f) st) k')" for g k'
      using D(4)[of g k'] f(1) pool[OF that] by auto
    show "fs_built (releaseFace k (Some f) st) g = Some k'" if "g \<in> set (fs_pool (releaseFace k (Some f) st) k')" for g k'
      using D(5)[of g k'] f(2) pool[OF that] by (auto simp: fields)
    show "fs_built (releaseFace k (Some f) st) g = Some k'" if "(g, k') \<in> set (us @ vs)" for g k'
      using D(6)[of g k'] that by (auto simp: fields)
  qed (use D(7-9) in \<open>simp_all add: fields\<close>)
qed

lemma lending_ok: "lending ft shown st lent \<Longrightarrow> faces_ok ft st lent"
proof (induction rule: lending.induct)
  case start
  then show ?case by (simp add: faces_ok_def no_faces_def)
next
  case (built st lent k f st')
  then show ?case using build_face_cases[OF built.IH built.hyps(2)] by auto
next
  case (failed st lent k e st')
  then show ?case using build_face_cases[OF failed.IH failed.hyps(2)] by auto
qed (auto intro: faces_ok_pop faces_ok_release)

subsection \<open>Borrowers\<close>

lemma acquire_cases:
  assumes "faces_ok ft st lent"
  obtains (failed) e st' where "acquireFace ft shown k st = (Inl e, st')" "\<not> (font_error ft = None \<and> fl_face ft (fst k) (snd k) = None)"
  | (lent) f st' where "acquireFace ft shown k st = (Inr f, st')" "font_error ft = None" "fl_face ft (fst k) (snd k) = None"
proof (cases "pop_face k st")
  case None
  obtain r st' where r: "build_face ft shown k st = (r, st')" by fastforce
  then show thesis using build_face_cases[OF assms r] None failed lent by (auto simp: acquireFace_def)
next
  case (Some p)
  obtain f st' where p: "p = (f, st')" by fastforce
  have "fs_built st' f = Some k" using faces_okD(6)[OF faces_ok_pop[OF assms Some[unfolded p]], of f k] by simp
  then show thesis
    using faces_okD(8)[OF faces_ok_pop[OF assms Some[unfolded p]], of f k] Some p lent by (auto simp: acquireFace_def)
qed

text \<open>Measuring borrows a face and gives it back; its result depends on no pool.\<close>

lemma measure_pooled_ok:
  assumes "lending ft shown st lent"
  shows "\<exists>st'. measure_pooled ft shown s sz bold st = (measureText (font_metrics ft) s sz bold, st') \<and> lending ft shown st' lent"
proof (cases "s = []")
  case False
  from lending_ok[OF assms] show ?thesis
  proof (cases rule: acquire_cases[of ft st lent shown "(sz, bold)"])
    case (failed e st')
    then show ?thesis using False acquire_lends(2)[OF assms failed(1)]
      by (auto simp: measure_pooled_def measureText_def font_metrics_def)
  next
    case (lent f st')
    note l = acquire_lends(1)[OF assms lent(1)]
    have "fs_built st' f = Some (sz, bold)" using faces_okD(6)[OF lending_ok[OF l], of f "(sz, bold)"] by simp
    then show ?thesis using False lent release_lends[OF l]
      by (simp add: measure_pooled_def measureText_def font_metrics_def face_advance_def)
  qed
qed (use assms in \<open>simp add: measure_pooled_def measureText_def\<close>)

lemma origin_pooled_ok:
  assumes "lending (rl_fonts R) (rl_shown R) st lent"
  shows "\<exists>st'. origin_pooled R q st = (textOrigin (font_metrics (rl_fonts R)) q, st') \<and> lending (rl_fonts R) (rl_shown R) st' lent"
  using measure_pooled_ok[OF assms, of "op_Text q" "op_Size q" "op_Bold q"] assms
  by (auto simp: origin_pooled_def textOrigin_def Let_def)

lemma drawPNGOp_lends:
  assumes "lending (rl_fonts R) (rl_shown R) st lent"
  shows "\<exists>r st'. drawPNGOp R q st = (r, st') \<and> lending (rl_fonts R) (rl_shown R) st' lent"
proof (cases "op_Kind q = OpText")
  case True
  then have q: "drawPNGOp R q st = drawPNGText R q st" by (simp add: drawPNGOp_def op_kind_defs Let_def)
  obtain r st1 where a: "acquireFace (rl_fonts R) (rl_shown R) (op_Size q, op_Bold q) st = (r, st1)" by fastforce
  show ?thesis
  proof (cases r)
    case (Inl e)
    then show ?thesis using a q acquire_lends(2)[OF assms] by (auto simp: drawPNGText_def)
  next
    case (Inr f)
    note l = acquire_lends(1)[OF assms a[unfolded Inr]]
    obtain st2 where "origin_pooled R q st1 = (textOrigin (font_metrics (rl_fonts R)) q, st2)"
      "lending (rl_fonts R) (rl_shown R) st2 ((f, (op_Size q, op_Bold q)) # lent)" using origin_pooled_ok[OF l] by blast
    then show ?thesis using a q Inr release_lends by (auto simp: drawPNGText_def split: prod.split)
  qed
qed (use assms in \<open>auto simp: drawPNGOp_def Let_def\<close>)

lemma draw_ops_lends:
  assumes "lending (rl_fonts R) (rl_shown R) st lent"
  shows "\<exists>r st'. draw_ops R qs st = (r, st') \<and> lending (rl_fonts R) (rl_shown R) st' lent"
  using assms
proof (induction qs arbitrary: st)
  case (Cons q qs)
  obtain r st1 where o1: "drawPNGOp R q st = (r, st1)" "lending (rl_fonts R) (rl_shown R) st1 lent"
    using drawPNGOp_lends[OF Cons.prems] by blast
  obtain r2 st2 where "draw_ops R qs st1 = (r2, st2)" "lending (rl_fonts R) (rl_shown R) st2 lent" using Cons.IH[OF o1(2)] by blast
  then show ?case using o1 by (cases r) auto
qed auto

text \<open>C40. A font face is never in the hands of two owners. However renderers and measurements acquire and
  release faces of the shared pool, whichever calls fail: no face is lent twice, none that is lent is in the
  pool, none is in it twice, and every face that is lent or pooled was built for the size and weight it
  is filed under, at most eight pooled for each. Measuring a text through the pool therefore returns the
  width that the layout uses, a function of the font library alone, and both a measurement and a whole
  rendering, failed or not, give back every face they took and none of another owner.\<close>

theorem faces_never_shared:
  assumes "lending ft shown st lent" "rl_fonts R = ft" "rl_shown R = shown"
  shows "distinct (List.map fst lent)
    \<and> (\<forall>k. distinct (fs_pool st k) \<and> length (fs_pool st k) \<le> 8 \<and> set (fs_pool st k) \<inter> fst ` set lent = {}
         \<and> (\<forall>f\<in>set (fs_pool st k). fs_built st f = Some k))
    \<and> (\<forall>(f, k)\<in>set lent. fs_built st f = Some k)
    \<and> (\<forall>s sz bold. \<exists>st'. measure_pooled ft shown s sz bold st = (measureText (font_metrics ft) s sz bold, st')
         \<and> lending ft shown st' lent)
    \<and> (\<forall>d. \<exists>r st'. renderPNG R d st = (r, st') \<and> lending ft shown st' lent)"
proof -
  note D = faces_okD[OF lending_ok[OF assms(1)]]
  have "distinct (fs_pool st k) \<and> length (fs_pool st k) \<le> 8 \<and> set (fs_pool st k) \<inter> fst ` set lent = {}
      \<and> (\<forall>f\<in>set (fs_pool st k). fs_built st f = Some k)" for k
    using D(2,3) D(4)[of _ k] D(5)[of _ k] by blast
  moreover have "\<forall>(f, k)\<in>set lent. fs_built st f = Some k" using D(6) by blast
  moreover have "\<exists>r st'. renderPNG R d st = (r, st') \<and> lending ft shown st' lent" for d
  proof -
    obtain r st' where "draw_ops R (dr_Ops d) st = (r, st')" "lending ft shown st' lent"
      using draw_ops_lends[of R st lent "dr_Ops d"] assms by blast
    then show ?thesis by (cases r) (simp_all add: renderPNG_def)
  qed
  ultimately show ?thesis using D(1) measure_pooled_ok[OF assms(1)] by blast
qed

text \<open>Fonts that parse, faces that can be built, half an em for every character, and an encoder that writes
  the width. Two owners hold a face of eleven pixels; one has given its face back.\<close>

definition demo_fonts :: font_library where
  "demo_fonts = \<lparr>fl_regular = None, fl_bold = None, fl_face = (\<lambda>_ _. None), fl_advance = (\<lambda>_ _ s. 352 * int (length s))\<rparr>"

definition demo_raster :: raster_libs where
  "demo_raster = \<lparr>rl_libs = demo_libs, rl_fonts = demo_fonts, rl_shown = (\<lambda>_. ''11''), rl_encode = (\<lambda>w h cs. Inr (int_to_string w))\<rparr>"

definition axis_face :: faceKey where "axis_face = (sizeAxis, False)"

definition one_borrowed :: font_state where
  "one_borrowed = releaseFace axis_face (Some 0)
     (snd (build_face demo_fonts (\<lambda>_. ''11'') axis_face (snd (build_face demo_fonts (\<lambda>_. ''11'') axis_face no_faces))))"

lemma one_borrowed_lending: "lending demo_fonts (\<lambda>_. ''11'') one_borrowed [(1, axis_face)]"
proof -
  define st1 where "st1 = snd (build_face demo_fonts (\<lambda>_. ''11'') axis_face no_faces)"
  define st2 where "st2 = snd (build_face demo_fonts (\<lambda>_. ''11'') axis_face st1)"
  have b: "build_face demo_fonts (\<lambda>_. ''11'') axis_face no_faces = (Inr 0, st1)"
    "build_face demo_fonts (\<lambda>_. ''11'') axis_face st1 = (Inr 1, st2)"
    by (simp_all add: st2_def st1_def build_face_def loadFonts_def font_error_def demo_fonts_def no_faces_def)
  have "lending demo_fonts (\<lambda>_. ''11'') st2 ([(1, axis_face)] @ (0, axis_face) # [])"
    using built[OF built[OF start b(1)] b(2)] by simp
  from released[OF this] show ?thesis by (simp add: one_borrowed_def st2_def st1_def)
qed

definition wind_text :: Drawing where
  "wind_text = draw_text ''wind'' (Fin 10) (Fin 20) sizeAxis False ''#123456'' (Fin 1) (Fin 0)
     \<lparr>dr_Width = 100, dr_Height = 50, dr_Palette = PaletteFor ModeLight, dr_Ops = []\<rparr>"

theorem faces_never_shared_witness:
  "fs_pool one_borrowed axis_face = [0] \<and> set (fs_pool one_borrowed axis_face) \<inter> {1} = {}
   \<and> (\<exists>st'. measure_pooled demo_fonts (\<lambda>_. ''11'') ''wind'' sizeAxis False one_borrowed = (Fin 22, st')
        \<and> lending demo_fonts (\<lambda>_. ''11'') st' [(1, axis_face)])
   \<and> (\<exists>r st'. renderPNG demo_raster wind_text one_borrowed = (r, st') \<and> lending demo_fonts (\<lambda>_. ''11'') st' [(1, axis_face)])"
proof -
  have R: "rl_fonts demo_raster = demo_fonts" "rl_shown demo_raster = (\<lambda>_. ''11'')" by (simp_all add: demo_raster_def)
  have p: "fs_pool one_borrowed axis_face = [0]" by code_simp
  have m: "measureText (font_metrics demo_fonts) ''wind'' sizeAxis False = Fin 22" by code_simp
  from faces_never_shared[OF one_borrowed_lending R] show ?thesis
    unfolding m[symmetric] p by simp
qed

end
