(* ===== verification/ChartSamples.thy ===== *)
theory ChartSamples
  imports ChartResolved
begin

text \<open>
  Charts of reading rows (\<open>FromSamples\<close> of \<open>src/chart/chart.go\<close>): which rows and parameters make a
  specification that \<open>Validate\<close> accepts, and which points are plotted.
\<close>

lemma ParameterLabel_nonempty: "ParameterLabel U param = [] \<longleftrightarrow> param = []"
proof (cases "Parameter U param")
  case (Some d)
  then have "param \<noteq> []" by (auto simp: Parameter_def to_lower_def trim_space_def Let_def split: if_splits)
  then show ?thesis using Parameter_entry[OF Some] by (simp add: ParameterLabel_def Some)
qed (simp add: ParameterLabel_def)

definition sample_series :: "unicode \<Rightarrow> Sample list \<Rightarrow> string \<Rightarrow> Series" where
  "sample_series U samples param =
     SeriesOf U (ParameterLabel U param) param (List.map (sample_point param) (sort_key (\<lambda>row. t_ns (sm_Time row)) samples))"

lemma sample_series_fields [simp]:
  "se_Name (sample_series U samples param) = ParameterLabel U param" "se_Parameter (sample_series U samples param) = param"
  "se_Mark (sample_series U samples param) = []" "se_Slot (sample_series U samples param) = 0"
  "se_Unit (sample_series U samples param) = []"
  "se_Points (sample_series U samples param) = List.map (sample_point param) (sort_key (\<lambda>row. t_ns (sm_Time row)) samples)"
  by (simp_all add: sample_series_def SeriesOf_def)

lemma FromSamples_kinds:
  "FromSamples U KindTimeSeries title samples params = TimeSeries title (List.map (sample_series U samples) params)"
  "FromSamples U KindMeteogram title samples params = Meteogram title (List.map (\<lambda>ser. PanelOf [ser]) (List.map (sample_series U samples) params))"
  unfolding FromSamples_def Let_def sample_series_def by (simp_all add: kind_defs)

lemma FromSamples_series:
  assumes "kind \<in> {KindTimeSeries, KindMeteogram}"
  shows "List.concat (List.map pa_Series (sp_Panels (FromSamples U kind title samples params))) = List.map (sample_series U samples) params"
  using assms by (auto simp: FromSamples_kinds Meteogram_def TimeSeries_def new_spec_def new_panel_def PanelOf_def o_def)

text \<open>The readings of a row for the given parameters can be plotted.\<close>

definition row_ok :: "string list \<Rightarrow> Sample \<Rightarrow> bool" where
  "row_ok params row \<longleftrightarrow> t_ns (sm_Time row) \<noteq> t_ns zero_time \<and> (\<forall>param\<in>set params. \<not> not_finite_ptr (sm_Values row param))"

lemma sample_series_ok:
  "series_ok (sample_series U samples param) \<longleftrightarrow> param \<noteq> [] \<and>
     (\<forall>row\<in>set samples. t_ns (sm_Time row) \<noteq> t_ns zero_time \<and> \<not> not_finite_ptr (sm_Values row param))"
proof -
  have "points_sorted (se_Points (sample_series U samples param))"
    by (simp add: points_sorted_def o_def sample_point_def)
  then show ?thesis
    by (auto simp: series_ok_def point_ok_def sample_point_def ParameterLabel_nonempty MarkBand_def not_finite_ptr_def split: option.splits)
qed

lemma sample_panel_ok:
  "panel_ok U (new_panel title (List.map (sample_series U samples) params)) \<longleftrightarrow>
     params \<noteq> [] \<and> (\<forall>param\<in>set params. series_ok (sample_series U samples param)) \<and> one_unit U (List.map (sample_series U samples) params)"
  by (auto simp: panel_ok_def new_panel_def)

text \<open>The unit of a parameter in the registry.\<close>

definition registry_unit :: "unicode \<Rightarrow> string \<Rightarrow> string" where
  "registry_unit U param = (case Parameter U param of Some d \<Rightarrow> pd_Unit d | None \<Rightarrow> [])"

lemma sample_one_unit:
  "one_unit U (List.map (sample_series U samples) params) \<longleftrightarrow> (\<forall>a\<in>set params. \<forall>b\<in>set params. registry_unit U a = registry_unit U b)"
proof -
  have u: "EffectiveUnit U (sample_series U samples param) = registry_unit U param" for param
    by (simp add: EffectiveUnit_def registry_unit_def)
  show ?thesis unfolding one_unit_def by (cases params) (auto simp: u)
qed

lemma FromSamples_fields:
  assumes "kind \<in> {KindTimeSeries, KindMeteogram}"
  shows "sp_Kind (FromSamples U kind title samples params) = kind"
    "sp_Mode (FromSamples U kind title samples params) = []" "sp_Width (FromSamples U kind title samples params) = 0"
    "sp_Height (FromSamples U kind title samples params) = 0"
  using assms by (auto simp: FromSamples_kinds Meteogram_def TimeSeries_def new_spec_def)

lemma FromSamples_panels:
  "sp_Panels (FromSamples U KindMeteogram title samples params) = List.map (\<lambda>param. PanelOf [sample_series U samples param]) params"
  "\<exists>t. sp_Panels (FromSamples U KindTimeSeries title samples params) = [new_panel t (List.map (sample_series U samples) params)]"
  by (simp add: FromSamples_kinds Meteogram_def new_spec_def o_def)
    (simp only: FromSamples_kinds TimeSeries_def new_spec_def Spec.select_convs, rule exI, rule refl)

text \<open>C33. Rows of readings can be charted in any order. A time series or meteogram of rows passes
  \<open>Validate\<close> exactly when there are one to eight parameters, each named, with one unit in the registry if
  they share a panel, no row is without a time and no plotted reading is NaN or infinite; the order of
  the rows does not matter. It plots the parameters in the order given, and the points of each are the
  rows sorted by time, rows of the same time in their order, with a gap where the reading is missing.\<close>

theorem FromSamples_accepted:
  assumes "kind \<in> {KindTimeSeries, KindMeteogram}"
  shows "(Validate_spec U (FromSamples U kind title samples params) = None \<longleftrightarrow>
        params \<noteq> [] \<and> length params \<le> 8 \<and> [] \<notin> set params \<and> (\<forall>row\<in>set samples. row_ok params row)
        \<and> (kind = KindTimeSeries \<longrightarrow> (\<forall>a\<in>set params. \<forall>b\<in>set params. registry_unit U a = registry_unit U b)))
    \<and> list_all2 (\<lambda>ser param. se_Parameter ser = param \<and> points_sorted (se_Points ser)
          \<and> (\<forall>t. filter (\<lambda>pt. t_ns (pt_Time pt) = t) (se_Points ser)
               = List.map (sample_point param) (filter (\<lambda>row. t_ns (sm_Time row) = t) samples)))
        (List.concat (List.map pa_Series (sp_Panels (FromSamples U kind title samples params)))) params"
proof -
  let ?s = "FromSamples U kind title samples params"
  note f = FromSamples_fields[OF assms, of U title samples params]
  have total: "total_series (sp_Panels ?s) = length params"
    using arg_cong[OF FromSamples_series[OF assms, of U title samples params], of length]
    by (simp add: total_series_def length_concat o_def)
  have series: "(\<forall>param\<in>set params. series_ok (sample_series U samples param)) \<longleftrightarrow> params = [] \<or> [] \<notin> set params \<and> (\<forall>row\<in>set samples. row_ok params row)"
    by (cases params) (auto simp: sample_series_ok row_ok_def)
  have panels: "sp_Panels ?s \<noteq> [] \<and> (\<forall>p\<in>set (sp_Panels ?s). panel_ok U p) \<longleftrightarrow>
      params \<noteq> [] \<and> (\<forall>param\<in>set params. series_ok (sample_series U samples param))
      \<and> (kind = KindTimeSeries \<longrightarrow> one_unit U (List.map (sample_series U samples) params))"
  proof (cases "kind = KindMeteogram")
    case True
    have "panel_ok U (PanelOf [sample_series U samples param]) \<longleftrightarrow> series_ok (sample_series U samples param)" for param
      using sample_panel_ok[of U _ samples "[param]"] by (simp add: PanelOf_def one_unit_def)
    then show ?thesis using FromSamples_panels(1) by (simp add: True kind_defs)
  next
    case False
    then have k: "kind = KindTimeSeries" using assms by simp
    obtain t where "sp_Panels ?s = [new_panel t (List.map (sample_series U samples) params)]"
      using FromSamples_panels(2) unfolding k by blast
    then show ?thesis by (simp add: sample_panel_ok k)
  qed
  have one: "sp_Kind ?s = KindMeteogram \<or> length (sp_Panels ?s) = 1"
    using assms f(1) FromSamples_panels(2)[of U title samples params] by (auto simp: kind_defs)
  have kind: "sp_Kind ?s \<in> {KindTimeSeries, KindMeteogram, KindWindrose}" "sp_Kind ?s \<noteq> KindWindrose"
    using assms f(1) by (auto simp: kind_defs)
  have valid: "Validate_spec U ?s = None \<longleftrightarrow> (sp_Panels ?s \<noteq> [] \<and> (\<forall>p\<in>set (sp_Panels ?s). panel_ok U p)) \<and> length params \<le> 8"
    unfolding Validate_spec_None spec_ok_def using one kind total f(2-4) by (auto simp: side_ok_def)
  have points: "list_all2 (\<lambda>ser param. se_Parameter ser = param \<and> points_sorted (se_Points ser)
          \<and> (\<forall>t. filter (\<lambda>pt. t_ns (pt_Time pt) = t) (se_Points ser)
               = List.map (sample_point param) (filter (\<lambda>row. t_ns (sm_Time row) = t) samples)))
        (List.map (sample_series U samples) params) params"
    by (auto simp: list_all2_map1 list_all2_same points_sorted_def o_def sample_point_def filter_map sort_key_stable)
  show ?thesis
    unfolding valid panels series sample_one_unit FromSamples_series[OF assms] using points by auto
qed

text \<open>Two rows out of order, the later one without a humidity.\<close>

definition demo_rows :: "Sample list" where
  "demo_rows =
    [\<lparr>sm_Time = go_date 2024 6 1 13 0 0 0, sm_Values = [''wind_speed'' \<mapsto> Fin 4]\<rparr>,
     \<lparr>sm_Time = go_date 2024 6 1 12 0 0 0, sm_Values = [''wind_speed'' \<mapsto> Fin 3, ''humidity'' \<mapsto> Fin 80]\<rparr>]"

theorem FromSamples_accepted_witness:
  "Validate_spec ascii_only (FromSamples ascii_only KindMeteogram ''Wind'' demo_rows [''wind_speed'', ''humidity'']) = None
   \<and> Validate_spec ascii_only (FromSamples ascii_only KindTimeSeries ''Wind'' demo_rows [''wind_speed'', ''humidity'']) \<noteq> None"
proof -
  have "\<forall>row\<in>set demo_rows. row_ok [''wind_speed'', ''humidity''] row" by code_simp
  moreover have "registry_unit ascii_only ''wind_speed'' \<noteq> registry_unit ascii_only ''humidity''" by code_simp
  ultimately show ?thesis
    using FromSamples_accepted[of KindMeteogram ascii_only "''Wind''" demo_rows "[''wind_speed'', ''humidity'']"]
      FromSamples_accepted[of KindTimeSeries ascii_only "''Wind''" demo_rows "[''wind_speed'', ''humidity'']"]
    by (auto simp: kind_defs)
qed

end
