(* ===== verification/RuntimeConfig.thy ===== *)
theory RuntimeConfig
  imports GoJson
begin

text \<open>
  The package \<open>runtimeconfig\<close> (\<open>src/runtimeconfig/registry.go\<close>, \<open>overlay.go\<close>, \<open>store.go\<close>,
  \<open>config.go\<close>): the registry of declared keys and its single validation gate, the store of raw
  overrides, and the manager that persists an override first and then publishes a new overlay.

  A value of type \<open>any\<close> is \<open>any_value\<close>, its constructor being the dynamic type. Out-of-range
  conversions of floats to integers depend on the processor: the parameter \<open>oob\<close>.
\<close>

subsection \<open>Values and keys\<close>

datatype any_value =
    AInt int
  | AInt64 int
  | AFloat64 f64
  | ABool bool
  | AString string
  | ADuration int
  | ANil
  | AOther string   \<comment> \<open>any other dynamic type, by its name\<close>

type_synonym Kind = string

definition KindInt :: Kind where "KindInt = ''int''"
definition KindFloat :: Kind where "KindFloat = ''float''"
definition KindBool :: Kind where "KindBool = ''bool''"
definition KindString :: Kind where "KindString = ''string''"
definition KindEnum :: Kind where "KindEnum = ''enum''"
definition KindDuration :: Kind where "KindDuration = ''duration''"

lemmas kind_defs = KindInt_def KindFloat_def KindBool_def KindString_def KindEnum_def KindDuration_def

record Bounds =
  Min :: "f64 option"
  Max :: "f64 option"

definition FloatBounds :: "f64 \<Rightarrow> f64 \<Rightarrow> Bounds" where
  "FloatBounds lo hi = \<lparr>Min = Some lo, Max = Some hi\<rparr>"

record Key =
  k_Name :: string
  k_Kind :: Kind
  k_Default :: any_value
  k_Description :: string
  k_Unit :: string
  k_Mutable :: bool
  k_RestartRequired :: bool
  k_Secret :: bool
  k_Bounds :: "Bounds option"
  k_Enum :: "string list"

subsection \<open>Errors\<close>

text \<open>A value in an error message, or the placeholder for a secret.\<close>

datatype shown_value = ShownString string | ShownFloat f64 | Redacted

datatype invalid_reason =
    ExpectedBool json_error
  | ExpectedString json_error
  | ExpectedNumber json_error
  | ExpectedSeconds json_error
  | NotInEnum shown_value "string list"
  | ExpectedInteger shown_value
  | BelowMinimum shown_value f64
  | AboveMaximum shown_value f64

type_synonym store_error = string

datatype config_error =
    ErrUnknownKey
  | ErrImmutable
  | ErrInvalidValue string invalid_reason
  | UnknownConfigKey string
  | UnsupportedKind string Kind
  | PersistFailed string store_error
  | DeleteFailed string store_error

text \<open>The text of an error, as far as a client can see it. \<open>%v\<close> of a float and the text of a JSON
  syntax error are parameters.\<close>

record texts =
  tx_unicode :: unicode
  tx_float :: "f64 \<Rightarrow> string"
  tx_syntax :: string

fun json_error_text :: "texts \<Rightarrow> json_error \<Rightarrow> string" where
  "json_error_text tx JSyntax = tx_syntax tx"
| "json_error_text tx (JTypeError v ty) = ''json: cannot unmarshal '' @ v @ '' into Go value of type '' @ ty"

fun shown_text :: "texts \<Rightarrow> shown_value \<Rightarrow> string" where
  "shown_text tx (ShownString s) = s"
| "shown_text tx (ShownFloat f) = tx_float tx f"
| "shown_text tx Redacted = ''<redacted>''"

fun reason_text :: "texts \<Rightarrow> invalid_reason \<Rightarrow> string" where
  "reason_text tx (ExpectedBool e) = ''expected bool: '' @ json_error_text tx e"
| "reason_text tx (ExpectedString e) = ''expected string: '' @ json_error_text tx e"
| "reason_text tx (ExpectedNumber e) = ''expected number: '' @ json_error_text tx e"
| "reason_text tx (ExpectedSeconds e) = ''expected number of seconds: '' @ json_error_text tx e"
| "reason_text tx (NotInEnum v en) =
     go_quote (tx_unicode tx) (shown_text tx v) @ '' not in allowed set ['' @ join_with '' '' en @ '']''"
| "reason_text tx (ExpectedInteger v) = ''expected integer, got '' @ shown_text tx v"
| "reason_text tx (BelowMinimum v lo) = shown_text tx v @ '' below minimum '' @ tx_float tx lo"
| "reason_text tx (AboveMaximum v hi) = shown_text tx v @ '' above maximum '' @ tx_float tx hi"

fun error_text :: "texts \<Rightarrow> config_error \<Rightarrow> string" where
  "error_text tx ErrUnknownKey = ''unknown config key''"
| "error_text tx ErrImmutable = ''config key is not mutable''"
| "error_text tx (ErrInvalidValue n r) = ''invalid config value: '' @ n @ '': '' @ reason_text tx r"
| "error_text tx (UnknownConfigKey n) = ''unknown config key '' @ go_quote (tx_unicode tx) n"
| "error_text tx (UnsupportedKind n k) = n @ '': unsupported kind '' @ go_quote (tx_unicode tx) k"
| "error_text tx (PersistFailed n e) = ''persist '' @ n @ '': '' @ e"
| "error_text tx (DeleteFailed n e) = ''delete '' @ n @ '': '' @ e"

definition shown :: "Key \<Rightarrow> shown_value \<Rightarrow> shown_value" where
  "shown k v = (if k_Secret k then Redacted else v)"

subsection \<open>Normalisation of defaults\<close>


definition normalize_int :: "(f64 \<Rightarrow> int) \<Rightarrow> any_value \<Rightarrow> any_value option" where
  "normalize_int oob v =
     (case v of
        AInt n \<Rightarrow> Some (AInt64 n)
      | AInt64 n \<Rightarrow> Some (AInt64 n)
      | AFloat64 f \<Rightarrow>
          if \<not> feq f (f_of_int (to_int64 oob f)) then None else Some (AInt64 (to_int64 oob f))
      | _ \<Rightarrow> None)"

definition normalize_float :: "any_value \<Rightarrow> any_value option" where
  "normalize_float v =
     (case v of
        AInt n \<Rightarrow> Some (AFloat64 (f_of_int n))
      | AInt64 n \<Rightarrow> Some (AFloat64 (f_of_int n))
      | AFloat64 f \<Rightarrow> Some (AFloat64 f)
      | _ \<Rightarrow> None)"

definition normalize_duration :: "(f64 \<Rightarrow> int) \<Rightarrow> any_value \<Rightarrow> any_value option" where
  "normalize_duration oob v =
     (case v of
        ADuration d \<Rightarrow> Some (ADuration d)
      | AInt n \<Rightarrow> Some (ADuration (wrap64 (n * 1000000000)))
      | AInt64 n \<Rightarrow> Some (ADuration (wrap64 (n * 1000000000)))
      | AFloat64 f \<Rightarrow> Some (ADuration (to_int64 oob (fmul f second_f)))
      | _ \<Rightarrow> None)"

definition normalizeValue :: "(f64 \<Rightarrow> int) \<Rightarrow> Kind \<Rightarrow> any_value \<Rightarrow> any_value option" where
  "normalizeValue oob kind v =
     (if kind = KindInt then normalize_int oob v
      else if kind = KindFloat then normalize_float v
      else if kind = KindBool then (case v of ABool b \<Rightarrow> Some (ABool b) | _ \<Rightarrow> None)
      else if kind = KindString \<or> kind = KindEnum then (case v of AString s \<Rightarrow> Some (AString s) | _ \<Rightarrow> None)
      else if kind = KindDuration then normalize_duration oob v
      else None)"

subsection \<open>Validation\<close>

definition checkBounds :: "Key \<Rightarrow> f64 \<Rightarrow> config_error + unit" where
  "checkBounds k f =
     (case k_Bounds k of
        None \<Rightarrow> Inr ()
      | Some b \<Rightarrow>
          bind_res
            (case Min b of Some lo \<Rightarrow> if flt f lo
                 then Inl (ErrInvalidValue (k_Name k) (BelowMinimum (shown k (ShownFloat f)) lo)) else Inr ()
               | None \<Rightarrow> Inr ())
            (\<lambda>_. case Max b of Some hi \<Rightarrow> if flt hi f
                 then Inl (ErrInvalidValue (k_Name k) (AboveMaximum (shown k (ShownFloat f)) hi)) else Inr ()
               | None \<Rightarrow> Inr ()))"

definition invalid :: "Key \<Rightarrow> (json_error \<Rightarrow> invalid_reason) \<Rightarrow> json_error + 'a \<Rightarrow> config_error + 'a" where
  "invalid k why r = map_err (\<lambda>e. ErrInvalidValue (k_Name k) (why e)) r"

definition validate_enum :: "Key \<Rightarrow> string \<Rightarrow> config_error + any_value" where
  "validate_enum k s =
     (if s \<in> set (k_Enum k) then Inr (AString s)
      else Inl (ErrInvalidValue (k_Name k) (NotInEnum (shown k (ShownString s)) (k_Enum k))))"

definition validate_int :: "(f64 \<Rightarrow> int) \<Rightarrow> Key \<Rightarrow> f64 \<Rightarrow> config_error + any_value" where
  "validate_int oob k f =
     (if \<not> feq f (f_of_int (to_int64 oob f))
      then Inl (ErrInvalidValue (k_Name k) (ExpectedInteger (shown k (ShownFloat f))))
      else bind_res (checkBounds k f) (\<lambda>_. Inr (AInt64 (to_int64 oob f))))"

definition validateAgainst :: "(f64 \<Rightarrow> int) \<Rightarrow> Key \<Rightarrow> raw_message \<Rightarrow> config_error + any_value" where
  "validateAgainst oob k raw =
     (if k_Kind k = KindBool then
        bind_res (invalid k ExpectedBool (unmarshal ''bool'' decode_bool False raw)) (\<lambda>b. Inr (ABool b))
      else if k_Kind k = KindString then
        bind_res (invalid k ExpectedString (unmarshal ''string'' decode_string [] raw)) (\<lambda>s. Inr (AString s))
      else if k_Kind k = KindEnum then
        bind_res (invalid k ExpectedString (unmarshal ''string'' decode_string [] raw)) (validate_enum k)
      else if k_Kind k = KindInt then
        bind_res (invalid k ExpectedNumber (unmarshal_float raw)) (validate_int oob k)
      else if k_Kind k = KindFloat then
        bind_res (invalid k ExpectedNumber (unmarshal_float raw)) (\<lambda>f.
        bind_res (checkBounds k f) (\<lambda>_. Inr (AFloat64 f)))
      else if k_Kind k = KindDuration then
        bind_res (invalid k ExpectedSeconds (unmarshal_float raw)) (\<lambda>f.
        bind_res (checkBounds k f) (\<lambda>_. Inr (ADuration (to_int64 oob (fmul f second_f)))))
      else Inl (UnsupportedKind (k_Name k) (k_Kind k)))"

subsection \<open>The registry\<close>

record Registry =
  r_order :: "string list"
  r_keys :: "string \<Rightarrow> Key option"

definition NewRegistry :: Registry where
  "NewRegistry = \<lparr>r_order = [], r_keys = (\<lambda>_. None)\<rparr>"

datatype register_panic = EmptyName | DuplicateKey string | InvalidDefault string

definition Register :: "(f64 \<Rightarrow> int) \<Rightarrow> Key \<Rightarrow> Registry \<Rightarrow> register_panic + Registry" where
  "Register oob k r =
     (if k_Name k = [] then Inl EmptyName
      else if r_keys r (k_Name k) \<noteq> None then Inl (DuplicateKey (k_Name k))
      else case normalizeValue oob (k_Kind k) (k_Default k) of
          None \<Rightarrow> Inl (InvalidDefault (k_Name k))
        | Some nv \<Rightarrow> Inr (r\<lparr>r_keys := (r_keys r)(k_Name k \<mapsto> k\<lparr>k_Default := nv\<rparr>),
                           r_order := r_order r @ [k_Name k]\<rparr>))"

definition Lookup :: "Registry \<Rightarrow> string \<Rightarrow> Key option" where
  "Lookup r name = r_keys r name"

definition Keys :: "Registry \<Rightarrow> Key list" where
  "Keys r = List.map (\<lambda>n. the (r_keys r n)) (r_order r)"

definition Validate :: "(f64 \<Rightarrow> int) \<Rightarrow> Registry \<Rightarrow> string \<Rightarrow> raw_message \<Rightarrow> config_error + any_value" where
  "Validate oob r name raw =
     (case Lookup r name of
        None \<Rightarrow> Inl (UnknownConfigKey name)
      | Some k \<Rightarrow> validateAgainst oob k raw)"

text \<open>Registries as a service builds them: by registrations, none of which panicked.\<close>

fun register_all :: "(f64 \<Rightarrow> int) \<Rightarrow> Key list \<Rightarrow> Registry \<Rightarrow> register_panic + Registry" where
  "register_all oob [] r = Inr r"
| "register_all oob (k # ks) r = bind_res (Register oob k r) (register_all oob ks)"

subsection \<open>Stores\<close>

text \<open>The interface \<open>Store\<close>: its state is the provider's, an operation returns the new state. A
  failed \<open>LoadAll\<close> or a failed write returns an error.\<close>

type_synonym overrides = "string \<Rightarrow> raw_message option"

record 's Store =
  so_LoadAll :: "'s \<Rightarrow> store_error + overrides"
  so_Upsert :: "string \<Rightarrow> raw_message \<Rightarrow> 's \<Rightarrow> store_error option \<times> 's"
  so_Delete :: "string \<Rightarrow> 's \<Rightarrow> store_error option \<times> 's"
  so_Kind :: string

text \<open>The contract of a store, as the manager and the flag set rely on it: what \<open>LoadAll\<close> returns is
  its contents, a successful write changes exactly the one key, a failed one may or may not have
  reached the store but touches no other key.\<close>

locale config_store =
  fixes ops :: "'s Store" and contents :: "'s \<Rightarrow> overrides"
  assumes load_all: "so_LoadAll ops s = Inr m \<Longrightarrow> m = contents s"
    and upsert_ok: "so_Upsert ops n r s = (None, s') \<Longrightarrow> contents s' = (contents s)(n \<mapsto> r)"
    and upsert_err: "so_Upsert ops n r s = (Some e, s') \<Longrightarrow> contents s' \<in> {contents s, (contents s)(n \<mapsto> r)}"
    and delete_ok: "so_Delete ops n s = (None, s') \<Longrightarrow> contents s' = (contents s)(n := None)"
    and delete_err: "so_Delete ops n s = (Some e, s') \<Longrightarrow> contents s' \<in> {contents s, (contents s)(n := None)}"
begin

lemma upsert_other: "so_Upsert ops n r s = (e, s') \<Longrightarrow> n' \<noteq> n \<Longrightarrow> contents s' n' = contents s n'"
  using upsert_ok[of n r s s'] upsert_err[of n r s _ s'] by (cases e) auto

lemma delete_other: "so_Delete ops n s = (e, s') \<Longrightarrow> n' \<noteq> n \<Longrightarrow> contents s' n' = contents s n'"
  using delete_ok[of n s s'] delete_err[of n s _ s'] by (cases e) auto

end

text \<open>\<open>MemStore\<close>: a map under a lock. The copies it makes keep it apart from the callers' buffers.\<close>

type_synonym mem_store = overrides

definition NewMemStore :: mem_store where "NewMemStore = (\<lambda>_. None)"

definition mem_LoadAll :: "mem_store \<Rightarrow> store_error + overrides" where
  "mem_LoadAll s = Inr s"

definition mem_Upsert :: "string \<Rightarrow> raw_message \<Rightarrow> mem_store \<Rightarrow> store_error option \<times> mem_store" where
  "mem_Upsert n r s = (None, s(n \<mapsto> r))"

definition mem_Delete :: "string \<Rightarrow> mem_store \<Rightarrow> store_error option \<times> mem_store" where
  "mem_Delete n s = (None, s(n := None))"

definition MemStore :: "mem_store Store" where
  "MemStore = \<lparr>so_LoadAll = mem_LoadAll, so_Upsert = mem_Upsert, so_Delete = mem_Delete, so_Kind = ''memory''\<rparr>"

interpretation mem: config_store MemStore "\<lambda>s. s"
  by unfold_locales (auto simp: MemStore_def mem_LoadAll_def mem_Upsert_def mem_Delete_def)

end
