(* ===== verification/RuntimeManager.thy ===== *)
theory RuntimeManager
  imports RuntimeConfig GoTime
begin

text \<open>
  The manager of \<open>src/runtimeconfig/config.go\<close>: the live overlay over a store and a registry.
  An overlay is an immutable snapshot behind an atomic pointer, so a read is one look at
  \<open>mg_state\<close>; a write holds \<open>writeMu\<close> from the store call to the publication, so an operation is
  one step of the state. Log output is left out.
\<close>

subsection \<open>Overlays\<close>

type_synonym Overlay = "string \<Rightarrow> any_value option"

definition newOverlay :: Overlay where "newOverlay = (\<lambda>_. None)"

definition overlay_get :: "Overlay \<Rightarrow> string \<Rightarrow> any_value option" where
  "overlay_get ov name = ov name"

record 's Manager =
  mg_reg :: Registry
  mg_store :: 's
  mg_state :: Overlay

definition NewManager :: "Registry \<Rightarrow> 's \<Rightarrow> 's Manager" where
  "NewManager r s = \<lparr>mg_reg = r, mg_store = s, mg_state = newOverlay\<rparr>"

subsection \<open>Boot\<close>

text \<open>The loop of \<open>LoadAtBoot\<close> over the stored map: an override the registry rejects is dropped.\<close>

definition boot_overlay :: "(f64 \<Rightarrow> int) \<Rightarrow> Registry \<Rightarrow> overrides \<Rightarrow> Overlay" where
  "boot_overlay oob r stored = (\<lambda>name.
     (case stored name of
        None \<Rightarrow> None
      | Some raw \<Rightarrow> (case Validate oob r name raw of Inl _ \<Rightarrow> None | Inr v \<Rightarrow> Some v)))"

definition LoadAtBoot :: "(f64 \<Rightarrow> int) \<Rightarrow> 's Store \<Rightarrow> 's Manager \<Rightarrow> 's Manager" where
  "LoadAtBoot oob ops m =
     (case so_LoadAll ops (mg_store m) of
        Inl _ \<Rightarrow> m
      | Inr stored \<Rightarrow> m\<lparr>mg_state := boot_overlay oob (mg_reg m) stored\<rparr>)"

subsection \<open>Writes\<close>

definition Apply :: "(f64 \<Rightarrow> int) \<Rightarrow> 's Store \<Rightarrow> string \<Rightarrow> raw_message \<Rightarrow> 's Manager
    \<Rightarrow> config_error option \<times> 's Manager" where
  "Apply oob ops name raw m =
     (case Lookup (mg_reg m) name of
        None \<Rightarrow> (Some ErrUnknownKey, m)
      | Some k \<Rightarrow>
          if \<not> k_Mutable k then (Some ErrImmutable, m)
          else (case validateAgainst oob k raw of
              Inl e \<Rightarrow> (Some e, m)
            | Inr v \<Rightarrow>
                (case so_Upsert ops name raw (mg_store m) of
                   (Some e, s) \<Rightarrow> (Some (PersistFailed name e), m\<lparr>mg_store := s\<rparr>)
                 | (None, s) \<Rightarrow>
                     if k_RestartRequired k then (None, m\<lparr>mg_store := s\<rparr>)
                     else (None, m\<lparr>mg_store := s, mg_state := (mg_state m)(name \<mapsto> v)\<rparr>))))"

definition Clear :: "'s Store \<Rightarrow> string \<Rightarrow> 's Manager \<Rightarrow> config_error option \<times> 's Manager" where
  "Clear ops name m =
     (case Lookup (mg_reg m) name of
        None \<Rightarrow> (Some ErrUnknownKey, m)
      | Some k \<Rightarrow>
          if \<not> k_Mutable k then (Some ErrImmutable, m)
          else (case so_Delete ops name (mg_store m) of
              (Some e, s) \<Rightarrow> (Some (DeleteFailed name e), m\<lparr>mg_store := s\<rparr>)
            | (None, s) \<Rightarrow>
                if k_RestartRequired k then (None, m\<lparr>mg_store := s\<rparr>)
                else (None, m\<lparr>mg_store := s, mg_state := (mg_state m)(name := None)\<rparr>)))"

definition StoreKind :: "'s Store \<Rightarrow> string" where "StoreKind ops = so_Kind ops"

subsection \<open>Reads\<close>

definition resolve :: "'s Manager \<Rightarrow> string \<Rightarrow> any_value" where
  "resolve m name =
     (case overlay_get (mg_state m) name of
        Some v \<Rightarrow> v
      | None \<Rightarrow> (case Lookup (mg_reg m) name of Some k \<Rightarrow> k_Default k | None \<Rightarrow> ANil))"

definition Manager_Int64 :: "'s Manager \<Rightarrow> string \<Rightarrow> int" where
  "Manager_Int64 m name = (case resolve m name of AInt64 n \<Rightarrow> n | _ \<Rightarrow> 0)"

definition Manager_Int :: "'s Manager \<Rightarrow> string \<Rightarrow> int" where
  "Manager_Int m name = Manager_Int64 m name"

definition Manager_Float :: "'s Manager \<Rightarrow> string \<Rightarrow> f64" where
  "Manager_Float m name = (case resolve m name of AFloat64 f \<Rightarrow> f | _ \<Rightarrow> Fin 0)"

definition Manager_Bool :: "'s Manager \<Rightarrow> string \<Rightarrow> bool" where
  "Manager_Bool m name = (case resolve m name of ABool b \<Rightarrow> b | _ \<Rightarrow> False)"

definition Manager_String :: "'s Manager \<Rightarrow> string \<Rightarrow> string" where
  "Manager_String m name = (case resolve m name of AString s \<Rightarrow> s | _ \<Rightarrow> [])"

definition Manager_Duration :: "'s Manager \<Rightarrow> string \<Rightarrow> duration" where
  "Manager_Duration m name = (case resolve m name of ADuration d \<Rightarrow> d | _ \<Rightarrow> 0)"

subsection \<open>The merged view\<close>

definition toJSONValue :: "Kind \<Rightarrow> any_value \<Rightarrow> any_value" where
  "toJSONValue kind v =
     (if kind = KindDuration then (case v of ADuration d \<Rightarrow> AFloat64 (duration_seconds d) | _ \<Rightarrow> v) else v)"

definition redact :: "Key \<Rightarrow> any_value \<Rightarrow> any_value" where
  "redact k v =
     (if \<not> k_Secret k then v else if v = AString [] then AString [] else AString ''********'')"

record KeyView =
  kv_Key :: string
  kv_Value :: any_value
  kv_Type :: Kind
  kv_Default :: any_value
  kv_Source :: string
  kv_Description :: string
  kv_Unit :: string
  kv_Mutable :: bool
  kv_RestartRequired :: bool
  kv_Bounds :: "Bounds option"
  kv_Enum :: "string list"
  kv_Secret :: bool

definition key_view :: "Overlay \<Rightarrow> Key \<Rightarrow> KeyView" where
  "key_view cur k =
     (let (eff, source) = (case overlay_get cur (k_Name k) of
              Some v \<Rightarrow> (v, ''override'') | None \<Rightarrow> (k_Default k, ''default''))
      in \<lparr>kv_Key = k_Name k, kv_Value = redact k (toJSONValue (k_Kind k) eff), kv_Type = k_Kind k,
          kv_Default = redact k (toJSONValue (k_Kind k) (k_Default k)), kv_Source = source,
          kv_Description = k_Description k, kv_Unit = k_Unit k, kv_Mutable = k_Mutable k,
          kv_RestartRequired = k_RestartRequired k, kv_Bounds = k_Bounds k, kv_Enum = k_Enum k,
          kv_Secret = k_Secret k\<rparr>)"

definition MergedView :: "'s Manager \<Rightarrow> KeyView list" where
  "MergedView m = List.map (key_view (mg_state m)) (Keys (mg_reg m))"

subsection \<open>Histories\<close>

text \<open>What can happen to a service: boots (a new manager over the same registry and store, then
  \<open>LoadAtBoot\<close>), and administrator writes with any outcome. The index \<open>D\<close> collects the keys about
  whose persisted value a store failure left the running service in doubt.\<close>

definition store_failure :: "config_error option \<Rightarrow> bool" where
  "store_failure e \<longleftrightarrow> (\<exists>n x. e = Some (PersistFailed n x) \<or> e = Some (DeleteFailed n x))"

definition doubt :: "config_error option \<Rightarrow> string \<Rightarrow> string set \<Rightarrow> string set" where
  "doubt e n D = (if e = None then D - {n} else if store_failure e then insert n D else D)"

definition boot :: "(f64 \<Rightarrow> int) \<Rightarrow> 's Store \<Rightarrow> Registry \<Rightarrow> 's \<Rightarrow> 's Manager" where
  "boot oob ops r s = LoadAtBoot oob ops (NewManager r s)"

definition boot_doubt :: "'s Store \<Rightarrow> 's \<Rightarrow> string set" where
  "boot_doubt ops s = (case so_LoadAll ops s of Inl _ \<Rightarrow> UNIV | Inr _ \<Rightarrow> {})"

inductive history :: "(f64 \<Rightarrow> int) \<Rightarrow> 's Store \<Rightarrow> Registry \<Rightarrow> string set \<Rightarrow> 's Manager \<Rightarrow> bool"
  for oob ops r where
  h_boot: "history oob ops r (boot_doubt ops s) (boot oob ops r s)"
| h_apply: "history oob ops r D m \<Longrightarrow> Apply oob ops n raw m = (e, m') \<Longrightarrow> history oob ops r (doubt e n D) m'"
| h_clear: "history oob ops r D m \<Longrightarrow> Clear ops n m = (e, m') \<Longrightarrow> history oob ops r (doubt e n D) m'"
| h_restart: "history oob ops r D m \<Longrightarrow>
    history oob ops r (boot_doubt ops (mg_store m)) (boot oob ops (mg_reg m) (mg_store m))"

end
