(* ===== verification/PgxStore.thy ===== *)
theory PgxStore
  imports RuntimeManager
begin

text \<open>
  The package \<open>pgxstore\<close> (\<open>src/runtimeconfig/pgxstore/pgxstore.go\<close>, \<open>migrate.go\<close>): the store of raw
  overrides over a Postgres key/value table. The driver and the database are the parameter
  \<open>Querier\<close>: a query and a statement on a database state of any type. What the \<open>jsonb\<close> column makes
  of a document (it normalises the text) and the quoting of identifiers are parameters too.
\<close>

subsection \<open>The driver\<close>

datatype sql_arg = TextArg string | JsonArg raw_message

text \<open>The rows of a query: each is scanned into a key and a value, or fails to; then \<open>rows.Err()\<close>.\<close>

record pgx_rows =
  rows_scan :: "(string + string \<times> raw_message) list"
  rows_err :: "string option"

record 'd Querier =
  q_Query :: "string \<Rightarrow> 'd \<Rightarrow> string + pgx_rows"
  q_Exec :: "string \<Rightarrow> sql_arg list \<Rightarrow> 'd \<Rightarrow> string option \<times> 'd"

subsection \<open>The store\<close>

definition DefaultTable :: string where "DefaultTable = ''runtime_config''"

text \<open>The pattern \<open>^[a-z_][a-z0-9_]{0,62}$\<close>.\<close>

definition lower_or_underscore :: "char \<Rightarrow> bool" where
  "lower_or_underscore c \<longleftrightarrow> c = CHR ''_'' \<or> 97 \<le> byte c \<and> byte c \<le> 122"

definition tableNameRE :: "string \<Rightarrow> bool" where
  "tableNameRE s \<longleftrightarrow> (case s of [] \<Rightarrow> False
     | c # cs \<Rightarrow> lower_or_underscore c \<and> list_all (\<lambda>c. lower_or_underscore c \<or> is_digit c) cs \<and> length cs \<le> 62)"

datatype table_error = InvalidTableName string

definition quoteTable :: "(string \<Rightarrow> string) \<Rightarrow> string \<Rightarrow> table_error + string" where
  "quoteTable sanitize table = (if \<not> tableNameRE table then Inl (InvalidTableName table) else Inr (sanitize table))"

record 'd pg_Store =
  pg_db :: "'d Querier"
  pg_table :: string
  pg_selectSQL :: string
  pg_upsertSQL :: string
  pg_deleteSQL :: string

definition nl :: string where "nl = [CHR 0x0A]"
definition tab :: string where "tab = [CHR 0x09]"

definition NewWithTable :: "(string \<Rightarrow> string) \<Rightarrow> 'd Querier \<Rightarrow> string \<Rightarrow> table_error + 'd pg_Store" where
  "NewWithTable sanitize db table =
     bind_res (quoteTable sanitize table) (\<lambda>q. Inr \<lparr>pg_db = db, pg_table = table,
       pg_selectSQL = ''SELECT key, value FROM '' @ q,
       pg_upsertSQL = nl @ tab @ tab @ ''INSERT INTO '' @ q @ '' (key, value, updated_at)''
         @ nl @ tab @ tab @ ''VALUES ($1, $2::jsonb, now())''
         @ nl @ tab @ tab @ ''ON CONFLICT (key) DO UPDATE SET value = $2::jsonb, updated_at = now()'',
       pg_deleteSQL = ''DELETE FROM '' @ q @ '' WHERE key = $1''\<rparr>)"

text \<open>\<open>New\<close>, \<open>None\<close> being its panic.\<close>

definition pg_New :: "(string \<Rightarrow> string) \<Rightarrow> 'd Querier \<Rightarrow> 'd pg_Store option" where
  "pg_New sanitize db = (case NewWithTable sanitize db DefaultTable of Inl _ \<Rightarrow> None | Inr s \<Rightarrow> Some s)"

fun scan_rows :: "string \<Rightarrow> (string + string \<times> raw_message) list \<Rightarrow> overrides \<Rightarrow> string + overrides" where
  "scan_rows table [] out = Inr out"
| "scan_rows table (Inl e # rs) out = Inl (table @ '' scan: '' @ e)"
| "scan_rows table (Inr (k, v) # rs) out = scan_rows table rs (out(k \<mapsto> v))"

definition pg_LoadAll :: "'d pg_Store \<Rightarrow> 'd \<Rightarrow> string + overrides" where
  "pg_LoadAll st d =
     (case q_Query (pg_db st) (pg_selectSQL st) d of
        Inl e \<Rightarrow> Inl (pg_table st @ '' select: '' @ e)
      | Inr rows \<Rightarrow>
          bind_res (scan_rows (pg_table st) (rows_scan rows) (\<lambda>_. None)) (\<lambda>out.
          (case rows_err rows of Some e \<Rightarrow> Inl (pg_table st @ '' rows: '' @ e) | None \<Rightarrow> Inr out)))"

definition pg_Upsert :: "'d pg_Store \<Rightarrow> string \<Rightarrow> raw_message \<Rightarrow> 'd \<Rightarrow> string option \<times> 'd" where
  "pg_Upsert st key v d =
     (case q_Exec (pg_db st) (pg_upsertSQL st) [TextArg key, JsonArg v] d of
        (Some e, d') \<Rightarrow> (Some (pg_table st @ '' upsert '' @ key @ '': '' @ e), d')
      | (None, d') \<Rightarrow> (None, d'))"

definition pg_Delete :: "'d pg_Store \<Rightarrow> string \<Rightarrow> 'd \<Rightarrow> string option \<times> 'd" where
  "pg_Delete st key d =
     (case q_Exec (pg_db st) (pg_deleteSQL st) [TextArg key] d of
        (Some e, d') \<Rightarrow> (Some (pg_table st @ '' delete '' @ key @ '': '' @ e), d')
      | (None, d') \<Rightarrow> (None, d'))"

definition pg_ops :: "'d pg_Store \<Rightarrow> 'd Store" where
  "pg_ops st = \<lparr>so_LoadAll = pg_LoadAll st, so_Upsert = pg_Upsert st, so_Delete = pg_Delete st, so_Kind = ''postgres''\<rparr>"

subsection \<open>Migration\<close>

definition ddl_of :: "string \<Rightarrow> string" where
  "ddl_of q = nl @ ''CREATE TABLE IF NOT EXISTS '' @ q @ '' ('' @ nl
     @ tab @ ''key        TEXT PRIMARY KEY,'' @ nl
     @ tab @ ''value      JSONB NOT NULL,'' @ nl
     @ tab @ ''updated_at TIMESTAMPTZ NOT NULL DEFAULT now()'' @ nl @ '');''"

definition CreateTableSQL :: string where "CreateTableSQL = ddl_of ''runtime_config''"

definition CreateTableSQLFor :: "(string \<Rightarrow> string) \<Rightarrow> string \<Rightarrow> table_error + string" where
  "CreateTableSQLFor sanitize table = bind_res (quoteTable sanitize table) (\<lambda>q. Inr (ddl_of q))"

definition EnsureSchema :: "'d Querier \<Rightarrow> 'd \<Rightarrow> string option \<times> 'd" where
  "EnsureSchema db d = q_Exec db CreateTableSQL [] d"

definition EnsureSchemaFor :: "(string \<Rightarrow> string) \<Rightarrow> 'd Querier \<Rightarrow> string \<Rightarrow> 'd \<Rightarrow> (table_error + string option) \<times> 'd" where
  "EnsureSchemaFor sanitize db table d =
     (case CreateTableSQLFor sanitize table of
        Inl e \<Rightarrow> (Inl e, d)
      | Inr ddl \<Rightarrow> (case q_Exec db ddl [] d of (e, d') \<Rightarrow> (Inr e, d')))"

end
