(* ===== verification/RuntimeCorrect.thy ===== *)
theory RuntimeCorrect
  imports RuntimeManager
begin

text \<open>
  Correctness of the runtime configuration: what the validation gate lets through, the registry's
  well-formedness, the overlay's invariants over every history of administrator operations and
  restarts, and what the merged view and the error texts disclose of a secret.
\<close>

subsection \<open>The validation gate\<close>

definition in_bounds :: "Key \<Rightarrow> f64 \<Rightarrow> bool" where
  "in_bounds k f \<longleftrightarrow> (case k_Bounds k of None \<Rightarrow> True
     | Some b \<Rightarrow> (case Min b of None \<Rightarrow> True | Some lo \<Rightarrow> \<not> flt f lo)
         \<and> (case Max b of None \<Rightarrow> True | Some hi \<Rightarrow> \<not> flt hi f))"

lemma checkBounds_Inr [result_simps]: "checkBounds k f = Inr u \<longleftrightarrow> in_bounds k f"
  by (auto simp: checkBounds_def in_bounds_def split: option.splits)

text \<open>The values of a kind, and of a key.\<close>

definition has_kind :: "Kind \<Rightarrow> any_value \<Rightarrow> bool" where
  "has_kind kind v \<longleftrightarrow>
     (if kind = KindBool then \<exists>b. v = ABool b
      else if kind = KindString \<or> kind = KindEnum then \<exists>s. v = AString s
      else if kind = KindInt then \<exists>n. v = AInt64 n
      else if kind = KindFloat then \<exists>f. v = AFloat64 f
      else kind = KindDuration \<and> (\<exists>d. v = ADuration d))"

definition value_ok :: "(f64 \<Rightarrow> int) \<Rightarrow> Key \<Rightarrow> any_value \<Rightarrow> bool" where
  "value_ok oob k v \<longleftrightarrow> has_kind (k_Kind k) v
     \<and> (k_Kind k = KindEnum \<longrightarrow> (\<exists>s\<in>set (k_Enum k). v = AString s))
     \<and> (k_Kind k = KindInt \<longrightarrow> (\<exists>f. v = AInt64 (to_int64 oob f) \<and> feq f (f_of_int (to_int64 oob f)) \<and> in_bounds k f))
     \<and> (k_Kind k = KindFloat \<longrightarrow> (\<exists>f. v = AFloat64 f \<and> in_bounds k f))
     \<and> (k_Kind k = KindDuration \<longrightarrow> (\<exists>f. v = ADuration (to_int64 oob (fmul f second_f)) \<and> in_bounds k f))"

lemma kinds_distinct [simp]:
  "KindInt \<noteq> KindFloat" "KindInt \<noteq> KindBool" "KindInt \<noteq> KindString" "KindInt \<noteq> KindEnum" "KindInt \<noteq> KindDuration"
  "KindFloat \<noteq> KindBool" "KindFloat \<noteq> KindString" "KindFloat \<noteq> KindEnum" "KindFloat \<noteq> KindDuration"
  "KindBool \<noteq> KindString" "KindBool \<noteq> KindEnum" "KindBool \<noteq> KindDuration"
  "KindString \<noteq> KindEnum" "KindString \<noteq> KindDuration" "KindEnum \<noteq> KindDuration"
  by (simp_all add: kind_defs)

lemmas kinds_distinct' [simp] = kinds_distinct[symmetric]

lemma validateAgainst_ok:
  assumes "validateAgainst oob k raw = Inr v" shows "value_ok oob k v"
  using assms
  by (auto simp: validateAgainst_def value_ok_def has_kind_def validate_enum_def validate_int_def
      result_simps split: if_splits)

subsection \<open>The registry\<close>

definition registry_wf :: "Registry \<Rightarrow> bool" where
  "registry_wf r \<longleftrightarrow> distinct (r_order r)
     \<and> (\<forall>n. n \<in> set (r_order r) \<longleftrightarrow> r_keys r n \<noteq> None)
     \<and> (\<forall>n k. r_keys r n = Some k \<longrightarrow> n \<noteq> [] \<and> k_Name k = n \<and> has_kind (k_Kind k) (k_Default k))"

lemma normalizeValue_kind:
  "normalizeValue oob kind v = Some nv \<Longrightarrow> has_kind kind nv"
  by (auto simp: normalizeValue_def has_kind_def normalize_int_def normalize_float_def normalize_duration_def
      split: if_splits any_value.splits)

lemma normalizeValue_idem:
  assumes "normalizeValue oob kind v = Some nv" shows "normalizeValue oob kind nv = Some nv"
  using normalizeValue_kind[OF assms] assms
  by (auto simp: has_kind_def normalizeValue_def normalize_int_def normalize_float_def normalize_duration_def
      split: if_splits)

lemma Register_Inr [result_simps]:
  "Register oob k r = Inr r' \<longleftrightarrow> k_Name k \<noteq> [] \<and> r_keys r (k_Name k) = None
     \<and> (\<exists>nv. normalizeValue oob (k_Kind k) (k_Default k) = Some nv
         \<and> r' = r\<lparr>r_keys := (r_keys r)(k_Name k \<mapsto> k\<lparr>k_Default := nv\<rparr>), r_order := r_order r @ [k_Name k]\<rparr>)"
  by (auto simp: Register_def split: option.split)

lemma Register_wf:
  assumes "registry_wf r" "Register oob k r = Inr r'" shows "registry_wf r'"
proof -
  obtain nv where k: "k_Name k \<noteq> []" "r_keys r (k_Name k) = None"
    and nv: "normalizeValue oob (k_Kind k) (k_Default k) = Some nv"
    and r': "r' = r\<lparr>r_keys := (r_keys r)(k_Name k \<mapsto> k\<lparr>k_Default := nv\<rparr>), r_order := r_order r @ [k_Name k]\<rparr>"
    using assms(2) unfolding Register_Inr by blast
  note k = k normalizeValue_kind[OF nv]
  show ?thesis using assms(1) k unfolding registry_wf_def r' by simp
qed

lemma register_all_wf:
  "registry_wf r \<Longrightarrow> register_all oob ks r = Inr r' \<Longrightarrow> registry_wf r'"
  by (induction ks arbitrary: r) (auto simp: bind_res_eq_Inr dest: Register_wf)

lemma NewRegistry_wf: "registry_wf NewRegistry"
  by (simp add: registry_wf_def NewRegistry_def)

lemma register_all_order:
  "register_all oob ks r = Inr r' \<Longrightarrow> r_order r' = r_order r @ List.map k_Name ks"
  by (induction ks arbitrary: r) (auto simp: result_simps)

lemma register_all_keeps:
  "register_all oob ks r = Inr r' \<Longrightarrow> r_keys r n = Some k \<Longrightarrow> r_keys r' n = Some k"
proof (induction ks arbitrary: r)
  case (Cons a ks)
  then obtain r1 where r1: "Register oob a r = Inr r1" "register_all oob ks r1 = Inr r'"
    by (auto simp: result_simps)
  then have "r_keys r1 n = Some k" using Cons.prems(2) by (auto simp: result_simps)
  then show ?case using Cons.IH r1(2) by blast
qed simp

lemma register_all_lookup:
  "register_all oob ks r = Inr r' \<Longrightarrow> k \<in> set ks \<Longrightarrow>
     \<exists>nv. normalizeValue oob (k_Kind k) (k_Default k) = Some nv \<and> r_keys r' (k_Name k) = Some (k\<lparr>k_Default := nv\<rparr>)"
proof (induction ks arbitrary: r)
  case (Cons a ks)
  then obtain r1 where r1: "Register oob a r = Inr r1" "register_all oob ks r1 = Inr r'"
    by (auto simp: result_simps)
  show ?case
  proof (cases "k = a")
    case True
    then obtain nv where "normalizeValue oob (k_Kind k) (k_Default k) = Some nv"
        "r_keys r1 (k_Name k) = Some (k\<lparr>k_Default := nv\<rparr>)"
      using r1(1) by (auto simp: result_simps)
    then show ?thesis using register_all_keeps[OF r1(2)] by blast
  qed (use Cons r1(2) in auto)
qed simp

text \<open>A registry built by registrations that did not panic lists exactly the registered keys, in
  registration order and without duplicates; every lookup returns the key as it was declared, its
  default in the canonical type of its kind.\<close>

lemma registry_complete:
  assumes "register_all oob ks NewRegistry = Inr r"
  shows "List.map k_Name (Keys r) = List.map k_Name ks \<and> distinct (List.map k_Name (Keys r))
    \<and> (\<forall>n. Lookup r n \<noteq> None \<longleftrightarrow> n \<in> k_Name ` set ks)
    \<and> (\<forall>k\<in>set ks. \<exists>nv. Lookup r (k_Name k) = Some (k\<lparr>k_Default := nv\<rparr>) \<and> has_kind (k_Kind k) nv)"
proof -
  have wf: "registry_wf r" using register_all_wf[OF NewRegistry_wf assms] .
  have o: "r_order r = List.map k_Name ks" using register_all_order[OF assms] by (simp add: NewRegistry_def)
  have "k_Name (the (r_keys r n)) = n" if "n \<in> set (r_order r)" for n
    using wf that by (force simp: registry_wf_def)
  then have "List.map k_Name (Keys r) = r_order r" by (auto simp: Keys_def intro: map_idI)
  moreover have "\<exists>nv. Lookup r (k_Name k) = Some (k\<lparr>k_Default := nv\<rparr>) \<and> has_kind (k_Kind k) nv" if "k \<in> set ks" for k
    using register_all_lookup[OF assms that] normalizeValue_kind by (fastforce simp: Lookup_def)
  moreover have "Lookup r n \<noteq> None \<longleftrightarrow> n \<in> k_Name ` set ks" for n
    using wf o by (simp add: registry_wf_def Lookup_def)
  ultimately show ?thesis using wf o by (simp add: registry_wf_def)
qed

definition mk_key :: "string \<Rightarrow> Kind \<Rightarrow> any_value \<Rightarrow> Key" where
  "mk_key n kind d = \<lparr>k_Name = n, k_Kind = kind, k_Default = d, k_Description = [], k_Unit = [], k_Mutable = True,
     k_RestartRequired = False, k_Secret = False, k_Bounds = None, k_Enum = []\<rparr>"

lemma registry_complete_witness:
  "\<exists>r. register_all amd64_oob [mk_key ''ttl'' KindDuration (AInt 30), mk_key ''cap'' KindInt (AInt 5)] NewRegistry = Inr r
     \<and> List.map k_Name (Keys r) = [''ttl'', ''cap''] \<and> Lookup r ''nope'' = None"
proof -
  let ?ks = "[mk_key ''ttl'' KindDuration (AInt 30), mk_key ''cap'' KindInt (AInt 5)]"
  have "\<exists>r. register_all amd64_oob ?ks NewRegistry = Inr r"
    by (simp add: Register_def mk_key_def NewRegistry_def normalizeValue_def normalize_int_def
        normalize_duration_def)
  then obtain r where r: "register_all amd64_oob ?ks NewRegistry = Inr r" ..
  have n: "List.map k_Name ?ks = [''ttl'', ''cap'']" "''nope'' \<notin> k_Name ` set ?ks" by (simp_all add: mk_key_def)
  note c = registry_complete[OF r, unfolded n(1)]
  have "List.map k_Name (Keys r) = [''ttl'', ''cap'']" by (rule conjunct1[OF c])
  moreover have "Lookup r ''nope'' = None" using c n(2) by blast
  ultimately show ?thesis using r by (intro exI[of _ r] conjI)
qed

subsection \<open>One write\<close>

text \<open>The outcomes of \<open>Apply\<close> and \<open>Clear\<close> past the guards.\<close>

definition writable :: "'s Manager \<Rightarrow> string \<Rightarrow> Key \<Rightarrow> bool" where
  "writable m n k \<longleftrightarrow> Lookup (mg_reg m) n = Some k \<and> k_Mutable k"

lemma checkBounds_Inl:
  "checkBounds k f = Inl e \<Longrightarrow> \<exists>why. e = ErrInvalidValue (k_Name k) why"
  by (auto simp: checkBounds_def result_Inl split: option.splits if_splits)

lemma validateAgainst_error:
  assumes "validateAgainst oob k raw = Inl e"
  shows "e = UnsupportedKind (k_Name k) (k_Kind k) \<or> (\<exists>why. e = ErrInvalidValue (k_Name k) why)"
  using assms
  by (auto simp: validateAgainst_def validate_enum_def validate_int_def invalid_def result_Inl
      dest!: checkBounds_Inl split: if_splits)

lemma Apply_cases:
  assumes "Apply oob ops n raw m = (e, m')"
  obtains (rejected) "m' = m" "e \<noteq> None" "\<not> store_failure e"
      "Lookup (mg_reg m) n = None \<and> e = Some ErrUnknownKey
       \<or> (\<exists>k. Lookup (mg_reg m) n = Some k \<and> (\<not> k_Mutable k \<and> e = Some ErrImmutable
            \<or> k_Mutable k \<and> (\<exists>x. validateAgainst oob k raw = Inl x \<and> e = Some x)))"
  | (failed) k v s x where "writable m n k" "validateAgainst oob k raw = Inr v"
      "so_Upsert ops n raw (mg_store m) = (Some x, s)" "m' = m\<lparr>mg_store := s\<rparr>" "e = Some (PersistFailed n x)"
  | (applied) k v s where "writable m n k" "validateAgainst oob k raw = Inr v"
      "so_Upsert ops n raw (mg_store m) = (None, s)" "e = None"
      "m' = m\<lparr>mg_store := s, mg_state := (if k_RestartRequired k then mg_state m else (mg_state m)(n \<mapsto> v))\<rparr>"
proof -
  show ?thesis
  proof (cases "\<exists>k v. writable m n k \<and> validateAgainst oob k raw = Inr v")
    case True
    then obtain k v where k: "writable m n k" "validateAgainst oob k raw = Inr v" by blast
    obtain u s where u: "so_Upsert ops n raw (mg_store m) = (u, s)" by fastforce
    show ?thesis
      using assms k u failed[OF k, of _ s] applied[OF k, of s]
      by (cases u) (auto simp: Apply_def writable_def split: if_splits)
  next
    case False
    then show ?thesis
      using assms validateAgainst_error rejected by (fastforce simp: Apply_def writable_def store_failure_def
          split: option.splits sum.splits if_splits)
  qed
qed

lemma Clear_cases:
  assumes "Clear ops n m = (e, m')"
  obtains (rejected) "m' = m" "e \<noteq> None" "\<not> store_failure e"
      "Lookup (mg_reg m) n = None \<and> e = Some ErrUnknownKey
       \<or> (\<exists>k. Lookup (mg_reg m) n = Some k \<and> \<not> k_Mutable k \<and> e = Some ErrImmutable)"
  | (failed) k s x where "writable m n k"
      "so_Delete ops n (mg_store m) = (Some x, s)" "m' = m\<lparr>mg_store := s\<rparr>" "e = Some (DeleteFailed n x)"
  | (applied) k s where "writable m n k" "so_Delete ops n (mg_store m) = (None, s)" "e = None"
      "m' = m\<lparr>mg_store := s, mg_state := (if k_RestartRequired k then mg_state m else (mg_state m)(n := None))\<rparr>"
proof (cases "\<exists>k. writable m n k")
  case True
  then obtain k where k: "writable m n k" by blast
  obtain u s where u: "so_Delete ops n (mg_store m) = (u, s)" by fastforce
  show ?thesis
    using assms k u failed[OF k, of _ s] applied[OF k, of s]
    by (cases u) (auto simp: Clear_def writable_def split: if_splits)
next
  case False
  then show ?thesis
    using assms rejected by (fastforce simp: Clear_def writable_def store_failure_def split: option.splits if_splits)
qed

lemma Apply_reg: "Apply oob ops n raw m = (e, m') \<Longrightarrow> mg_reg m' = mg_reg m"
  by (elim Apply_cases) auto

lemma Clear_reg: "Clear ops n m = (e, m') \<Longrightarrow> mg_reg m' = mg_reg m"
  by (elim Clear_cases) auto

lemma boot_simps [simp]:
  "mg_reg (boot oob ops r s) = r" "mg_store (boot oob ops r s) = s"
  "so_LoadAll ops s = Inr x \<Longrightarrow> mg_state (boot oob ops r s) = boot_overlay oob r x"
  "so_LoadAll ops s = Inl e \<Longrightarrow> mg_state (boot oob ops r s) = newOverlay"
  by (simp_all add: boot_def LoadAtBoot_def NewManager_def split: sum.split)

lemma history_reg: "history oob ops r D m \<Longrightarrow> mg_reg m = r"
  by (induction rule: history.induct) (auto dest: Apply_reg Clear_reg)

definition overlay_ok :: "(f64 \<Rightarrow> int) \<Rightarrow> Registry \<Rightarrow> Overlay \<Rightarrow> bool" where
  "overlay_ok oob r ov \<longleftrightarrow> (\<forall>n v. ov n = Some v \<longrightarrow> (\<exists>k. Lookup r n = Some k \<and> value_ok oob k v))"

lemma boot_overlay_ok: "overlay_ok oob r (boot_overlay oob r x)"
  by (auto simp: overlay_ok_def boot_overlay_def Validate_def dest: validateAgainst_ok
      split: option.splits sum.splits)

text \<open>C22. At every point of every history (boots with a working or failing store, writes with any
  outcome), each entry of the live overlay belongs to a registered key and has passed that key's
  validation: its type is the kind's, an integer or a float is within the bounds, an enum value in
  the set.\<close>

theorem overlay_always_valid:
  assumes "history oob ops r D m"
  shows "mg_reg m = r \<and> overlay_ok oob r (mg_state m)"
proof -
  have "overlay_ok oob r (mg_state m)"
    using assms
  proof (induction rule: history.induct)
    case (h_boot s)
    then show ?case
      by (cases "so_LoadAll ops s") (simp_all add: boot_overlay_ok, simp add: overlay_ok_def newOverlay_def)
  next
    case (h_apply D m n raw e m')
    then show ?case using h_apply.hyps(2) history_reg[OF h_apply.hyps(1)]
      by (elim Apply_cases) (auto simp: overlay_ok_def writable_def dest: validateAgainst_ok)
  next
    case (h_clear D m n e m')
    then show ?case using h_clear.hyps(2) by (elim Clear_cases) (auto simp: overlay_ok_def)
  next
    case (h_restart D m)
    then show ?case using history_reg[OF h_restart.hyps]
      by (cases "so_LoadAll ops (mg_store m)") (simp_all add: boot_overlay_ok, simp add: overlay_ok_def newOverlay_def)
  qed
  then show ?thesis using history_reg[OF assms] by simp
qed

definition cap_key :: Key where
  "cap_key = (mk_key ''cap'' KindInt (AInt64 5))\<lparr>k_Bounds := Some (FloatBounds (Fin 1) (Fin 10))\<rparr>"

definition cap_registry :: Registry where
  "cap_registry = \<lparr>r_order = [''cap''], r_keys = (\<lambda>_. None)(''cap'' \<mapsto> cap_key)\<rparr>"

text \<open>A history: boot on an empty store, set \<open>cap\<close> to 7, fail to set it to 11.\<close>

definition cap_history :: "mem_store Manager" where
  "cap_history = snd (Apply amd64_oob MemStore ''cap'' (Some (JNum ''11''))
     (snd (Apply amd64_oob MemStore ''cap'' (Some (JNum ''7'')) (boot amd64_oob MemStore cap_registry NewMemStore))))"

lemma boot_doubt_MemStore [simp]: "boot_doubt MemStore s = {}"
  by (simp add: boot_doubt_def MemStore_def mem_LoadAll_def)

lemma cap_validate:
  "validateAgainst amd64_oob cap_key (Some (JNum ''7'')) = Inr (AInt64 7)"
  "validateAgainst amd64_oob cap_key (Some (JNum ''11''))
     = Inl (ErrInvalidValue ''cap'' (AboveMaximum (ShownFloat (Fin 11)) (Fin 10)))"
  by code_simp+

lemma cap_lookup: "Lookup cap_registry ''cap'' = Some cap_key" "k_Mutable cap_key" "\<not> k_RestartRequired cap_key"
  by (simp_all add: cap_registry_def Lookup_def cap_key_def mk_key_def)

definition cap_step :: "mem_store Manager" where
  "cap_step = snd (Apply amd64_oob MemStore ''cap'' (Some (JNum ''7'')) (boot amd64_oob MemStore cap_registry NewMemStore))"

lemma cap_step:
  "Apply amd64_oob MemStore ''cap'' (Some (JNum ''7'')) (boot amd64_oob MemStore cap_registry NewMemStore) = (None, cap_step)"
  "mg_state cap_step ''cap'' = Some (AInt64 7)" "mg_reg cap_step = cap_registry"
  "mg_store cap_step = NewMemStore(''cap'' \<mapsto> Some (JNum ''7''))"
  by (simp_all add: cap_step_def Apply_def cap_lookup cap_validate MemStore_def mem_Upsert_def)

lemma cap_history:
  "Apply amd64_oob MemStore ''cap'' (Some (JNum ''11'')) cap_step
     = (Some (ErrInvalidValue ''cap'' (AboveMaximum (ShownFloat (Fin 11)) (Fin 10))), cap_history)"
  "cap_history = cap_step"
  by (simp_all add: cap_history_def Apply_def[of _ _ _ _ cap_step] cap_step_def[symmetric] cap_step(3) cap_lookup cap_validate)

lemma cap_history_history: "history amd64_oob MemStore cap_registry {} cap_history"
proof -
  have "history amd64_oob MemStore cap_registry {} (boot amd64_oob MemStore cap_registry NewMemStore)"
    using h_boot[of amd64_oob MemStore cap_registry NewMemStore] by simp
  from h_apply[OF this cap_step(1)] have "history amd64_oob MemStore cap_registry {} cap_step"
    by (simp add: doubt_def)
  from h_apply[OF this cap_history(1)] show ?thesis by (simp add: doubt_def store_failure_def)
qed

theorem overlay_always_valid_witness:
  "mg_state cap_history ''cap'' = Some (AInt64 7) \<and> value_ok amd64_oob cap_key (AInt64 7)"
proof -
  have e: "mg_state cap_history ''cap'' = Some (AInt64 7)" using cap_step(2) cap_history(2) by simp
  then have "\<exists>k. Lookup cap_registry ''cap'' = Some k \<and> value_ok amd64_oob k (AInt64 7)"
    using overlay_always_valid[OF cap_history_history] unfolding overlay_ok_def by blast
  then show ?thesis using e by (simp add: cap_lookup)
qed

text \<open>C21. The live overlay is what a restart would load. In every history over a store that keeps the
  contract, for every key that is not restart-required and about which no store failure left a
  doubt, the live entry equals the one that \<open>LoadAtBoot\<close> would build from the store's contents;
  so a restart whose \<open>LoadAll\<close> works changes no such entry.\<close>

theorem live_matches_restart:
  assumes "config_store ops contents" "history oob ops r D m"
    and "Lookup r n = Some k" "\<not> k_RestartRequired k" "n \<notin> D"
  shows "mg_state m n = boot_overlay oob r (contents (mg_store m)) n
    \<and> (so_LoadAll ops (mg_store m) = Inr x \<longrightarrow> mg_state (boot oob ops r (mg_store m)) n = mg_state m n)"
proof -
  have load: "x = contents s" if "so_LoadAll ops s = Inr x" for s x
    using config_store.load_all[OF assms(1) that] .
  have "mg_state m n = boot_overlay oob r (contents (mg_store m)) n"
    using assms(2,5)
  proof (induction rule: history.induct)
    case (h_boot s)
    then show ?case by (cases "so_LoadAll ops s") (auto simp: boot_doubt_def dest: load)
  next
    case (h_apply D m n' raw e m')
    note reg = history_reg[OF h_apply.hyps(1)]
    show ?case
      using h_apply.hyps(2)
    proof (cases rule: Apply_cases)
      case rejected
      then show ?thesis using h_apply by (auto simp: doubt_def split: if_splits)
    next
      case (failed k' v s x)
      then have "n \<noteq> n'" using h_apply.prems by (auto simp: doubt_def store_failure_def)
      moreover from this have "contents s n = contents (mg_store m) n"
        using config_store.upsert_other[OF assms(1) failed(3)] by blast
      ultimately show ?thesis using h_apply failed by (auto simp: doubt_def store_failure_def boot_overlay_def)
    next
      case (applied k' v s)
      have "contents s = (contents (mg_store m))(n' \<mapsto> raw)"
        using config_store.upsert_ok[OF assms(1) applied(3)] .
      then show ?thesis
        using h_apply applied assms(3,4) reg
        by (cases "n = n'") (auto simp: boot_overlay_def doubt_def writable_def Validate_def)
    qed
  next
    case (h_clear D m n' e m')
    note reg = history_reg[OF h_clear.hyps(1)]
    show ?case
      using h_clear.hyps(2)
    proof (cases rule: Clear_cases)
      case rejected
      then show ?thesis using h_clear by (auto simp: doubt_def split: if_splits)
    next
      case (failed k' s x)
      then have "n \<noteq> n'" using h_clear.prems by (auto simp: doubt_def store_failure_def)
      moreover from this have "contents s n = contents (mg_store m) n"
        using config_store.delete_other[OF assms(1) failed(2)] by blast
      ultimately show ?thesis using h_clear failed by (auto simp: doubt_def store_failure_def boot_overlay_def)
    next
      case (applied k' s)
      have "contents s = (contents (mg_store m))(n' := None)"
        using config_store.delete_ok[OF assms(1) applied(2)] .
      then show ?thesis
        using h_clear applied assms(3,4) reg
        by (cases "n = n'") (auto simp: boot_overlay_def doubt_def writable_def)
    qed
  next
    case (h_restart D m)
    note reg = history_reg[OF h_restart.hyps]
    show ?case using h_restart.prems reg by (cases "so_LoadAll ops (mg_store m)") (auto simp: boot_doubt_def dest: load)
  qed
  then show ?thesis by (auto dest: load)
qed

theorem live_matches_restart_witness:
  "mg_state (boot amd64_oob MemStore cap_registry (mg_store cap_history)) ''cap'' = Some (AInt64 7)"
proof -
  have c: "config_store MemStore (\<lambda>s. s)" by (rule mem.config_store_axioms)
  have l: "so_LoadAll MemStore (mg_store cap_history) = Inr (mg_store cap_history)"
    by (simp add: MemStore_def mem_LoadAll_def)
  show ?thesis
    using live_matches_restart[OF c cap_history_history cap_lookup(1,3), of "mg_store cap_history"] l
    by (simp only: cap_history(2) cap_step(2) simp_thms empty_iff)
qed

end
