(* ===== verification/PgxRefinement.thy ===== *)
theory PgxRefinement
  imports PgxStore RuntimeCorrect "HOL-Library.AList"
begin

text \<open>
  The Postgres store refines the in-memory one: a manager over it, seen through the contents of its
  table, does exactly what the manager over \<open>MemStore\<close> does, as long as the database answers.
\<close>

subsection \<open>What the database does\<close>

text \<open>The statements of a store over a table whose contents are \<open>contents\<close>: a query that succeeds
  throughout returns every row once; a statement that succeeds has changed the one row, with the
  document as \<open>jsonb\<close> keeps it; one that failed may have reached the table.\<close>

definition sql_table :: "'d pg_Store \<Rightarrow> (raw_message \<Rightarrow> raw_message) \<Rightarrow> ('d \<Rightarrow> overrides) \<Rightarrow> bool" where
  "sql_table st jsonb contents \<longleftrightarrow>
     (\<forall>d rows kvs. q_Query (pg_db st) (pg_selectSQL st) d = Inr rows \<and> rows_scan rows = List.map Inr kvs \<and> rows_err rows = None
        \<longrightarrow> distinct (List.map fst kvs) \<and> map_of kvs = contents d) \<and>
     (\<forall>d k v e d'. q_Exec (pg_db st) (pg_upsertSQL st) [TextArg k, JsonArg v] d = (e, d')
        \<longrightarrow> contents d' = (contents d)(k \<mapsto> jsonb v) \<or> e \<noteq> None \<and> contents d' = contents d) \<and>
     (\<forall>d k e d'. q_Exec (pg_db st) (pg_deleteSQL st) [TextArg k] d = (e, d')
        \<longrightarrow> contents d' = (contents d)(k := None) \<or> e \<noteq> None \<and> contents d' = contents d)"

lemma sql_table_writes:
  assumes "sql_table st jsonb contents"
  shows "q_Exec (pg_db st) (pg_upsertSQL st) [TextArg k, JsonArg v] d = (e, d')
      \<Longrightarrow> contents d' = (contents d)(k \<mapsto> jsonb v) \<or> e \<noteq> None \<and> contents d' = contents d"
    "q_Exec (pg_db st) (pg_deleteSQL st) [TextArg k] d = (e, d')
      \<Longrightarrow> contents d' = (contents d)(k := None) \<or> e \<noteq> None \<and> contents d' = contents d"
  using assms unfolding sql_table_def by simp_all

lemma scan_rows_Inr: "scan_rows t rs out = Inr m \<Longrightarrow> \<exists>kvs. rs = List.map Inr kvs \<and> m = foldl (\<lambda>m (k, v). m(k \<mapsto> v)) out kvs"
proof (induction t rs out rule: scan_rows.induct)
  case (3 table k v rs out)
  have "scan_rows table rs (out(k \<mapsto> v)) = Inr m" using "3.prems" by (simp del: fun_upd_apply)
  from "3.IH"[OF this] obtain kvs where kvs: "rs = List.map Inr kvs" "m = foldl (\<lambda>m (k, v). m(k \<mapsto> v)) (out(k \<mapsto> v)) kvs"
    by (elim exE conjE)
  show ?case by (intro exI[of _ "(k, v) # kvs"] conjI) (simp_all add: kvs del: fun_upd_apply)
qed simp_all

lemma fold_updates: "distinct (List.map fst kvs) \<Longrightarrow> foldl (\<lambda>m (k, v). m(k \<mapsto> v)) out kvs = out ++ map_of kvs"
proof (induction kvs arbitrary: out)
  case (Cons kv kvs)
  obtain k v where kv: "kv = (k, v)" by (cases kv)
  then have "map_of kvs k = None" using Cons.prems by (simp add: map_of_eq_None_iff)
  then show ?case using Cons by (auto simp: kv map_add_def split: option.splits)
qed simp

lemma pg_LoadAll_contents:
  assumes "sql_table st jsonb contents" "pg_LoadAll st d = Inr m" shows "m = contents d"
proof -
  obtain rows where r: "q_Query (pg_db st) (pg_selectSQL st) d = Inr rows" "rows_err rows = None"
    "scan_rows (pg_table st) (rows_scan rows) (\<lambda>_. None) = Inr m"
    using assms(2) by (auto simp: pg_LoadAll_def result_simps split: sum.splits option.splits)
  obtain kvs where k: "rows_scan rows = List.map Inr kvs" "m = foldl (\<lambda>m (k, v). m(k \<mapsto> v)) (\<lambda>_. None) kvs"
    using scan_rows_Inr[OF r(3)] by blast
  have "distinct (List.map fst kvs) \<and> map_of kvs = contents d"
    using assms(1) r(1,2) k(1) unfolding sql_table_def by blast
  then show ?thesis using fold_updates[of kvs "\<lambda>_. None"] k(2) by (simp add: map_add_def option.case_eq_if)
qed

lemma pg_writes:
  assumes "sql_table st jsonb contents"
  shows "pg_Upsert st n v d = (e, d') \<Longrightarrow> contents d' = (contents d)(n \<mapsto> jsonb v) \<or> e \<noteq> None \<and> contents d' = contents d"
    "pg_Delete st n d = (e, d') \<Longrightarrow> contents d' = (contents d)(n := None) \<or> e \<noteq> None \<and> contents d' = contents d"
proof -
  show "contents d' = (contents d)(n \<mapsto> jsonb v) \<or> e \<noteq> None \<and> contents d' = contents d" if "pg_Upsert st n v d = (e, d')"
  proof -
    obtain e0 d0 where q: "q_Exec (pg_db st) (pg_upsertSQL st) [TextArg n, JsonArg v] d = (e0, d0)" by fastforce
    have e0: "d0 = d'" "e0 = None \<longleftrightarrow> e = None" using that q by (cases e0; auto simp: pg_Upsert_def)+
    show ?thesis using sql_table_writes(1)[OF assms q] e0 by simp
  qed
  show "contents d' = (contents d)(n := None) \<or> e \<noteq> None \<and> contents d' = contents d" if "pg_Delete st n d = (e, d')"
  proof -
    obtain e0 d0 where q: "q_Exec (pg_db st) (pg_deleteSQL st) [TextArg n] d = (e0, d0)" by fastforce
    have e0: "d0 = d'" "e0 = None \<longleftrightarrow> e = None" using that q by (cases e0; auto simp: pg_Delete_def)+
    show ?thesis using sql_table_writes(2)[OF assms q] e0 by simp
  qed
qed

text \<open>With a column that keeps documents as they are the Postgres store is a store in the sense of the
  manager's contract.\<close>

lemma pg_config_store:
  assumes "sql_table st (\<lambda>v. v) contents" shows "config_store (pg_ops st) contents"
proof
  show "m = contents d" if "so_LoadAll (pg_ops st) d = Inr m" for d m
    using pg_LoadAll_contents[OF assms] that by (simp add: pg_ops_def)
qed (use pg_writes(1)[OF assms] pg_writes(2)[OF assms] in \<open>fastforce simp: pg_ops_def\<close>)+

subsection \<open>Operations of a manager\<close>

datatype manager_op = OpApply string raw_message | OpClear string | OpBoot

text \<open>One operation over any store. \<open>Inl\<close>: the store could not be read.\<close>

definition manager_step :: "(f64 \<Rightarrow> int) \<Rightarrow> 's Store \<Rightarrow> manager_op \<Rightarrow> 's Manager
    \<Rightarrow> (store_error + config_error option) \<times> 's Manager" where
  "manager_step oob ops x m =
     (case x of
        OpApply n raw \<Rightarrow> (case Apply oob ops n raw m of (e, m') \<Rightarrow> (Inr e, m'))
      | OpClear n \<Rightarrow> (case Clear ops n m of (e, m') \<Rightarrow> (Inr e, m'))
      | OpBoot \<Rightarrow> (case so_LoadAll ops (mg_store m) of Inl e \<Rightarrow> Inl e | Inr _ \<Rightarrow> Inr None, LoadAtBoot oob ops m))"

fun manager_run :: "(f64 \<Rightarrow> int) \<Rightarrow> 's Store \<Rightarrow> manager_op list \<Rightarrow> 's Manager
    \<Rightarrow> (store_error + config_error option) list \<times> 's Manager" where
  "manager_run oob ops [] m = ([], m)"
| "manager_run oob ops (x # xs) m =
     (case manager_step oob ops x m of (r, m') \<Rightarrow>
      case manager_run oob ops xs m' of (rs, m'') \<Rightarrow> (r # rs, m''))"

definition outage :: "store_error + config_error option \<Rightarrow> bool" where
  "outage r \<longleftrightarrow> (case r of Inl _ \<Rightarrow> True | Inr e \<Rightarrow> store_failure e)"

text \<open>The abstraction: the same manager over the contents of the table.\<close>

definition over_contents :: "('s \<Rightarrow> overrides) \<Rightarrow> 's Manager \<Rightarrow> mem_store Manager" where
  "over_contents contents m = \<lparr>mg_reg = mg_reg m, mg_store = contents (mg_store m), mg_state = mg_state m\<rparr>"

definition stored_op :: "(raw_message \<Rightarrow> raw_message) \<Rightarrow> manager_op \<Rightarrow> manager_op" where
  "stored_op jsonb x = (case x of OpApply n raw \<Rightarrow> OpApply n (jsonb raw) | _ \<Rightarrow> x)"

text \<open>The documents written mean the same to the key they are written for after \<open>jsonb\<close> kept them.\<close>

definition keeps_meaning :: "(f64 \<Rightarrow> int) \<Rightarrow> (raw_message \<Rightarrow> raw_message) \<Rightarrow> Registry \<Rightarrow> manager_op \<Rightarrow> bool" where
  "keeps_meaning oob jsonb r x =
     (case x of OpApply n raw \<Rightarrow> (case Lookup r n of None \<Rightarrow> True
        | Some k \<Rightarrow> validateAgainst oob k (jsonb raw) = validateAgainst oob k raw) | _ \<Rightarrow> True)"

lemma over_contents_simps [simp]:
  "mg_reg (over_contents c m) = mg_reg m" "mg_store (over_contents c m) = c (mg_store m)" "mg_state (over_contents c m) = mg_state m"
  by (simp_all add: over_contents_def)

lemma manager_step_reg: "manager_step oob ops x m = (r, m') \<Longrightarrow> mg_reg m' = mg_reg m"
  by (auto simp: manager_step_def Apply_def Clear_def LoadAtBoot_def
      split: manager_op.splits option.splits sum.splits prod.splits if_splits)

lemma outage_failed [simp]: "outage (Inr (Some (PersistFailed n e)))" "outage (Inr (Some (DeleteFailed n e)))" "outage (Inl s)"
  by (simp_all add: outage_def store_failure_def)

lemma manager_step_refines:
  assumes t: "sql_table st jsonb contents" and k: "keeps_meaning oob jsonb (mg_reg m) x"
    and s: "manager_step oob (pg_ops st) x m = (r, m')" and o: "\<not> outage r"
  shows "manager_step oob MemStore (stored_op jsonb x) (over_contents contents m) = (r, over_contents contents m')"
proof (cases x)
  case (OpApply n raw)
  show ?thesis
  proof (cases "Lookup (mg_reg m) n")
    case (Some key)
    have v: "validateAgainst oob key (jsonb raw) = validateAgainst oob key raw" using k by (simp add: OpApply Some keeps_meaning_def)
    obtain e d' where u: "pg_Upsert st n raw (mg_store m) = (e, d')" by (cases "pg_Upsert st n raw (mg_store m)")
    note w = pg_writes(1)[OF t u]
    show ?thesis
      using s o w by (auto simp: OpApply Some v u stored_op_def manager_step_def Apply_def pg_ops_def MemStore_def mem_Upsert_def
          over_contents_def split: sum.splits option.splits if_splits)
  qed (use s in \<open>auto simp: OpApply stored_op_def manager_step_def Apply_def over_contents_def\<close>)
next
  case (OpClear n)
  obtain e d' where u: "pg_Delete st n (mg_store m) = (e, d')" by (cases "pg_Delete st n (mg_store m)")
  note w = pg_writes(2)[OF t u]
  show ?thesis
    using s o w by (auto simp: OpClear u stored_op_def manager_step_def Clear_def pg_ops_def MemStore_def mem_Delete_def
        over_contents_def split: sum.splits option.splits if_splits)
next
  case OpBoot
  then obtain stored where l: "pg_LoadAll st (mg_store m) = Inr stored"
    using s o by (cases "pg_LoadAll st (mg_store m)") (auto simp: manager_step_def pg_ops_def)
  then show ?thesis
    using s pg_LoadAll_contents[OF t l]
    by (auto simp: OpBoot stored_op_def manager_step_def LoadAtBoot_def pg_ops_def MemStore_def mem_LoadAll_def over_contents_def)
qed

text \<open>C7. A manager over the Postgres store refines the manager over the in-memory store: run any
  sequence of boots, writes and deletes in which the database answers, and the same sequence over
  \<open>MemStore\<close>, started from the contents of the table and given the documents as the column keeps them,
  returns the same results and ends in the abstraction of the same state. The hypotheses are what the
  three statements do to the table and that a written document keeps its meaning for its key.\<close>

theorem pgx_manager_refines:
  assumes "sql_table st jsonb contents" "list_all (keeps_meaning oob jsonb (mg_reg m)) xs"
    and "manager_run oob (pg_ops st) xs m = (rs, m')" "\<not> list_ex outage rs"
  shows "manager_run oob MemStore (List.map (stored_op jsonb) xs) (over_contents contents m) = (rs, over_contents contents m')"
  using assms(2-)
proof (induction xs arbitrary: m rs)
  case (Cons x xs)
  obtain r m1 where s: "manager_step oob (pg_ops st) x m = (r, m1)" by (cases "manager_step oob (pg_ops st) x m")
  obtain rs1 m2 where run: "manager_run oob (pg_ops st) xs m1 = (rs1, m2)" by (cases "manager_run oob (pg_ops st) xs m1")
  have rs: "rs = r # rs1" "m' = m2" using Cons.prems(2) s run by simp_all
  have "manager_step oob MemStore (stored_op jsonb x) (over_contents contents m) = (r, over_contents contents m1)"
    using manager_step_refines[OF assms(1) _ s] Cons.prems(1,3) rs by simp
  moreover have "manager_run oob MemStore (List.map (stored_op jsonb) xs) (over_contents contents m1) = (rs1, over_contents contents m2)"
    using Cons.IH[OF _ run[unfolded rs(2)[symmetric]]] Cons.prems(1,3) rs manager_step_reg[OF s] by simp
  ultimately show ?case by (simp add: rs)
qed simp

text \<open>A database that answers: the table as a list of rows, newest first, whose column writes the number
  \<open>7e0\<close> as \<open>7\<close>.\<close>

definition demo_jsonb :: "raw_message \<Rightarrow> raw_message" where
  "demo_jsonb v = (if v = Some (JNum ''7e0'') then Some (JNum ''7'') else v)"

definition demo_db :: "(string \<times> raw_message) list Querier" where
  "demo_db = \<lparr>q_Query = (\<lambda>_ d. Inr \<lparr>rows_scan = List.map Inr (AList.clearjunk d), rows_err = None\<rparr>),
     q_Exec = (\<lambda>_ args d. case args of
         [TextArg k, JsonArg v] \<Rightarrow> (None, (k, demo_jsonb v) # d)
       | [TextArg k] \<Rightarrow> (None, filter (\<lambda>r. fst r \<noteq> k) d)
       | _ \<Rightarrow> (Some ''unexpected'', d))\<rparr>"

lemma map_of_filter_key: "map_of (filter (\<lambda>r. fst r \<noteq> k) d) = (map_of d)(k := None)"
  by (induction d) auto

lemma demo_table: "pg_db st = demo_db \<Longrightarrow> sql_table st demo_jsonb map_of"
  by (auto simp: sql_table_def demo_db_def map_of_filter_key inj_map_eq_map distinct_clearjunk clearjunk.simps map_of_clearjunk
      simp del: clearjunk.simps)

lemma demo_validate: "validateAgainst amd64_oob cap_key (Some (JNum ''7e0'')) = Inr (AInt64 7)" by code_simp

definition demo_store :: "(string \<times> raw_message) list pg_Store" where
  "demo_store = the (pg_New (\<lambda>s. ''#'' @ s) demo_db)"

lemma demo_store: "pg_New (\<lambda>s. ''#'' @ s) demo_db = Some demo_store" "pg_db demo_store = demo_db"
proof -
  have "tableNameRE DefaultTable" by code_simp
  then show "pg_New (\<lambda>s. ''#'' @ s) demo_db = Some demo_store" "pg_db demo_store = demo_db"
    by (simp_all add: demo_store_def pg_New_def NewWithTable_def quoteTable_def result_simps)
qed

definition demo_ops :: "manager_op list" where
  "demo_ops = [OpBoot, OpApply ''cap'' (Some (JNum ''7e0'')), OpApply ''nope'' None]"

theorem pgx_manager_refines_witness:
  "\<exists>m'. manager_run amd64_oob (pg_ops demo_store) demo_ops (NewManager cap_registry [])
       = ([Inr None, Inr None, Inr (Some ErrUnknownKey)], m')
     \<and> manager_run amd64_oob MemStore (List.map (stored_op demo_jsonb) demo_ops)
         (over_contents map_of (NewManager cap_registry []))
       = ([Inr None, Inr None, Inr (Some ErrUnknownKey)], over_contents map_of m')
     \<and> mg_store m' = [(''cap'', Some (JNum ''7''))]"
proof -
  let ?m = "NewManager cap_registry []"
  have nope: "Lookup cap_registry ''nope'' = None" by (simp add: Lookup_def cap_registry_def)
  have run: "\<exists>m'. manager_run amd64_oob (pg_ops demo_store) demo_ops ?m = ([Inr None, Inr None, Inr (Some ErrUnknownKey)], m')
      \<and> mg_store m' = [(''cap'', Some (JNum ''7''))]"
    by (simp add: demo_ops_def manager_step_def LoadAtBoot_def pg_ops_def pg_LoadAll_def demo_store demo_db_def NewManager_def
        Apply_def cap_lookup demo_validate pg_Upsert_def nope demo_jsonb_def result_simps)
  then obtain m' where m': "manager_run amd64_oob (pg_ops demo_store) demo_ops ?m = ([Inr None, Inr None, Inr (Some ErrUnknownKey)], m')"
    "mg_store m' = [(''cap'', Some (JNum ''7''))]" by blast
  have k: "list_all (keeps_meaning amd64_oob demo_jsonb (mg_reg ?m)) demo_ops"
    by (simp add: demo_ops_def keeps_meaning_def NewManager_def cap_lookup nope demo_jsonb_def demo_validate cap_validate)
  have "manager_run amd64_oob MemStore (List.map (stored_op demo_jsonb) demo_ops) (over_contents map_of ?m)
      = ([Inr None, Inr None, Inr (Some ErrUnknownKey)], over_contents map_of m')"
    by (rule pgx_manager_refines[OF demo_table[OF demo_store(2)] k m'(1)]) (simp add: outage_def store_failure_def)
  then show ?thesis using m' by blast
qed

end
