(* ===== verification/GoRegistry.thy ===== *)
theory GoRegistry
  imports GoPrelude
begin

text \<open>
  The interface of the program's name registries (\<open>Register*\<close> and \<open>Lookup*\<close> of the packages
  \<open>time\<close> and \<open>location\<close>, ADR-001): a lookup returns the last value registered under the name.
  The locale is interpreted on each registry in the theory that models it.
\<close>

locale go_registry =
  fixes reg :: "string \<Rightarrow> 'v \<Rightarrow> 's \<Rightarrow> 's"
    and look :: "'s \<Rightarrow> string \<Rightarrow> 'v option"
  assumes look_reg: "look (reg n v s) m = (if m = n then Some v else look s m)"
begin

lemma look_reg_same [simp]: "look (reg n v s) n = Some v"
  by (simp add: look_reg)

lemma look_reg_other [simp]: "m \<noteq> n \<Longrightarrow> look (reg n v s) m = look s m"
  by (simp add: look_reg)

lemma look_reg_all:
  "look (fold (\<lambda>(n, v). reg n v) kvs s) m
     = (case map_of (rev kvs) m of Some v \<Rightarrow> Some v | None \<Rightarrow> look s m)"
proof (induction kvs arbitrary: s)
  case (Cons kv kvs)
  obtain n v where "kv = (n, v)" by (cases kv)
  with Cons show ?case
    by (auto simp: look_reg map_add_def split: option.splits)
qed simp

lemma look_reg_commute:
  "a \<noteq> b \<Longrightarrow> look (reg a x (reg b y s)) = look (reg b y (reg a x s))"
  by (rule ext) (auto simp: look_reg)

end

end
