(* ===== verification/TimeRange.thy ===== *)
theory TimeRange
  imports GoRFC3339 GoJson GoRegistry
begin

text \<open>
  The package \<open>time\<close> (\<open>src/time/time.go\<close>): reading a time query parameter (a timestamp, a
  range, a range with a step, a list, a shortcut) into a typed value, decoding the same
  values from JSON, and expanding a value into its list of timestamps.

  \<open>ParseTime\<close>, \<open>parseTimeRange\<close>, \<open>parseTimeRangeSlash\<close>, \<open>stepTimestamps\<close>,
  \<open>parseISO8601Duration\<close>, \<open>expandRangeTime\<close> and the others keep the names of the source.
  The clock reading \<open>time.Now()\<close> a shortcut function makes is an argument of the model of
  that function. Error texts are constructors of \<open>time_error\<close>.
\<close>

subsection \<open>Data\<close>

type_synonym TimeRangeType = string

definition TimeTypeSingle :: TimeRangeType where "TimeTypeSingle = ''single''"
definition TimeTypeRange :: TimeRangeType where "TimeTypeRange = ''range''"
definition TimeTypeList :: TimeRangeType where "TimeTypeList = ''list''"

lemmas time_types = TimeTypeSingle_def TimeTypeRange_def TimeTypeList_def

record SingleTime =
  Timestamp :: gotime

record RangeTime =
  Start :: gotime
  End :: gotime
  Resolution :: int

record ListTime =
  Timestamps :: "gotime list"

text \<open>The dynamic type of \<open>TimeRange.Payload\<close>: one of the three structs, a pointer to one
  (\<open>None\<close> is nil), or anything else.\<close>

datatype time_payload =
    PSingle SingleTime
  | PSinglePtr "SingleTime option"
  | PRange RangeTime
  | PRangePtr "RangeTime option"
  | PList ListTime
  | PListPtr "ListTime option"
  | POtherTime

record TimeRange =
  TRType :: TimeRangeType
  TRPayload :: time_payload

definition MaxTimestamps :: int where "MaxTimestamps = 10000"
definition MaxResolutionHours :: int where "MaxResolutionHours = 24 * 366 * 100"

datatype time_error =
    InvalidTimeFormat
  | InvalidRangeFormat
  | BadTimestamp string
  | ResolutionNotInteger string
  | ResolutionNotPositive
  | ResolutionTooLarge int
  | EndNotAfterStart
  | StepNotPositive
  | TooManyTimestamps int
  | MissingStep
  | InvalidStep string
  | StepHoursNotPositive
  | InvalidISODuration string
  | UnsupportedDesignator char
  | DesignatorWithoutValue char
  | ISONumberOutOfRange string
  | TrailingValue
  | ISONotPositive
  | UnknownShortcut
  | MissingValue
  | MissingPayload
  | InvalidPayload
  | UnknownTimeType string
  | NotStringOrObject

subsection \<open>Shortcut registries\<close>

text \<open>A registered function is called at lookup time and reads the clock: a function of the
  instant \<open>time.Now()\<close> returns. The two package-level maps are one state.\<close>

type_synonym 'a shortcut_fn = "gotime \<Rightarrow> 'a"

record time_registry =
  TimeShortcutsMap :: "string \<Rightarrow> gotime shortcut_fn option"
  TimeRangeShortcutsMap :: "string \<Rightarrow> RangeTime shortcut_fn option"

definition RegisterTimeShortcut :: "string \<Rightarrow> gotime shortcut_fn \<Rightarrow> time_registry \<Rightarrow> time_registry" where
  "RegisterTimeShortcut name fn r = r\<lparr>TimeShortcutsMap := (TimeShortcutsMap r)(name \<mapsto> fn)\<rparr>"

definition LookupTimeShortcut :: "time_registry \<Rightarrow> string \<Rightarrow> gotime shortcut_fn option" where
  "LookupTimeShortcut r name = TimeShortcutsMap r name"

definition RegisterTimeRangeShortcut :: "string \<Rightarrow> RangeTime shortcut_fn \<Rightarrow> time_registry \<Rightarrow> time_registry" where
  "RegisterTimeRangeShortcut name fn r =
     r\<lparr>TimeRangeShortcutsMap := (TimeRangeShortcutsMap r)(name \<mapsto> fn)\<rparr>"

definition LookupTimeRangeShortcut :: "time_registry \<Rightarrow> string \<Rightarrow> RangeTime shortcut_fn option" where
  "LookupTimeRangeShortcut r name = TimeRangeShortcutsMap r name"

interpretation time_shortcuts: go_registry RegisterTimeShortcut LookupTimeShortcut
  by unfold_locales (simp add: RegisterTimeShortcut_def LookupTimeShortcut_def)

interpretation range_shortcuts: go_registry RegisterTimeRangeShortcut LookupTimeRangeShortcut
  by unfold_locales (simp add: RegisterTimeRangeShortcut_def LookupTimeRangeShortcut_def)

lemma LookupTimeRangeShortcut_RegisterTimeShortcut [simp]:
  "LookupTimeRangeShortcut (RegisterTimeShortcut n f r) m = LookupTimeRangeShortcut r m"
  by (simp add: RegisterTimeShortcut_def LookupTimeRangeShortcut_def)

lemma LookupTimeRangeShortcut_register_all [simp]:
  "LookupTimeRangeShortcut (fold (\<lambda>(n, f). RegisterTimeShortcut n f) kvs r) m = LookupTimeRangeShortcut r m"
  by (induction kvs arbitrary: r) auto

subsection \<open>Stepping a range\<close>

definition stepCount :: "duration \<Rightarrow> duration \<Rightarrow> int" where
  "stepCount spn step =
     (let count = wrap64 (spn sdiv step + 1)
      in if spn smod step \<noteq> 0 then wrap64 (count + 1) else count)"

text \<open>The loop \<open>for t := start; !t.After(end); t = t.Add(step)\<close>. \<open>stepTimestamps\<close> refuses a
  step that is not positive before it starts the loop; the same test here makes the
  function total.\<close>

function step_loop :: "gotime \<Rightarrow> gotime \<Rightarrow> duration \<Rightarrow> gotime list" where
  "step_loop t end_t step =
     (if 0 < step \<and> \<not> time_after t end_t
      then time_utc t # step_loop (time_add t step) end_t step
      else [])"
  by pat_completeness auto
termination
  by (relation "measure (\<lambda>(t, e, step). nat (t_ns e - t_ns t + 1))") (auto simp: time_after_def)

declare step_loop.simps [simp del]

definition stepTimestamps :: "gotime \<Rightarrow> gotime \<Rightarrow> duration \<Rightarrow> time_error + gotime list" where
  "stepTimestamps start end_t step =
     (if step \<le> 0 then Inl StepNotPositive
      else let count = stepCount (time_sub end_t start) step in
        if count > MaxTimestamps then Inl (TooManyTimestamps count)
        else let ts = step_loop start end_t step in
          Inr (if ts = [] \<or> \<not> time_equal (last ts) (time_utc end_t)
               then ts @ [time_utc end_t] else ts))"

subsection \<open>Durations\<close>

type_synonym iso_units = "char \<Rightarrow> duration option"

definition date_units :: iso_units where
  "date_units c = (if c = CHR ''W'' then Some (7 * 24 * Hour)
                   else if c = CHR ''D'' then Some (24 * Hour) else None)"

definition time_units :: iso_units where
  "time_units c = (if c = CHR ''H'' then Some Hour else if c = CHR ''M'' then Some Minute
                   else if c = CHR ''S'' then Some Second else None)"

text \<open>The closure \<open>accumulate\<close>: \<open>num\<close> is the digit buffer, \<open>tot\<close> the captured sum. Both
  the product and the sum wrap.\<close>

fun accumulate :: "iso_units \<Rightarrow> string \<Rightarrow> string \<Rightarrow> duration \<Rightarrow> time_error + duration" where
  "accumulate units num [] tot = (if num \<noteq> [] then Inl TrailingValue else Inr tot)"
| "accumulate units num (ch # part) tot =
     (if is_digit ch then accumulate units (num @ [ch]) part tot
      else (case units ch of
          None \<Rightarrow> Inl (UnsupportedDesignator ch)
        | Some unit \<Rightarrow>
            if num = [] then Inl (DesignatorWithoutValue ch)
            else (case atoi num of
                None \<Rightarrow> Inl (ISONumberOutOfRange num)
              | Some n \<Rightarrow> accumulate units [] part (wrap64 (tot + wrap64 (n * unit))))))"

definition parseISO8601Duration :: "string \<Rightarrow> time_error + duration" where
  "parseISO8601Duration s =
     (let rest = trim_prefix s ''P'' in
      if rest = [] then Inl (InvalidISODuration s)
      else let (datePart, timePart) =
                 (case cut_at CHR ''T'' rest of None \<Rightarrow> (rest, []) | Some (l, r) \<Rightarrow> (l, r)) in
        bind_res (accumulate date_units [] datePart 0) (\<lambda>tot.
        bind_res (accumulate time_units [] timePart tot) (\<lambda>tot.
          if tot \<le> 0 then Inl ISONotPositive else Inr tot)))"

definition parseStepDuration :: "unicode \<Rightarrow> string \<Rightarrow> time_error + duration" where
  "parseStepDuration U s =
     (if s = [] then Inl MissingStep
      else if has_prefix (to_upper U s) ''P'' then parseISO8601Duration (to_upper U s)
      else (case atoi s of
          None \<Rightarrow> Inl (InvalidStep s)
        | Some hours \<Rightarrow> if hours \<le> 0 then Inl StepHoursNotPositive else Inr (wrap64 (hours * Hour))))"

subsection \<open>Parsing\<close>

definition parse_timestamp :: "local_zone \<Rightarrow> string \<Rightarrow> time_error + gotime" where
  "parse_timestamp lz s = of_option (BadTimestamp s) (parse_rfc3339 lz s)"

definition parseTimeShortcut :: "unicode \<Rightarrow> time_registry \<Rightarrow> gotime \<Rightarrow> string \<Rightarrow> time_error + gotime" where
  "parseTimeShortcut U r now shortcut =
     (case LookupTimeShortcut r (to_lower U shortcut) of
        Some fn \<Rightarrow> Inr (fn now) | None \<Rightarrow> Inl UnknownShortcut)"

definition parseSingleTime :: "unicode \<Rightarrow> local_zone \<Rightarrow> time_registry \<Rightarrow> gotime \<Rightarrow> string \<Rightarrow> time_error + TimeRange" where
  "parseSingleTime U lz r now s =
     (case parse_rfc3339 lz s of
        Some t \<Rightarrow> Inr \<lparr>TRType = TimeTypeSingle, TRPayload = PSingle \<lparr>Timestamp = t\<rparr>\<rparr>
      | None \<Rightarrow> (case parseTimeShortcut U r now s of
          Inr t \<Rightarrow> Inr \<lparr>TRType = TimeTypeSingle, TRPayload = PSingle \<lparr>Timestamp = t\<rparr>\<rparr>
        | Inl _ \<Rightarrow> Inl InvalidTimeFormat))"

definition mk_range :: "gotime \<Rightarrow> gotime \<Rightarrow> TimeRange" where
  "mk_range s e = \<lparr>TRType = TimeTypeRange, TRPayload = PRange \<lparr>Start = s, End = e, Resolution = 0\<rparr>\<rparr>"

definition mk_list :: "gotime list \<Rightarrow> TimeRange" where
  "mk_list ts = \<lparr>TRType = TimeTypeList, TRPayload = PList \<lparr>Timestamps = ts\<rparr>\<rparr>"

definition parseTimeRange :: "local_zone \<Rightarrow> string \<Rightarrow> time_error + TimeRange" where
  "parseTimeRange lz rangeStr =
     (let parts = split_on CHR '','' rangeStr in
      if length parts \<noteq> 2 \<and> length parts \<noteq> 3 then Inl InvalidRangeFormat
      else bind_res (parse_timestamp lz (parts ! 0)) (\<lambda>start.
           bind_res (parse_timestamp lz (parts ! 1)) (\<lambda>end_t.
             if length parts < 3 then Inr (mk_range start end_t)
             else (case atoi (parts ! 2) of
                 None \<Rightarrow> Inl (ResolutionNotInteger (parts ! 2))
               | Some hours \<Rightarrow>
                   if hours \<le> 0 then Inl ResolutionNotPositive
                   else if hours > MaxResolutionHours then Inl (ResolutionTooLarge hours)
                   else if \<not> time_after end_t start then Inl EndNotAfterStart
                   else bind_res (stepTimestamps start end_t (wrap64 (hours * Hour)))
                          (\<lambda>ts. Inr (mk_list ts))))))"

definition parseTimeRangeSlash :: "unicode \<Rightarrow> local_zone \<Rightarrow> string \<Rightarrow> time_error + TimeRange" where
  "parseTimeRangeSlash U lz rangeStr =
     (let parts = split_on CHR ''/'' rangeStr in
      if length parts \<noteq> 2 \<and> length parts \<noteq> 3 then Inl InvalidRangeFormat
      else bind_res (parse_timestamp lz (trim_space U (parts ! 0))) (\<lambda>start.
           bind_res (parse_timestamp lz (trim_space U (parts ! 1))) (\<lambda>end_t.
             if \<not> time_after end_t start then Inl EndNotAfterStart
             else if length parts = 2 then Inr (mk_range start end_t)
             else bind_res (parseStepDuration U (trim_space U (parts ! 2))) (\<lambda>step.
                  bind_res (stepTimestamps start end_t step) (\<lambda>ts. Inr (mk_list ts))))))"

fun parse_all :: "local_zone \<Rightarrow> string list \<Rightarrow> time_error + gotime list" where
  "parse_all lz [] = Inr []"
| "parse_all lz (s # ss) =
     bind_res (parse_timestamp lz s) (\<lambda>t. bind_res (parse_all lz ss) (\<lambda>ts. Inr (t # ts)))"

definition parseTimeList :: "local_zone \<Rightarrow> string \<Rightarrow> time_error + TimeRange" where
  "parseTimeList lz listStr =
     (let parts = split_on CHR ''|'' listStr in
      if int (length parts) > MaxTimestamps then Inl (TooManyTimestamps (int (length parts)))
      else bind_res (parse_all lz parts) (\<lambda>ts. Inr (mk_list ts)))"

definition ParseTime :: "unicode \<Rightarrow> local_zone \<Rightarrow> time_registry \<Rightarrow> gotime \<Rightarrow> string \<Rightarrow> time_error + TimeRange" where
  "ParseTime U lz r now s =
     (case LookupTimeRangeShortcut r (to_lower U s) of
        Some fn \<Rightarrow> Inr \<lparr>TRType = TimeTypeRange, TRPayload = PRange (fn now)\<rparr>
      | None \<Rightarrow>
          if contains_char CHR ''|'' s then parseTimeList lz s
          else if contains_char CHR ''/'' s then parseTimeRangeSlash U lz s
          else if contains_char CHR '','' s then parseTimeRange lz s
          else parseSingleTime U lz r now s)"

subsection \<open>Decoding from JSON\<close>

definition decode_time :: "local_zone \<Rightarrow> json \<Rightarrow> gotime \<Rightarrow> gotime option" where
  "decode_time lz j old =
     (case j of JStr s \<Rightarrow> parse_rfc3339 lz s | JNull \<Rightarrow> Some old | _ \<Rightarrow> None)"

definition single_fields :: "local_zone \<Rightarrow> (string \<times> (json \<Rightarrow> SingleTime \<Rightarrow> SingleTime option)) list" where
  "single_fields lz = [field_of ''timestamp'' Timestamp Timestamp_update (decode_time lz)]"

definition range_fields :: "local_zone \<Rightarrow> (string \<times> (json \<Rightarrow> RangeTime \<Rightarrow> RangeTime option)) list" where
  "range_fields lz =
     [field_of ''start'' Start Start_update (decode_time lz),
      field_of ''end'' End End_update (decode_time lz),
      field_of ''resolution'' Resolution Resolution_update decode_int]"

definition list_fields :: "local_zone \<Rightarrow> (string \<times> (json \<Rightarrow> ListTime \<Rightarrow> ListTime option)) list" where
  "list_fields lz =
     [field_of ''timestamps'' Timestamps Timestamps_update (decode_slice (decode_time lz) zero_time)]"

definition check_range_payload :: "RangeTime \<Rightarrow> time_error + time_payload" where
  "check_range_payload p =
     (if Resolution p > MaxResolutionHours then Inl (ResolutionTooLarge (Resolution p))
      else let step = wrap64 (Resolution p * Hour);
               count = stepCount (time_sub (End p) (Start p)) step
           in if Resolution p > 0 \<and> time_after (End p) (Start p) \<and> count > MaxTimestamps
              then Inl (TooManyTimestamps count) else Inr (PRange p))"

definition check_list_payload :: "ListTime \<Rightarrow> time_error + time_payload" where
  "check_list_payload p =
     (if int (length (Timestamps p)) > MaxTimestamps
      then Inl (TooManyTimestamps (int (length (Timestamps p)))) else Inr (PList p))"

definition decodeTimePayload :: "local_zone \<Rightarrow> TimeRangeType \<Rightarrow> raw_message \<Rightarrow> time_error + time_payload" where
  "decodeTimePayload lz t raw =
     (case raw of None \<Rightarrow> Inl MissingPayload
      | Some j \<Rightarrow>
          if t = TimeTypeSingle then
            bind_res (of_option InvalidPayload (decode_struct (single_fields lz) j \<lparr>Timestamp = zero_time\<rparr>))
              (\<lambda>p. Inr (PSingle p))
          else if t = TimeTypeRange then
            bind_res (of_option InvalidPayload
                (decode_struct (range_fields lz) j \<lparr>Start = zero_time, End = zero_time, Resolution = 0\<rparr>))
              check_range_payload
          else if t = TimeTypeList then
            bind_res (of_option InvalidPayload (decode_struct (list_fields lz) j \<lparr>Timestamps = []\<rparr>))
              check_list_payload
          else Inl (UnknownTimeType t))"

record raw_object =
  raw_type :: string
  raw_payload :: raw_message

definition raw_fields :: "(string \<times> (json \<Rightarrow> raw_object \<Rightarrow> raw_object option)) list" where
  "raw_fields =
     [field_of ''type'' raw_type raw_type_update decode_string,
      field_of ''payload'' raw_payload raw_payload_update (\<lambda>j _. Some (Some j))]"

text \<open>\<open>UnmarshalJSON\<close>; the decoder calls it with one complete JSON value.\<close>

definition TimeRange_UnmarshalJSON ::
  "unicode \<Rightarrow> local_zone \<Rightarrow> time_registry \<Rightarrow> gotime \<Rightarrow> json \<Rightarrow> time_error + TimeRange" where
  "TimeRange_UnmarshalJSON U lz r now j =
     (case j of
        JNull \<Rightarrow> Inl MissingValue
      | JStr s \<Rightarrow> ParseTime U lz r now s
      | JObj kvs \<Rightarrow>
          bind_res (of_option InvalidPayload
              (decode_struct raw_fields j \<lparr>raw_type = [], raw_payload = None\<rparr>)) (\<lambda>raw.
          bind_res (decodeTimePayload lz (raw_type raw) (raw_payload raw)) (\<lambda>p.
            Inr \<lparr>TRType = raw_type raw, TRPayload = p\<rparr>))
      | _ \<Rightarrow> Inl NotStringOrObject)"

subsection \<open>Expansion\<close>

text \<open>The coarsened step: the smallest whole number of hours of at least
  \<open>span / (MaxTimestamps - 2)\<close>; the addition before the rounding can wrap.\<close>

definition coarse_step :: "duration \<Rightarrow> duration" where
  "coarse_step spn =
     (let step = spn sdiv (MaxTimestamps - 2)
      in wrap64 (wrap64 (wrap64 (step + Hour) - 1) sdiv Hour * Hour))"

definition expandRangeTime :: "RangeTime \<Rightarrow> gotime list" where
  "expandRangeTime rt =
     (let start = Start rt; end_t = End rt; res = Resolution rt in
      if \<not> time_after end_t start then [start]
      else if res \<le> 0 then [start, end_t]
      else let res = (if res > MaxResolutionHours then MaxResolutionHours else res);
               spn = time_sub end_t start;
               step0 = wrap64 (res * Hour);
               step = (if stepCount spn step0 > MaxTimestamps then coarse_step spn else step0)
        in (case stepTimestamps start end_t step of
              Inl _ \<Rightarrow> [time_utc start, time_utc end_t]
            | Inr out \<Rightarrow> out))"

definition ExpandTimes :: "TimeRange \<Rightarrow> gotime list" where
  "ExpandTimes tr =
     (if TRType tr = TimeTypeSingle then
        (case TRPayload tr of
           PSingle v \<Rightarrow> [Timestamp v]
         | PSinglePtr (Some v) \<Rightarrow> [Timestamp v]
         | _ \<Rightarrow> [])
      else if TRType tr = TimeTypeList then
        (case TRPayload tr of
           PList v \<Rightarrow> Timestamps v
         | PListPtr (Some v) \<Rightarrow> Timestamps v
         | _ \<Rightarrow> [])
      else if TRType tr = TimeTypeRange then
        (case TRPayload tr of
           PList v \<Rightarrow> Timestamps v
         | PListPtr (Some v) \<Rightarrow> Timestamps v
         | PRange rt \<Rightarrow> expandRangeTime rt
         | PRangePtr (Some rt) \<Rightarrow> expandRangeTime rt
         | _ \<Rightarrow> [])
      else [])"

subsection \<open>Shortcut builders\<close>

record TimeShortcut =
  ScType :: string
  ScHours :: "int option"
  ScValue :: string

definition FormatTimeDataToRFC3339 :: "local_zone \<Rightarrow> gotime \<Rightarrow> gotime" where
  "FormatTimeDataToRFC3339 lz t =
     (if t_loc t = UTC \<and> 0 \<le> time_year lz t \<and> time_year lz t \<le> 9999 then truncate_second t
      else (case parse_rfc3339 lz (format_rfc3339 lz t) of None \<Rightarrow> t | Some parsed \<Rightarrow> parsed))"

definition time_shortcut_fn :: "local_zone \<Rightarrow> TimeShortcut \<Rightarrow> gotime shortcut_fn" where
  "time_shortcut_fn lz sc clock =
     (let now = time_utc clock in
      if ScType sc = ''now'' then FormatTimeDataToRFC3339 lz now
      else if ScType sc = ''offset'' then
        (case ScHours sc of
           None \<Rightarrow> FormatTimeDataToRFC3339 lz now
         | Some h \<Rightarrow> FormatTimeDataToRFC3339 lz (time_add (utc_midnight now) (wrap64 (h * Hour))))
      else if ScType sc = ''fixed'' then
        (case parse_rfc3339 lz (ScValue sc) of
           Some t \<Rightarrow> FormatTimeDataToRFC3339 lz (time_utc t)
         | None \<Rightarrow> FormatTimeDataToRFC3339 lz now)
      else FormatTimeDataToRFC3339 lz now)"

definition BuildTimeShortcuts ::
  "local_zone \<Rightarrow> (string \<Rightarrow> TimeShortcut option) \<Rightarrow> (string \<Rightarrow> gotime shortcut_fn option)" where
  "BuildTimeShortcuts lz shortcuts = (\<lambda>name. map_option (time_shortcut_fn lz) (shortcuts name))"

definition range_shortcut_fn :: "local_zone \<Rightarrow> int \<Rightarrow> RangeTime shortcut_fn" where
  "range_shortcut_fn lz hours clock =
     (let now = time_utc clock; start = utc_midnight now;
          end_t = time_add start (wrap64 (hours * Hour))
      in \<lparr>Start = FormatTimeDataToRFC3339 lz start, End = FormatTimeDataToRFC3339 lz end_t,
          Resolution = 1\<rparr>)"

definition BuildRangeTimeShortcuts ::
  "local_zone \<Rightarrow> (string \<Rightarrow> TimeShortcut option) \<Rightarrow> (string \<Rightarrow> RangeTime shortcut_fn option)" where
  "BuildRangeTimeShortcuts lz shortcuts = (\<lambda>name.
     (case shortcuts name of
        None \<Rightarrow> None
      | Some sc \<Rightarrow>
          if ScType sc \<noteq> ''range_offset'' then None
          else (case ScHours sc of
              None \<Rightarrow> None
            | Some h \<Rightarrow> if h \<le> 0 then None else Some (range_shortcut_fn lz h))))"

end
