(* ===== verification/TimeStepping.thy ===== *)
theory TimeStepping
  imports TimeRange
begin

text \<open>
  The stepping and expansion half of the package \<open>time\<close>: what \<open>stepTimestamps\<close> returns,
  how long its result is, and that the coarsening in \<open>expandRangeTime\<close> makes it fit.
\<close>

subsection \<open>The abstract grid\<close>

text \<open>The specification: \<open>n\<close> points from \<open>t\<close>, \<open>step\<close> apart, in UTC.\<close>

definition grid :: "int \<Rightarrow> duration \<Rightarrow> nat \<Rightarrow> gotime list" where
  "grid t step n = map (\<lambda>i. \<lparr>t_ns = t + int i * step, t_loc = UTC\<rparr>) [0..<n]"

lemma length_grid [simp]: "length (grid t step n) = n"
  by (simp add: grid_def)

lemma grid_0 [simp]: "grid t step 0 = []"
  by (simp add: grid_def)

lemma grid_Suc: "grid t step (Suc n) = \<lparr>t_ns = t, t_loc = UTC\<rparr> # grid (t + step) step n"
proof -
  have "[0..<Suc n] = 0 # map Suc [0..<n]" by (simp add: map_Suc_upt upt_conv_Cons)
  then show ?thesis by (simp add: grid_def algebra_simps del: upt_Suc)
qed

lemma grid_snoc: "grid t step (Suc n) = grid t step n @ [\<lparr>t_ns = t + int n * step, t_loc = UTC\<rparr>]"
  by (simp add: grid_def)

lemma time_utc_eq: "time_utc t = \<lparr>t_ns = t_ns t, t_loc = UTC\<rparr>"
  by (simp add: time_utc_def)

lemma step_loop_grid:
  assumes "0 < step" "t_ns t \<le> t_ns e"
  shows "step_loop t e step = grid (t_ns t) step (Suc (nat ((t_ns e - t_ns t) div step)))"
  using assms
proof (induction t e step rule: step_loop.induct)
  case (1 t e step)
  show ?case
  proof (cases "t_ns t + step \<le> t_ns e")
    case True
    have "(t_ns e - t_ns t) div step = (t_ns e - (t_ns t + step)) div step + 1"
      using div_add_self2[of step "t_ns e - (t_ns t + step)"] 1(2) by (simp add: algebra_simps)
    moreover have "0 \<le> (t_ns e - (t_ns t + step)) div step"
      using True 1(2) by (simp add: pos_imp_zdiv_nonneg_iff)
    ultimately have "nat ((t_ns e - t_ns t) div step) = Suc (nat ((t_ns e - (t_ns t + step)) div step))"
      by simp
    with True 1 show ?thesis
      by (subst step_loop.simps) (simp add: time_after_def grid_Suc time_utc_eq)
  next
    case False
    then have "(t_ns e - t_ns t) div step = 0" using 1(2,3) by (intro div_pos_pos_trivial) auto
    with False 1 show ?thesis
      by (subst step_loop.simps, subst step_loop.simps) (simp add: time_after_def grid_Suc time_utc_eq)
  qed
qed

lemma stepCount_eq:
  assumes "0 \<le> s" "s \<le> max_int64" "1 < step"
  shows "stepCount s step = s div step + 1 + (if step dvd s then 0 else 1)"
proof -
  have "s div step \<le> s div 2" using assms by (intro zdiv_mono2) auto
  then have b: "0 \<le> s div step" "s div step \<le> 4611686018427387904"
    using assms by (auto simp: pos_imp_zdiv_nonneg_iff)
  then have "wrap64 (s div step + 1) = s div step + 1" "wrap64 (s div step + 1 + 1) = s div step + 1 + 1"
    by (auto intro!: wrap64_id simp: in_int64_def)
  then show ?thesis
    using assms by (simp add: stepCount_def Let_def sdiv_pos smod_pos dvd_eq_mod_eq_0)
qed

text \<open>The exact result of a stepping that is not refused, for any two instants: the count the
  code checks uses the saturated difference, the list does not.\<close>

lemma stepTimestamps_Inr:
  assumes "stepTimestamps start e step = Inr ts" "t_ns start \<le> t_ns e"
  shows "ts = grid (t_ns start) step (Suc (nat ((t_ns e - t_ns start) div step)))
              @ (if step dvd (t_ns e - t_ns start) then [] else [time_utc e])"
proof -
  let ?d = "t_ns e - t_ns start" and ?g = "step_loop start e step"
  have pos: "0 < step" using assms(1) by (auto simp: stepTimestamps_def split: if_splits)
  have g: "?g = grid (t_ns start) step (Suc (nat (?d div step)))"
    using step_loop_grid[OF pos assms(2)] .
  have last: "t_ns (last ?g) = t_ns start + ?d div step * step"
    using pos assms(2) unfolding g grid_snoc by (simp add: pos_imp_zdiv_nonneg_iff)
  have "?g \<noteq> []" unfolding g by (simp add: grid_Suc)
  moreover have "t_ns (last ?g) = t_ns e \<longleftrightarrow> step dvd ?d"
    unfolding last dvd_eq_mod_eq_0 using div_mult_mod_eq[of ?d step] by arith
  ultimately show ?thesis
    using assms(1) pos unfolding g[symmetric]
    by (auto simp: stepTimestamps_def Let_def time_equal_def split: if_splits)
qed

lemma length_steps:
  assumes "0 < step" "0 \<le> d"
  shows "int (length (grid t step (Suc (nat (d div step))) @ (if step dvd d then [] else [e])))
    = d div step + 1 + (if step dvd d then 0 else 1)"
  using assms by (simp add: pos_imp_zdiv_nonneg_iff)

lemma sorted_wrt_grid: "0 < step \<Longrightarrow> sorted_wrt (\<lambda>a b. t_ns a < t_ns b) (grid t step n)"
  by (simp add: grid_def sorted_wrt_map sorted_wrt_upt)

subsection \<open>Properties\<close>

text \<open>C1. What a range with a step expands to. When the two instants are at most the largest
  duration (292 years) apart, a successful \<open>stepTimestamps\<close> returns exactly \<open>stepCount\<close>
  timestamps, at most \<open>MaxTimestamps\<close>: all of them in UTC, strictly increasing, the first the
  start, the last the end, and no two neighbours further apart than the step.\<close>

theorem stepTimestamps_correct:
  assumes ok: "stepTimestamps start e step = Inr ts"
    and le: "t_ns start \<le> t_ns e" and near: "t_ns e - t_ns start \<le> max_int64" and "1 < step"
  shows "int (length ts) = stepCount (time_sub e start) step \<and> int (length ts) \<le> MaxTimestamps
    \<and> (\<forall>t\<in>set ts. t_loc t = UTC) \<and> sorted_wrt (\<lambda>a b. t_ns a < t_ns b) ts
    \<and> hd ts = time_utc start \<and> last ts = time_utc e
    \<and> (\<forall>i. Suc i < length ts \<longrightarrow> t_ns (ts ! Suc i) - t_ns (ts ! i) \<le> step)"
proof -
  let ?d = "t_ns e - t_ns start"
  let ?n = "nat (?d div step)"
  have sub: "time_sub e start = ?d" using le near by (intro time_sub_exact) (simp add: in_int64_def)
  have pos: "0 < step" using \<open>1 < step\<close> by simp
  have ts: "ts = grid (t_ns start) step (Suc ?n) @ (if step dvd ?d then [] else [time_utc e])"
    using stepTimestamps_Inr[OF ok le] .
  have n: "int ?n = ?d div step" using le pos by (simp add: pos_imp_zdiv_nonneg_iff)
  have len: "int (length ts) = stepCount (time_sub e start) step"
    unfolding sub ts stepCount_eq[of ?d step, OF _ near \<open>1 < step\<close>, simplified, OF le]
    using length_steps[OF pos, of ?d] le by simp
  have cap: "stepCount (time_sub e start) step \<le> MaxTimestamps"
    using ok by (auto simp: stepTimestamps_def Let_def split: if_splits)
  have tail: "t_ns start + int ?n * step < t_ns e" "t_ns e < t_ns start + int ?n * step + step" if "\<not> step dvd ?d"
  proof -
    have "?d \<noteq> ?d div step * step" using that by (metis dvd_triv_right)
    then show "t_ns start + int ?n * step < t_ns e" "t_ns e < t_ns start + int ?n * step + step"
      using div_bounds[OF pos, of ?d] unfolding n by (auto simp: mult.commute)
  qed
  have bound: "t_ns x \<le> t_ns start + int ?n * step" if "x \<in> set (grid (t_ns start) step (Suc ?n))" for x
    using that pos by (auto simp: grid_def simp del: upt_Suc)
  have sorted: "sorted_wrt (\<lambda>a b. t_ns a < t_ns b) ts"
    unfolding ts using sorted_wrt_grid[OF pos, of "t_ns start" "Suc ?n"] bound tail
    by (fastforce simp: sorted_wrt_append simp del: upt_Suc)
  have last: "last ts = time_utc e"
    using n le div_mult_mod_eq[of ?d step]
    by (auto simp: ts grid_snoc time_utc_eq dvd_eq_mod_eq_0)
  have gaps: "t_ns (ts ! Suc i) - t_ns (ts ! i) \<le> step" if "Suc i < length ts" for i
    using that tail pos unfolding ts
    by (auto simp: nth_append grid_def algebra_simps less_Suc_eq simp del: upt_Suc)
  have utc: "\<forall>t\<in>set ts. t_loc t = UTC" by (auto simp: ts grid_def)
  have hd: "hd ts = time_utc start" by (simp add: ts grid_Suc time_utc_eq)
  show ?thesis using len cap utc sorted hd last gaps by simp
qed

theorem stepTimestamps_correct_witness:
  "\<exists>ts. stepTimestamps \<lparr>t_ns = 0, t_loc = Local\<rparr> \<lparr>t_ns = 7 * Hour, t_loc = UTC\<rparr> (3 * Hour) = Inr ts
     \<and> int (length ts) = 4 \<and> last ts = \<lparr>t_ns = 7 * Hour, t_loc = UTC\<rparr>"
proof -
  let ?s = "\<lparr>t_ns = 0, t_loc = Local\<rparr>" and ?e = "\<lparr>t_ns = 7 * Hour, t_loc = UTC\<rparr>"
  have c: "stepCount (time_sub ?e ?s) (3 * Hour) = 4"
    by (simp add: stepCount_eq time_sub_def)
  then obtain ts where ts: "stepTimestamps ?s ?e (3 * Hour) = Inr ts"
    by (simp add: stepTimestamps_def MaxTimestamps_def Let_def)
  show ?thesis using stepTimestamps_correct[OF ts] c ts by (auto simp: time_utc_eq)
qed

text \<open>\<open>stepTimestamps\<close> always returns, and it refuses exactly two things: a step that is not
  positive, and a step whose \<open>stepCount\<close> over the (saturated) span exceeds \<open>MaxTimestamps\<close>.
  There is no other failure.\<close>

lemma stepTimestamps_total:
  "(\<exists>ts. stepTimestamps start e step = Inr ts) \<longleftrightarrow>
     0 < step \<and> stepCount (time_sub e start) step \<le> MaxTimestamps"
  by (auto simp: stepTimestamps_def Let_def)

subsection \<open>Expanding a range value\<close>

lemma time_sub_after:
  assumes "time_after e s" "t_ns e - t_ns s \<le> max_int64"
  shows "time_sub e s = t_ns e - t_ns s" "0 < time_sub e s"
  using assms by (auto simp: time_after_def time_sub_def)

lemma wrap_hours:
  assumes "0 < h" "h \<le> MaxResolutionHours"
  shows "wrap64 (h * Hour) = h * Hour"
  using assms by (intro wrap64_id) (simp add: in_int64_def MaxResolutionHours_def)

lemma coarse_step_bounds:
  assumes "0 \<le> s" "s \<le> max_int64" "stepCount s st > MaxTimestamps" "Hour \<le> st"
  shows "Hour \<le> coarse_step s" "s div 9998 \<le> coarse_step s" "Hour \<le> s div 9998"
proof -
  define q where "q = s div 9998"
  have "s div st \<le> s div Hour" using assms by (intro zdiv_mono2) auto
  moreover have "9999 \<le> s div st"
    using assms by (auto simp: stepCount_eq MaxTimestamps_def split: if_splits)
  ultimately have "9999 \<le> s div Hour" by linarith
  then have big: "9999 * Hour \<le> s" using div_bounds[of Hour s] by linarith
  then have q: "Hour \<le> q" "q \<le> max_int64 div 9998"
    unfolding q_def using div_bounds[of 9998 s] zdiv_mono1[OF assms(2), of 9998] by linarith+
  define k where "k = (q + Hour - 1) div Hour"
  have k: "q \<le> k * Hour" "k * Hour < q + Hour"
    unfolding k_def using div_bounds[of Hour "q + Hour - 1"] by linarith+
  have "coarse_step s = wrap64 (wrap64 (wrap64 (q + Hour) - 1) sdiv Hour * Hour)"
    using assms(1) by (simp add: coarse_step_def Let_def MaxTimestamps_def sdiv_pos q_def)
  also have "\<dots> = k * Hour"
    using q k by (simp add: wrap64_id in_int64_def sdiv_pos k_def)
  finally show "Hour \<le> coarse_step s" "s div 9998 \<le> coarse_step s" "Hour \<le> s div 9998"
    using q k unfolding q_def by linarith+
qed

lemma coarse_step_fits:
  assumes "0 \<le> s" "s \<le> max_int64" "stepCount s st > MaxTimestamps" "Hour \<le> st"
  shows "stepCount s (coarse_step s) \<le> MaxTimestamps"
proof -
  note b = coarse_step_bounds[OF assms]
  let ?c = "coarse_step s"
  have s: "s < 9998 * (s div 9998) + 9998" using div_bounds[of 9998 s] by simp
  then have "s < 9998 * ?c + ?c" using b by linarith
  then have "s div ?c < 9999" using b(1) by (intro div_lessI) auto
  then show ?thesis using assms b(1) by (simp add: stepCount_eq MaxTimestamps_def)
qed

text \<open>The range arm of the expansion, by cases: a range that does not advance, a range without a
  resolution, and a stepped one, whose step is the resolution when that fits.\<close>

definition effective_step :: "RangeTime \<Rightarrow> duration" where
  "effective_step rt =
     (let s = time_sub (End rt) (Start rt); st = min (Resolution rt) MaxResolutionHours * Hour
      in if stepCount s st > MaxTimestamps then coarse_step s else st)"

lemma expandRangeTime_stepped:
  assumes "time_after (End rt) (Start rt)" "0 < Resolution rt"
  shows "expandRangeTime rt = (case stepTimestamps (Start rt) (End rt) (effective_step rt) of
      Inl _ \<Rightarrow> [time_utc (Start rt), time_utc (End rt)] | Inr out \<Rightarrow> out)"
proof -
  have "(if Resolution rt > MaxResolutionHours then MaxResolutionHours else Resolution rt)
      = min (Resolution rt) MaxResolutionHours"
    by (simp add: min_def)
  moreover have "wrap64 (min (Resolution rt) MaxResolutionHours * Hour) = min (Resolution rt) MaxResolutionHours * Hour"
    using assms by (intro wrap_hours) (auto simp: MaxResolutionHours_def)
  ultimately show ?thesis
    using assms by (simp add: expandRangeTime_def effective_step_def Let_def)
qed

lemma effective_step_ok:
  assumes "time_after (End rt) (Start rt)" "0 < Resolution rt" "t_ns (End rt) - t_ns (Start rt) \<le> max_int64"
  shows "Hour \<le> effective_step rt"
    "stepCount (time_sub (End rt) (Start rt)) (effective_step rt) \<le> MaxTimestamps"
proof -
  let ?s = "time_sub (End rt) (Start rt)" and ?st = "min (Resolution rt) MaxResolutionHours * Hour"
  have s: "0 \<le> ?s" "?s \<le> max_int64" using time_sub_after[OF assms(1,3)] assms(3) by auto
  have st: "Hour \<le> ?st" using assms(2) by (auto simp: MaxResolutionHours_def min_def)
  show "Hour \<le> effective_step rt" "stepCount ?s (effective_step rt) \<le> MaxTimestamps"
    using coarse_step_bounds(1)[OF s _ st] coarse_step_fits[OF s _ st] st
    by (auto simp: effective_step_def Let_def)
qed

text \<open>C2. \<open>expandRangeTime\<close> on a range with a positive resolution whose ends are at most 292 years
  apart: the coarsening always makes the stepping succeed (the error arm, start and end alone,
  is unreachable), so the result starts at the start, ends at the end, is strictly increasing
  and has at most \<open>MaxTimestamps\<close> entries, however small the resolution.\<close>

theorem expandRangeTime_bounded:
  assumes "time_after (End rt) (Start rt)" "0 < Resolution rt"
    and "t_ns (End rt) - t_ns (Start rt) \<le> max_int64"
  shows "stepTimestamps (Start rt) (End rt) (effective_step rt) = Inr (expandRangeTime rt)
    \<and> int (length (expandRangeTime rt)) \<le> MaxTimestamps
    \<and> hd (expandRangeTime rt) = time_utc (Start rt) \<and> last (expandRangeTime rt) = time_utc (End rt)
    \<and> sorted_wrt (\<lambda>a b. t_ns a < t_ns b) (expandRangeTime rt)"
proof -
  note e = effective_step_ok[OF assms]
  obtain ts where ts: "stepTimestamps (Start rt) (End rt) (effective_step rt) = Inr ts"
    using stepTimestamps_total e by fastforce
  then have "expandRangeTime rt = ts" using expandRangeTime_stepped[OF assms(1,2)] by simp
  moreover have "t_ns (Start rt) \<le> t_ns (End rt)" using assms(1) by (simp add: time_after_def)
  ultimately show ?thesis using stepTimestamps_correct[OF ts _ assms(3)] e(1) ts by simp
qed

text \<open>A range of 20000 hours at hourly resolution is over the cap: it is coarsened to a step of
  three hours.\<close>

theorem expandRangeTime_bounded_witness:
  "\<exists>rt. stepCount (time_sub (End rt) (Start rt)) (Resolution rt * Hour) > MaxTimestamps
     \<and> effective_step rt = 3 * Hour
     \<and> int (length (expandRangeTime rt)) \<le> MaxTimestamps
     \<and> last (expandRangeTime rt) = time_utc (End rt)"
proof -
  let ?rt = "\<lparr>Start = \<lparr>t_ns = 0, t_loc = UTC\<rparr>, End = \<lparr>t_ns = 20000 * Hour, t_loc = UTC\<rparr>, Resolution = 1\<rparr>"
  have h: "time_after (End ?rt) (Start ?rt)" "0 < Resolution ?rt" "t_ns (End ?rt) - t_ns (Start ?rt) \<le> max_int64"
    by (simp_all add: time_after_def)
  have "stepCount (time_sub (End ?rt) (Start ?rt)) (Resolution ?rt * Hour) > MaxTimestamps"
    "effective_step ?rt = 3 * Hour"
    by code_simp+
  with expandRangeTime_bounded[OF h] show ?thesis by blast
qed

end
