(* ===== verification/TimeParsing.thy ===== *)
theory TimeParsing
  imports TimeStepping
begin

text \<open>
  The parsing half of the package \<open>time\<close>: ISO 8601 durations, the step of a range, the forms
  \<open>ParseTime\<close> accepts, the bounds of the values it returns, and where the arithmetic wraps.
\<close>

subsection \<open>ISO 8601 durations\<close>

text \<open>The printer the parser inverts: components such as \<open>12H\<close>.\<close>

definition render :: "(nat \<times> char) list \<Rightarrow> string" where
  "render xs = concat (List.map (\<lambda>(n, c). nat_to_string n @ [c]) xs)"

definition iso_sum :: "iso_units \<Rightarrow> (nat \<times> char) list \<Rightarrow> int" where
  "iso_sum units xs = (\<Sum>(n, c)\<leftarrow>xs. int n * the (units c))"

definition iso_print :: "(nat \<times> char) list \<Rightarrow> (nat \<times> char) list \<Rightarrow> string" where
  "iso_print ds ts = ''P'' @ render ds @ (if ts = [] then [] else CHR ''T'' # render ts)"

lemma render_Nil [simp]: "render [] = []"
  by (simp add: render_def)

lemma render_Cons: "render ((n, c) # xs) = nat_to_string n @ c # render xs"
  by (simp add: render_def)

lemma iso_sum_Cons: "iso_sum units ((n, c) # xs) = int n * the (units c) + iso_sum units xs"
  by (simp add: iso_sum_def)

lemma accumulate_digits:
  "list_all is_digit ds \<Longrightarrow> accumulate units num (ds @ rest) tot = accumulate units (num @ ds) rest tot"
  by (induction ds arbitrary: num) auto

lemma date_units_pos: "date_units c = Some u \<Longrightarrow> 0 < u \<and> \<not> is_digit c"
  by (auto simp: date_units_def is_digit_def byte_def split: if_splits)

lemma time_units_pos: "time_units c = Some u \<Longrightarrow> 0 < u \<and> \<not> is_digit c"
  by (auto simp: time_units_def is_digit_def byte_def split: if_splits)

lemma iso_sum_nonneg:
  "(\<And>c u. units c = Some u \<Longrightarrow> 0 < u) \<Longrightarrow> \<forall>(n, c)\<in>set xs. units c \<noteq> None \<Longrightarrow> 0 \<le> iso_sum units xs"
proof (induction xs)
  case (Cons x xs)
  then show ?case by (cases x) (fastforce simp: iso_sum_Cons intro!: add_nonneg_nonneg mult_nonneg_nonneg)
qed (simp add: iso_sum_def)

lemma accumulate_render:
  assumes u: "\<And>c u. units c = Some u \<Longrightarrow> 0 < u \<and> \<not> is_digit c"
    and "\<forall>(n, c)\<in>set xs. units c \<noteq> None" "0 \<le> tot" "tot + iso_sum units xs \<le> max_int64"
  shows "accumulate units [] (render xs) tot = Inr (tot + iso_sum units xs)"
  using assms(2-4)
proof (induction xs arbitrary: tot)
  case Nil
  then show ?case by (simp add: iso_sum_def)
next
  case (Cons x xs)
  obtain n c where x: "x = (n, c)" by (cases x)
  obtain un where un: "units c = Some un" "0 < un" "\<not> is_digit c" using Cons.prems(1) u x by auto
  have rest: "0 \<le> iso_sum units xs" using u Cons.prems(1) by (intro iso_sum_nonneg) auto
  have tot: "tot + int n * un + iso_sum units xs \<le> max_int64"
    using Cons.prems(3) un by (simp add: x iso_sum_Cons)
  have prod: "0 \<le> int n * un" "int n \<le> int n * un" using un(2) by (auto simp: mult_le_cancel_left1)
  have w: "wrap64 (tot + wrap64 (int n * un)) = tot + int n * un"
    using Cons.prems(2) rest tot prod by (simp add: wrap64_id in_int64_def)
  have a: "atoi (nat_to_string n) = Some (int n)"
    using Cons.prems(2) rest tot prod by (intro atoi_nat_to_string) linarith
  have "accumulate units [] (render (x # xs)) tot = accumulate units [] (render xs) (tot + int n * un)"
    by (simp add: x render_Cons accumulate_digits un a w)
  also have "\<dots> = Inr (tot + int n * un + iso_sum units xs)"
    using Cons.prems(1,2) tot prod by (intro Cons.IH) auto
  finally show ?case by (simp add: x iso_sum_Cons un)
qed

lemma render_no_T: "\<forall>(n, c)\<in>set xs. date_units c \<noteq> None \<Longrightarrow> CHR ''T'' \<notin> set (render xs)"
proof (induction xs)
  case (Cons x xs)
  obtain n c where x: "x = (n, c)" by (cases x)
  have "CHR ''T'' \<notin> set (nat_to_string n)"
    using digits_nat_to_string[of n] by (auto simp: list_all_iff is_digit_def byte_def)
  with Cons show ?case by (auto simp: x render_Cons date_units_def split: if_splits)
qed simp

lemma render_eq_Nil [simp]: "render xs = [] \<longleftrightarrow> xs = []"
  by (cases xs) (auto simp: render_Cons split_paired_all)

text \<open>C28. Reading a printed ISO 8601 duration of weeks and days, then hours, minutes and
  seconds, gives back the exact sum of its components, whenever that sum is positive and
  fits a \<open>Duration\<close>.\<close>

theorem parseISO8601Duration_print:
  assumes "\<forall>(n, c)\<in>set ds. date_units c \<noteq> None" "\<forall>(n, c)\<in>set ts. time_units c \<noteq> None"
    and "0 < iso_sum date_units ds + iso_sum time_units ts"
    and "iso_sum date_units ds + iso_sum time_units ts \<le> max_int64"
  shows "parseISO8601Duration (iso_print ds ts) = Inr (iso_sum date_units ds + iso_sum time_units ts)"
proof -
  have nn: "0 \<le> iso_sum date_units ds" "0 \<le> iso_sum time_units ts"
    by (rule iso_sum_nonneg, use date_units_pos time_units_pos in blast, use assms(1,2) in blast)+
  have d: "accumulate date_units [] (render ds) 0 = Inr (iso_sum date_units ds)"
    using accumulate_render[where units = date_units and xs = ds and tot = 0, OF date_units_pos] assms nn by simp
  have t: "accumulate time_units [] (render ts) (iso_sum date_units ds)
      = Inr (iso_sum date_units ds + iso_sum time_units ts)"
    using accumulate_render[where units = time_units and xs = ts and tot = "iso_sum date_units ds", OF time_units_pos] assms nn by simp
  have e: "iso_sum units [] = 0" for units by (simp add: iso_sum_def)
  have cut: "cut_at CHR ''T'' (render ds @ CHR ''T'' # render ts) = Some (render ds, render ts)"
    "cut_at CHR ''T'' (render ds) = None"
    using render_no_T[OF assms(1)] by (auto simp: cut_at_Some cut_at_None)
  show ?thesis
  proof (cases "ts = []")
    case True
    with assms(3) have "ds \<noteq> []" by (auto simp: e)
    with True d t cut(2) assms(3) show ?thesis
      by (simp add: parseISO8601Duration_def iso_print_def trim_prefix_def Let_def e)
  next
    case False
    with d t cut(1) assms(3) show ?thesis
      by (simp add: parseISO8601Duration_def iso_print_def trim_prefix_def Let_def)
  qed
qed

theorem parseISO8601Duration_print_witness:
  "parseISO8601Duration (iso_print [(1, CHR ''D'')] [(12, CHR ''H''), (30, CHR ''M'')])
     = Inr (36 * Hour + 30 * Minute)"
  using parseISO8601Duration_print[of "[(1, CHR ''D'')]" "[(12, CHR ''H''), (30, CHR ''M'')]"]
  by (simp add: iso_sum_def date_units_def time_units_def)

lemma accumulate_in_int64:
  "in_int64 tot \<Longrightarrow> accumulate units num part tot = Inr d \<Longrightarrow> in_int64 d"
  by (induction units num part tot rule: accumulate.induct) (auto split: if_splits option.splits)

text \<open>Whatever the input, an accepted ISO 8601 duration is a positive \<open>int64\<close>. (It need not
  be the duration the text denotes: see the next property.)\<close>

lemma parseISO8601Duration_positive:
  "parseISO8601Duration s = Inr d \<Longrightarrow> 0 < d \<and> in_int64 d"
  by (auto simp: parseISO8601Duration_def Let_def result_simps split: if_splits option.splits prod.splits
      intro: accumulate_in_int64 dest!: accumulate_in_int64[rotated] simp: in_int64_def)

lemma parseISO8601Duration_positive_witness:
  "parseISO8601Duration ''PT90S'' = Inr (90 * Second) \<and> 0 < 90 * Second \<and> in_int64 (90 * Second)"
proof -
  have "parseISO8601Duration ''PT90S'' = Inr (90 * Second)" by code_simp
  with parseISO8601Duration_positive[OF this] show ?thesis by simp
qed

text \<open>The arithmetic of a range step wraps silently. 213504 days (584 years) is read as a
  step of 25 minutes and 26 seconds; the same number of hours in the bare-integer form of a
  slash range (which, unlike the comma form, has no \<open>MaxResolutionHours\<close> test) likewise; and
  2562048 hours is read as a negative step although the function promises a positive one.\<close>

lemma parseStepDuration_wraps:
  "parseStepDuration U ''P213504D'' = Inr 1526290448384
   \<and> parseStepDuration U ''5124096'' = Inr 1526290448384
   \<and> parseStepDuration U ''2562048'' = Inr (-9223371273709551616)
   \<and> 213504 * (24 * Hour) = 5124096 * Hour \<and> 1526290448384 < 26 * Minute"
proof -
  have u: "to_upper U ''P213504D'' = ''P213504D''" "to_upper U ''5124096'' = ''5124096''"
    "to_upper U ''2562048'' = ''2562048''"
    by (simp_all add: to_upper_def is_ascii_def ascii_upper_def byte_def)
  have "parseISO8601Duration ''P213504D'' = Inr 1526290448384" by code_simp
  moreover have "atoi ''5124096'' = Some 5124096" "atoi ''2562048'' = Some 2562048" by code_simp+
  ultimately show ?thesis
    by (simp add: parseStepDuration_def u wrap64_def)
qed

subsection \<open>The forms of a time parameter\<close>

definition well_typed_time :: "TimeRange \<Rightarrow> bool" where
  "well_typed_time tr \<longleftrightarrow>
     (TRType tr = TimeTypeSingle \<and> (\<exists>v. TRPayload tr = PSingle v))
     \<or> (TRType tr = TimeTypeRange \<and> (\<exists>v. TRPayload tr = PRange v))
     \<or> (TRType tr = TimeTypeList \<and> (\<exists>v. TRPayload tr = PList v))"

lemma stepTimestamps_neq_Nil: "stepTimestamps s e step = Inr ts \<Longrightarrow> ts \<noteq> []"
  by (auto simp: stepTimestamps_def Let_def split: if_splits)

lemma expandRangeTime_neq_Nil: "expandRangeTime rt \<noteq> []"
  by (auto simp: expandRangeTime_def Let_def dest: stepTimestamps_neq_Nil split: sum.splits)

lemma parse_all_length: "parse_all lz ss = Inr ts \<Longrightarrow> length ts = length ss"
  by (induction ss arbitrary: ts) (auto simp: result_simps)

lemma even_wrap64: "even (wrap64 x) \<longleftrightarrow> even x"
  using wrap64_cong[of x] by auto

lemma accumulate_even:
  "(\<And>c u. units c = Some u \<Longrightarrow> even u) \<Longrightarrow> even tot \<Longrightarrow> accumulate units num part tot = Inr d \<Longrightarrow> even d"
  by (induction units num part tot rule: accumulate.induct)
    (auto simp: even_wrap64 split: if_splits option.splits)

lemma parseStepDuration_even: "parseStepDuration U s = Inr d \<Longrightarrow> even d"
proof -
  have u: "even u" if "date_units c = Some u \<or> time_units c = Some u" for c u
    using that by (auto simp: date_units_def time_units_def split: if_splits)
  assume "parseStepDuration U s = Inr d"
  then show ?thesis
    by (auto simp: parseStepDuration_def parseISO8601Duration_def Let_def result_simps u
        split: if_splits option.splits prod.splits
        simp: even_wrap64 intro: accumulate_even[where units = time_units, OF u]
          accumulate_even[where units = date_units, OF u])
qed

lemma stepTimestamps_pos: "stepTimestamps a b step = Inr ts \<Longrightarrow> 0 < step"
  by (auto simp: stepTimestamps_def split: if_splits)

lemma ParseTime_cases:
  assumes "ParseTime U lz r now s = Inr tr"
  obtains (single) t where "tr = \<lparr>TRType = TimeTypeSingle, TRPayload = PSingle \<lparr>Timestamp = t\<rparr>\<rparr>"
  | (shortcut) fn where "LookupTimeRangeShortcut r (to_lower U s) = Some fn"
      "tr = \<lparr>TRType = TimeTypeRange, TRPayload = PRange (fn now)\<rparr>"
  | (range) a b where "tr = mk_range a b"
  | (stepped) a b step ts where "time_after b a" "1 < step" "stepTimestamps a b step = Inr ts" "tr = mk_list ts"
  | (listed) ts where "parse_all lz (split_on CHR ''|'' s) = Inr ts" "int (length (split_on CHR ''|'' s)) \<le> MaxTimestamps" "tr = mk_list ts"
proof -
  have comma: "1 < wrap64 (h * Hour)" if "\<not> h \<le> 0" "\<not> MaxResolutionHours < h" for h
    using that wrap_hours[of h] by simp
  have slash: "1 < d" if "parseStepDuration U x = Inr d" "stepTimestamps a b d = Inr ts" for x a b d ts
    using parseStepDuration_even[OF that(1)] stepTimestamps_pos[OF that(2)] by (cases "d = 1") auto
  show ?thesis
    using assms single shortcut range stepped[OF _ comma] stepped[OF _ slash] listed
    by (auto simp: ParseTime_def parseTimeList_def parseTimeRangeSlash_def parseTimeRange_def parseSingleTime_def
        Let_def result_simps split: if_splits option.splits sum.splits)
qed

lemmas expand_simps = ExpandTimes_def mk_list_def mk_range_def time_types

lemma ParseTime_well_typed_aux: "ParseTime U lz r now s = Inr tr \<Longrightarrow> well_typed_time tr"
  by (erule ParseTime_cases) (auto simp: well_typed_time_def expand_simps)

text \<open>C4. What \<open>ParseTime\<close> returns: the payload is the struct its type names, so the type
  assertions of \<open>ExpandTimes\<close> succeed, and the expansion is never empty.\<close>

theorem ParseTime_well_typed:
  assumes "ParseTime U lz r now s = Inr tr"
  shows "well_typed_time tr \<and> ExpandTimes tr \<noteq> []"
proof (rule conjI[OF ParseTime_well_typed_aux[OF assms]], use assms in \<open>cases rule: ParseTime_cases\<close>)
  case (listed ts)
  then have "ts \<noteq> []" by (auto dest: parse_all_length)
  with listed show "ExpandTimes tr \<noteq> []" by (simp add: expand_simps)
qed (auto simp: expand_simps expandRangeTime_neq_Nil dest: stepTimestamps_neq_Nil)

definition no_shortcuts :: time_registry where
  "no_shortcuts = \<lparr>TimeShortcutsMap = (\<lambda>_. None), TimeRangeShortcutsMap = (\<lambda>_. None)\<rparr>"

theorem ParseTime_well_typed_witness:
  "\<exists>tr. ParseTime ascii_only (\<lambda>_. 0) no_shortcuts zero_time ''2026-01-01T00:00:00Z,2026-01-01T07:00:00Z,3'' = Inr tr
     \<and> well_typed_time tr \<and> ExpandTimes tr \<noteq> []"
proof -
  let ?r = "ParseTime ascii_only (\<lambda>_. 0) no_shortcuts zero_time ''2026-01-01T00:00:00Z,2026-01-01T07:00:00Z,3''"
  have "isl ?r = False" by code_simp
  then obtain tr where "?r = Inr tr" by (cases ?r) auto
  with ParseTime_well_typed[OF this] show ?thesis by simp
qed

text \<open>The expansion cap. Every list \<open>ParseTime\<close> returns has at most \<open>MaxTimestamps\<close> entries,
  provided the ends of a stepped range are at most the largest \<open>Duration\<close> (292 years) apart.\<close>

lemma ParseTime_list_bounded:
  assumes "ParseTime U lz r now s = Inr \<lparr>TRType = TimeTypeList, TRPayload = PList l\<rparr>"
    and "t_ns (last (Timestamps l)) - t_ns (hd (Timestamps l)) \<le> max_int64"
  shows "int (length (Timestamps l)) \<le> MaxTimestamps"
  using assms(1)
proof (cases rule: ParseTime_cases)
  case (stepped a b step ts)
  have l: "Timestamps l = ts" using stepped(4) by (simp add: mk_list_def)
  have ab: "t_ns a \<le> t_ns b" using stepped(1) by (simp add: time_after_def)
  have st: "0 < step" "stepCount (time_sub b a) step \<le> MaxTimestamps"
    using stepTimestamps_total[of a b step] stepped(3) by auto
  note ts = stepTimestamps_Inr[OF stepped(3) ab]
  have "hd ts = time_utc a" unfolding ts by (simp add: grid_Suc time_utc_eq)
  moreover have "t_ns (last ts) = t_ns b"
  proof (cases "step dvd (t_ns b - t_ns a)")
    case True
    then show ?thesis unfolding ts using st(1) ab
      by (auto simp: grid_snoc pos_imp_zdiv_nonneg_iff)
  qed (simp add: ts)
  ultimately have near: "t_ns b - t_ns a \<le> max_int64" using assms(2) l by (simp add: time_utc_eq)
  show ?thesis using stepTimestamps_correct[OF stepped(3) ab near stepped(2)] l by simp
qed (auto simp: mk_list_def mk_range_def time_types dest: parse_all_length)

theorem ParseTime_list_bounded_witness:
  "\<exists>l. ParseTime ascii_only (\<lambda>_. 0) no_shortcuts zero_time ''2026-01-01T00:00:00Z/2026-01-01T07:00:00Z/PT3H''
       = Inr \<lparr>TRType = TimeTypeList, TRPayload = PList l\<rparr>
     \<and> int (length (Timestamps l)) \<le> MaxTimestamps"
proof -
  let ?s = "''2026-01-01T00:00:00Z/2026-01-01T07:00:00Z/PT3H''"
  let ?t = "\<lambda>h. \<lparr>t_ns = 1767225600 * Second + h * Hour, t_loc = UTC\<rparr>"
  let ?l = "\<lparr>Timestamps = [?t 0, ?t 3, ?t 6, ?t 7]\<rparr>"
  have p: "ParseTime ascii_only (\<lambda>_. 0) no_shortcuts zero_time ?s
      = Inr \<lparr>TRType = TimeTypeList, TRPayload = PList ?l\<rparr>" by code_simp
  have "t_ns (last (Timestamps ?l)) - t_ns (hd (Timestamps ?l)) \<le> max_int64" by simp
  with ParseTime_list_bounded[OF p] p show ?thesis by blast
qed

text \<open>Beyond that distance the cap does not hold: \<open>end.Sub(start)\<close> saturates at 292 years
  while the loop runs to the end, so \<open>0001-01-01/9999-12-31\<close> in steps of eleven days passes
  the check and expands to more than 33 times \<open>MaxTimestamps\<close>.\<close>

lemma far_range_exceeds_cap:
  "\<exists>tr. ParseTime U lz no_shortcuts now ''0001-01-01T00:00:00Z/9999-12-31T00:00:00Z/P11D'' = Inr tr
     \<and> int (length (ExpandTimes tr)) > 33 * MaxTimestamps"
proof -
  let ?s = "''0001-01-01T00:00:00Z/9999-12-31T00:00:00Z/P11D''"
  let ?a = "\<lparr>t_ns = -62135596800 * Second, t_loc = UTC\<rparr>" and ?b = "\<lparr>t_ns = 253402214400 * Second, t_loc = UTC\<rparr>"
  let ?step = "11 * (24 * Hour)"
  have parts: "split_on CHR ''/'' ?s = [''0001-01-01T00:00:00Z'', ''9999-12-31T00:00:00Z'', ''P11D'']" by code_simp
  have a: "parse_rfc3339 lz ''0001-01-01T00:00:00Z'' = Some ?a" by code_simp
  have b: "parse_rfc3339 lz ''9999-12-31T00:00:00Z'' = Some ?b" by code_simp
  have trim: "trim_space U ''0001-01-01T00:00:00Z'' = ''0001-01-01T00:00:00Z''"
    "trim_space U ''9999-12-31T00:00:00Z'' = ''9999-12-31T00:00:00Z''" "trim_space U ''P11D'' = ''P11D''"
    by code_simp+
  have up: "to_upper U ''P11D'' = ''P11D''" by code_simp
  have iso: "parseISO8601Duration ''P11D'' = Inr ?step" by code_simp
  have nc: "\<not> contains_char CHR ''|'' ?s" "contains_char CHR ''/'' ?s" by code_simp+
  have sub: "time_sub ?b ?a = max_int64" by (simp add: time_sub_def)
  have "stepCount (time_sub ?b ?a) ?step \<le> MaxTimestamps"
    unfolding sub by (simp add: stepCount_eq MaxTimestamps_def)
  then obtain ts where ts: "stepTimestamps ?a ?b ?step = Inr ts"
    using stepTimestamps_total[of ?a ?b ?step] by auto
  have "ParseTime U lz no_shortcuts now ?s = Inr (mk_list ts)"
    using nc by (simp add: ParseTime_def LookupTimeRangeShortcut_def no_shortcuts_def parseTimeRangeSlash_def
        Let_def parts trim parse_timestamp_def a b parseStepDuration_def up iso ts[simplified] time_after_def)
  moreover have "length ts > 330000"
    using stepTimestamps_Inr[OF ts] by simp
  ultimately show ?thesis by (simp add: MaxTimestamps_def expand_simps)
qed

subsection \<open>Shortcut functions\<close>

lemma time_year_UTC: "t_loc t = UTC \<Longrightarrow> time_year lz t = fst (utc_civil t)"
  by (simp add: time_year_def loc_offset_def utc_civil_def zdiv_zmult2_eq[of 86400 "t_ns t" Second, symmetric])

text \<open>\<open>FormatTimeDataToRFC3339\<close> drops the fraction of a second and nothing else, for every
  instant of the years 0 to 9999 whose zone is offset by whole minutes; UTC stays UTC.\<close>

lemma FormatTimeDataToRFC3339_truncates:
  assumes "0 \<le> time_year lz t" "time_year lz t \<le> 9999"
    and "60 dvd loc_offset lz t" "\<bar>loc_offset lz t\<bar> \<le> 86400"
  shows "t_ns (FormatTimeDataToRFC3339 lz t) = t_ns t div Second * Second
    \<and> (t_loc t = UTC \<longrightarrow> t_loc (FormatTimeDataToRFC3339 lz t) = UTC)"
proof (cases "t_loc t = UTC")
  case True
  then show ?thesis using assms(1,2) by (simp add: FormatTimeDataToRFC3339_def truncate_second_def)
next
  case False
  then show ?thesis
    using parse_format_rfc3339[OF assms]
    by (auto simp: FormatTimeDataToRFC3339_def with_zone_def Let_def algebra_simps)
qed

lemma FormatTimeDataToRFC3339_truncates_witness:
  "t_ns (FormatTimeDataToRFC3339 (\<lambda>_. 0) \<lparr>t_ns = 1767317645987654321, t_loc = FixedZone (-5400)\<rparr>) = 1767317645000000000"
proof -
  let ?t = "\<lparr>t_ns = 1767317645987654321, t_loc = FixedZone (-5400)\<rparr>"
  have "0 \<le> time_year (\<lambda>_. 0) ?t" "time_year (\<lambda>_. 0) ?t \<le> 9999" by code_simp+
  from FormatTimeDataToRFC3339_truncates[OF this] show ?thesis by (simp add: loc_offset_def)
qed

lemma truncate_midnight: "t_loc t = UTC \<Longrightarrow> (24 * Hour) dvd t_ns t \<Longrightarrow> truncate_second t = t"
  by (auto simp: truncate_second_def dvd_def)

lemma Format_whole_day:
  assumes "t_loc t = UTC" "Hour dvd t_ns t" "0 \<le> time_year lz t" "time_year lz t \<le> 9999"
  shows "FormatTimeDataToRFC3339 lz t = t"
  using assms by (auto simp: FormatTimeDataToRFC3339_def truncate_second_def dvd_def)

lemma expandRangeTime_hourly:
  assumes "0 < n" "n \<le> 9999" "t_loc s = UTC" "Resolution rt = 1" "Start rt = s" "End rt = time_add s (n * Hour)"
  shows "expandRangeTime rt = grid (t_ns s) Hour (Suc (nat n))"
proof -
  have aft: "time_after (End rt) (Start rt)" and d: "t_ns (End rt) - t_ns (Start rt) = n * Hour"
    using assms by (simp_all add: time_after_def)
  have near: "n * Hour \<le> max_int64" using assms(2) by simp
  have "stepCount (n * Hour) Hour \<le> MaxTimestamps"
    using assms(1,2) by (simp add: stepCount_eq MaxTimestamps_def)
  moreover have "time_sub (End rt) (Start rt) = n * Hour"
    using time_sub_after(1)[OF aft] d near by simp
  ultimately have "effective_step rt = Hour"
    using assms by (simp add: effective_step_def Let_def MaxResolutionHours_def min_def)
  moreover have "stepTimestamps (Start rt) (End rt) (effective_step rt) = Inr (expandRangeTime rt)"
    using expandRangeTime_bounded[OF aft] assms(4) d near by simp
  ultimately show ?thesis
    using stepTimestamps_Inr[of "Start rt" "End rt" Hour "expandRangeTime rt"] aft d assms(5)
    by (simp add: time_after_def)
qed

text \<open>A \<open>range_offset\<close> shortcut of \<open>h\<close> hours, \<open>1 \<le> h < MaxTimestamps\<close>, registered by
  \<open>BuildRangeTimeShortcuts\<close> expands to exactly \<open>h + 1\<close> hourly timestamps from the UTC midnight
  of the current day (so \<open>3day\<close>, 72 hours, gives 73 points), as long as the calendar stays
  within the years 0 to 9999.\<close>

lemma range_shortcut_hourly:
  assumes sc: "shortcuts name = Some sc" "ScType sc = ''range_offset''" "ScHours sc = Some h"
    and h: "0 < h" "h \<le> 9999"
    and y: "0 \<le> time_year lz (utc_midnight clock)" "time_year lz (utc_midnight clock) \<le> 9999"
      "0 \<le> time_year lz (time_add (utc_midnight clock) (h * Hour))"
      "time_year lz (time_add (utc_midnight clock) (h * Hour)) \<le> 9999"
  shows "\<exists>fn. BuildRangeTimeShortcuts lz shortcuts name = Some fn
    \<and> expandRangeTime (fn clock) = grid (t_ns clock div (24 * Hour) * (24 * Hour)) Hour (Suc (nat h))"
proof -
  let ?m = "utc_midnight clock"
  have m: "utc_midnight (time_utc clock) = ?m" by (simp add: utc_midnight_eq)
  have w: "wrap64 (h * Hour) = h * Hour" using h by (intro wrap64_id) (simp add: in_int64_def)
  have dvd: "Hour dvd t_ns ?m" "Hour dvd t_ns (time_add ?m (h * Hour))"
    by (simp_all add: utc_midnight_eq)
  have "range_shortcut_fn lz h clock = \<lparr>Start = ?m, End = time_add ?m (h * Hour), Resolution = 1\<rparr>"
    using dvd y Format_whole_day[of ?m lz] Format_whole_day[of "time_add ?m (h * Hour)" lz]
    by (simp add: range_shortcut_fn_def Let_def m w) (simp add: utc_midnight_eq)
  then have "expandRangeTime (range_shortcut_fn lz h clock) = grid (t_ns ?m) Hour (Suc (nat h))"
    using h by (intro expandRangeTime_hourly) (auto simp: utc_midnight_eq)
  then show ?thesis using sc h by (simp add: BuildRangeTimeShortcuts_def utc_midnight_eq)
qed

lemma range_shortcut_hourly_witness:
  "\<exists>fn. BuildRangeTimeShortcuts (\<lambda>_. 0)
        (\<lambda>n. if n = ''3day'' then Some \<lparr>ScType = ''range_offset'', ScHours = Some 72, ScValue = []\<rparr> else None) ''3day'' = Some fn
     \<and> length (expandRangeTime (fn \<lparr>t_ns = 1767317645987654321, t_loc = Local\<rparr>)) = 73"
proof -
  let ?m = "\<lambda>n. if n = ''3day'' then Some \<lparr>ScType = ''range_offset'', ScHours = Some 72, ScValue = []\<rparr> else None"
  let ?c = "\<lparr>t_ns = 1767317645987654321, t_loc = Local\<rparr>"
  have y: "time_year (\<lambda>_. 0) (utc_midnight ?c) = 2026"
    "time_year (\<lambda>_. 0) (time_add (utc_midnight ?c) (72 * Hour)) = 2026" by code_simp+
  show ?thesis
    using range_shortcut_hourly[where shortcuts = ?m and name = "''3day''" and h = 72 and clock = ?c and lz = "\<lambda>_. 0", unfolded y]
    by auto
qed

text \<open>Shortcut names are case-insensitive and the last registration decides: after any
  sequence of \<open>RegisterTimeShortcut\<close> calls, an input without the separators that is not a
  timestamp and whose lower-case form was registered (and names no range shortcut) is the
  single time the last function registered under it returns.\<close>

lemma ParseTime_registered_shortcut:
  assumes "LookupTimeRangeShortcut r (to_lower U s) = None" "parse_rfc3339 lz s = None"
    and "\<not> contains_char CHR ''|'' s" "\<not> contains_char CHR ''/'' s" "\<not> contains_char CHR '','' s"
    and "map_of (rev kvs) (to_lower U s) = Some fn"
  shows "ParseTime U lz (fold (\<lambda>(n, f). RegisterTimeShortcut n f) kvs r) now s
    = Inr \<lparr>TRType = TimeTypeSingle, TRPayload = PSingle \<lparr>Timestamp = fn now\<rparr>\<rparr>"
  using assms by (simp add: ParseTime_def parseSingleTime_def parseTimeShortcut_def time_shortcuts.look_reg_all)

theorem ParseTime_registered_shortcut_witness:
  "ParseTime ascii_only (\<lambda>_. 0)
     (fold (\<lambda>(n, f). RegisterTimeShortcut n f) [(''now'', \<lambda>c. zero_time), (''now'', \<lambda>c. c)] no_shortcuts) \<lparr>t_ns = 42, t_loc = UTC\<rparr> ''NoW''
   = Inr \<lparr>TRType = TimeTypeSingle, TRPayload = PSingle \<lparr>Timestamp = \<lparr>t_ns = 42, t_loc = UTC\<rparr>\<rparr>\<rparr>"
proof -
  have l: "to_lower ascii_only ''NoW'' = ''now''" by code_simp
  have p: "parse_rfc3339 (\<lambda>_. 0) ''NoW'' = None" by code_simp
  have c: "\<not> contains_char CHR ''|'' ''NoW''" "\<not> contains_char CHR ''/'' ''NoW''" "\<not> contains_char CHR '','' ''NoW''"
    by code_simp+
  show ?thesis
    by (rule ParseTime_registered_shortcut[where fn = "\<lambda>c. c", OF _ p c])
      (simp_all add: l no_shortcuts_def LookupTimeRangeShortcut_def)
qed

subsection \<open>The JSON form\<close>

lemma bind_of_option_Inr:
  "bind_res (of_option e o') f = Inr y \<longleftrightarrow> (\<exists>x. o' = Some x \<and> f x = Inr y)"
  by (cases o') auto

lemma decodeTimePayload_range:
  assumes "decodeTimePayload lz TimeTypeRange raw = Inr p"
  obtains rt where "p = PRange rt" "Resolution rt \<le> MaxResolutionHours"
    "0 < Resolution rt \<Longrightarrow> time_after (End rt) (Start rt) \<Longrightarrow>
       stepCount (time_sub (End rt) (Start rt)) (Resolution rt * Hour) \<le> MaxTimestamps"
proof -
  obtain rt where "check_range_payload rt = Inr p"
    using assms by (auto simp: decodeTimePayload_def time_types bind_of_option_Inr split: option.splits)
  then show ?thesis
    using that wrap_hours[of "Resolution rt"]
    by (fastforce simp: check_range_payload_def Let_def split: if_splits)
qed

lemma decodeTimePayload_types:
  assumes "decodeTimePayload lz t raw = Inr p"
  shows "well_typed_time \<lparr>TRType = t, TRPayload = p\<rparr>"
  using assms
  by (auto simp: decodeTimePayload_def well_typed_time_def bind_of_option_Inr check_range_payload_def
      check_list_payload_def Let_def split: option.splits if_splits)

text \<open>C5. Decoding from JSON, in either wire form, gives a value whose payload is the struct
  its type names.\<close>

theorem UnmarshalJSON_well_typed:
  "TimeRange_UnmarshalJSON U lz r now j = Inr tr \<Longrightarrow> well_typed_time tr"
  by (auto simp: TimeRange_UnmarshalJSON_def bind_of_option_Inr result_simps split: json.splits
      dest: ParseTime_well_typed_aux decodeTimePayload_types)

definition sample_range_json :: json where
  "sample_range_json = JObj [(''start'', JStr ''2026-01-01T00:00:00Z''), (''end'', JStr ''2026-01-01T07:00:00Z''),
     (''resolution'', JNum ''3'')]"

theorem UnmarshalJSON_well_typed_witness:
  "\<exists>tr. TimeRange_UnmarshalJSON ascii_only (\<lambda>_. 0) no_shortcuts zero_time
      (JObj [(''type'', JStr ''range''), (''payload'', sample_range_json)]) = Inr tr \<and> well_typed_time tr"
proof -
  let ?r = "TimeRange_UnmarshalJSON ascii_only (\<lambda>_. 0) no_shortcuts zero_time
      (JObj [(''type'', JStr ''range''), (''payload'', sample_range_json)])"
  have "isl ?r = False" by code_simp
  then obtain tr where "?r = Inr tr" by (cases ?r) auto
  with UnmarshalJSON_well_typed[OF this] show ?thesis by simp
qed

text \<open>A range accepted by \<open>decodeTimePayload\<close> never needs the coarsening of
  \<open>expandRangeTime\<close>: its expansion is the stepping at exactly its own resolution, and has at
  most \<open>MaxTimestamps\<close> entries (ends at most 292 years apart).\<close>

lemma decoded_range_not_coarsened:
  assumes "decodeTimePayload lz TimeTypeRange raw = Inr (PRange rt)"
    and "0 < Resolution rt" "time_after (End rt) (Start rt)" "t_ns (End rt) - t_ns (Start rt) \<le> max_int64"
  shows "stepTimestamps (Start rt) (End rt) (Resolution rt * Hour) = Inr (expandRangeTime rt)
    \<and> int (length (expandRangeTime rt)) \<le> MaxTimestamps"
proof -
  have "Resolution rt \<le> MaxResolutionHours"
    "stepCount (time_sub (End rt) (Start rt)) (Resolution rt * Hour) \<le> MaxTimestamps"
    using decodeTimePayload_range[OF assms(1)] assms(2,3) by (metis time_payload.inject(3))+
  then have "effective_step rt = Resolution rt * Hour"
    by (simp add: effective_step_def Let_def min_def)
  then show ?thesis using expandRangeTime_bounded[OF assms(3,2,4)] by simp
qed

lemma decoded_range_not_coarsened_witness:
  "\<exists>rt. decodeTimePayload (\<lambda>_. 0) TimeTypeRange (Some sample_range_json) = Inr (PRange rt)
     \<and> stepTimestamps (Start rt) (End rt) (3 * Hour) = Inr (expandRangeTime rt)"
proof -
  let ?rt = "\<lparr>Start = \<lparr>t_ns = 1767225600 * Second, t_loc = UTC\<rparr>,
      End = \<lparr>t_ns = 1767225600 * Second + 7 * Hour, t_loc = UTC\<rparr>, Resolution = 3\<rparr>"
  have d: "decodeTimePayload (\<lambda>_. 0) TimeTypeRange (Some sample_range_json) = Inr (PRange ?rt)" by code_simp
  show ?thesis using decoded_range_not_coarsened[OF d] d by (auto simp: time_after_def)
qed

end
