(* ===== verification/AdminFlags.thy ===== *)
theory AdminFlags
  imports RuntimeManager
begin

text \<open>
  The feature flags of \<open>src/admin/flags.go\<close>: a closed set of boolean flags over a store of their
  own, read through an atomic snapshot. \<open>writeMu\<close> makes \<open>LoadAtBoot\<close> and \<open>Set\<close> one step each; log
  output is left out.
\<close>

subsection \<open>The flag set\<close>

record Flag =
  fl_Name :: string
  fl_Default :: bool
  fl_Description :: string

record FlagView =
  fv_Name :: string
  fv_Value :: bool
  fv_Default :: bool
  fv_Description :: string

datatype flag_error = ErrUnknownFlag | PersistFlagFailed string store_error

record 's FlagSet =
  fs_store :: 's
  fs_known :: "Flag list"
  fs_byName :: "string \<Rightarrow> Flag option"
  fs_state :: "string \<Rightarrow> bool option"

text \<open>The loops that fill a map from the declared flags: a later flag of the same name wins.\<close>

fun flags_by_name :: "Flag list \<Rightarrow> (string \<Rightarrow> Flag option) \<Rightarrow> string \<Rightarrow> Flag option" where
  "flags_by_name [] m = m"
| "flags_by_name (f # fs) m = flags_by_name fs (m(fl_Name f \<mapsto> f))"

fun flag_defaults :: "Flag list \<Rightarrow> (string \<Rightarrow> bool option) \<Rightarrow> string \<Rightarrow> bool option" where
  "flag_defaults [] m = m"
| "flag_defaults (f # fs) m = flag_defaults fs (m(fl_Name f \<mapsto> fl_Default f))"

definition NewFlagSet :: "'s \<Rightarrow> Flag list \<Rightarrow> 's FlagSet" where
  "NewFlagSet store known = \<lparr>fs_store = store, fs_known = known,
     fs_byName = flags_by_name known (\<lambda>_. None), fs_state = flag_defaults known (\<lambda>_. None)\<rparr>"

text \<open>The loop over the stored map: a row of an unknown flag or with a value that is no boolean is
  skipped.\<close>

definition flag_overlay :: "'s FlagSet \<Rightarrow> overrides \<Rightarrow> string \<Rightarrow> bool option" where
  "flag_overlay f stored = (\<lambda>name.
     (case (stored name, fs_byName f name) of
        (Some raw, Some _) \<Rightarrow>
          (case unmarshal ''bool'' decode_bool False raw of
             Inl _ \<Rightarrow> flag_defaults (fs_known f) (\<lambda>_. None) name
           | Inr b \<Rightarrow> Some b)
      | _ \<Rightarrow> flag_defaults (fs_known f) (\<lambda>_. None) name))"

definition Flags_LoadAtBoot :: "'s Store \<Rightarrow> 's FlagSet \<Rightarrow> 's FlagSet" where
  "Flags_LoadAtBoot ops f =
     (case so_LoadAll ops (fs_store f) of
        Inl _ \<Rightarrow> f
      | Inr stored \<Rightarrow> f\<lparr>fs_state := flag_overlay f stored\<rparr>)"

definition Enabled :: "'s FlagSet \<Rightarrow> string \<Rightarrow> bool" where
  "Enabled f name = (case fs_state f name of Some b \<Rightarrow> b | None \<Rightarrow> False)"

definition Flags_Set :: "'s Store \<Rightarrow> string \<Rightarrow> bool \<Rightarrow> 's FlagSet \<Rightarrow> flag_error option \<times> 's FlagSet" where
  "Flags_Set ops name value f =
     (if fs_byName f name = None then (Some ErrUnknownFlag, f)
      else case so_Upsert ops name (Some (JBool value)) (fs_store f) of
          (Some e, s) \<Rightarrow> (Some (PersistFlagFailed name e), f\<lparr>fs_store := s\<rparr>)
        | (None, s) \<Rightarrow> (None, f\<lparr>fs_store := s, fs_state := (fs_state f)(name \<mapsto> value)\<rparr>))"

definition Snapshot :: "'s FlagSet \<Rightarrow> FlagView list" where
  "Snapshot f = List.map (\<lambda>fl. \<lparr>fv_Name = fl_Name fl, fv_Value = Enabled f (fl_Name fl),
     fv_Default = fl_Default fl, fv_Description = fl_Description fl\<rparr>) (fs_known f)"

subsection \<open>Histories\<close>

definition flags_boot :: "'s Store \<Rightarrow> 's \<Rightarrow> Flag list \<Rightarrow> 's FlagSet" where
  "flags_boot ops s known = Flags_LoadAtBoot ops (NewFlagSet s known)"

inductive flag_history :: "'s Store \<Rightarrow> Flag list \<Rightarrow> string set \<Rightarrow> 's FlagSet \<Rightarrow> bool"
  for ops known where
  fh_boot: "flag_history ops known (case so_LoadAll ops s of Inl _ \<Rightarrow> UNIV | Inr _ \<Rightarrow> {}) (flags_boot ops s known)"
| fh_set_ok: "flag_history ops known D f \<Longrightarrow> Flags_Set ops n v f = (None, f') \<Longrightarrow> flag_history ops known (D - {n}) f'"
| fh_set_unknown: "flag_history ops known D f \<Longrightarrow> Flags_Set ops n v f = (Some ErrUnknownFlag, f') \<Longrightarrow> flag_history ops known D f'"
| fh_set_failed: "flag_history ops known D f \<Longrightarrow> Flags_Set ops n v f = (Some (PersistFlagFailed n e), f') \<Longrightarrow>
    flag_history ops known (insert n D) f'"
| fh_restart: "flag_history ops known D f \<Longrightarrow>
    flag_history ops known (case so_LoadAll ops (fs_store f) of Inl _ \<Rightarrow> UNIV | Inr _ \<Rightarrow> {}) (flags_boot ops (fs_store f) known)"

subsection \<open>Lemmas\<close>

lemma flags_by_name_dom: "flags_by_name fs m n \<noteq> None \<longleftrightarrow> n \<in> fl_Name ` set fs \<or> m n \<noteq> None"
  by (induction fs arbitrary: m) auto

lemma flag_defaults_dom: "flag_defaults fs m n \<noteq> None \<longleftrightarrow> n \<in> fl_Name ` set fs \<or> m n \<noteq> None"
  by (induction fs arbitrary: m) auto

lemma flag_defaults_distinct:
  "distinct (List.map fl_Name fs) \<Longrightarrow> f \<in> set fs \<Longrightarrow> flag_defaults fs m (fl_Name f) = Some (fl_Default f)"
proof (induction fs arbitrary: m)
  case (Cons a fs)
  have other: "n \<notin> fl_Name ` set gs \<Longrightarrow> flag_defaults gs m' n = m' n" for n gs m'
    by (induction gs arbitrary: m') auto
  show ?case
  proof (cases "f = a")
    case True
    then show ?thesis using Cons.prems other by auto
  next
    case False
    then show ?thesis using Cons by auto
  qed
qed simp

lemma Flags_Set_cases:
  assumes "Flags_Set ops n v f = (e, f')"
  obtains (unknown) "fs_byName f n = None" "e = Some ErrUnknownFlag" "f' = f"
  | (failed) s x where "fs_byName f n \<noteq> None" "so_Upsert ops n (Some (JBool v)) (fs_store f) = (Some x, s)"
      "e = Some (PersistFlagFailed n x)" "f' = f\<lparr>fs_store := s\<rparr>"
  | (applied) s where "fs_byName f n \<noteq> None" "so_Upsert ops n (Some (JBool v)) (fs_store f) = (None, s)"
      "e = None" "f' = f\<lparr>fs_store := s, fs_state := (fs_state f)(n \<mapsto> v)\<rparr>"
  using assms by (auto simp: Flags_Set_def split: if_splits prod.splits option.splits)

lemma flags_boot_simps [simp]:
  "fs_store (flags_boot ops s known) = s" "fs_known (flags_boot ops s known) = known"
  "fs_byName (flags_boot ops s known) = flags_by_name known (\<lambda>_. None)"
  "so_LoadAll ops s = Inr x \<Longrightarrow> fs_state (flags_boot ops s known) = flag_overlay (NewFlagSet s known) x"
  "so_LoadAll ops s = Inl e \<Longrightarrow> fs_state (flags_boot ops s known) = flag_defaults known (\<lambda>_. None)"
  by (auto simp: flags_boot_def Flags_LoadAtBoot_def NewFlagSet_def split: sum.split)

lemma flag_overlay_new:
  "flag_overlay (NewFlagSet s known) x n = (case (x n, flags_by_name known (\<lambda>_. None) n) of
     (Some raw, Some _) \<Rightarrow> (case unmarshal ''bool'' decode_bool False raw of
         Inl _ \<Rightarrow> flag_defaults known (\<lambda>_. None) n | Inr b \<Rightarrow> Some b)
   | _ \<Rightarrow> flag_defaults known (\<lambda>_. None) n)"
  by (simp add: flag_overlay_def NewFlagSet_def split: option.split sum.split)

lemma flag_overlay_dom:
  "flag_overlay (NewFlagSet s known) x n \<noteq> None \<longleftrightarrow> n \<in> fl_Name ` set known"
  using flags_by_name_dom[of known "\<lambda>_. None" n] flag_defaults_dom[of known "\<lambda>_. None" n]
  by (auto simp: flag_overlay_def NewFlagSet_def split: option.split sum.split)

lemma flag_history_known:
  "flag_history ops known D f \<Longrightarrow> fs_known f = known \<and> fs_byName f = flags_by_name known (\<lambda>_. None)"
  by (induction rule: flag_history.induct) (auto elim!: Flags_Set_cases)

lemma flag_state_dom_boot: "fs_state (flags_boot ops s known) n \<noteq> None \<longleftrightarrow> n \<in> fl_Name ` set known"
  using flag_overlay_dom[of s known] flag_defaults_dom[of known "\<lambda>_. None" n]
  by (cases "so_LoadAll ops s") auto

subsection \<open>Properties\<close>

text \<open>The set of flags is closed. In every history, whatever rows the store holds, the live snapshot
  has exactly the declared flags: an unknown flag reads as disabled, cannot be set and appears in
  no listing, and the listing has the declared flags in order with their live values.\<close>

lemma flags_closed:
  assumes "flag_history ops known D f"
  shows "(fs_state f n \<noteq> None \<longleftrightarrow> n \<in> fl_Name ` set known)
    \<and> (n \<notin> fl_Name ` set known \<longrightarrow> \<not> Enabled f n \<and> Flags_Set ops n v f = (Some ErrUnknownFlag, f))
    \<and> List.map (\<lambda>x. (fv_Name x, fv_Value x)) (Snapshot f) = List.map (\<lambda>fl. (fl_Name fl, Enabled f (fl_Name fl))) known"
proof -
  have "fs_state f n \<noteq> None \<longleftrightarrow> n \<in> fl_Name ` set known" for n
    using assms
  proof (induction rule: flag_history.induct)
    case (fh_set_ok D f n' v f')
    have "n' \<in> fl_Name ` set known" if "fs_byName f n' \<noteq> None"
      using that flag_history_known[OF fh_set_ok.hyps(1)] flags_by_name_dom[of known "\<lambda>_. None" n'] by auto
    with fh_set_ok show ?case by (auto elim!: Flags_Set_cases split: if_splits)
  next
    case fh_boot show ?case by (rule flag_state_dom_boot)
  next
    case fh_restart show ?case by (rule flag_state_dom_boot)
  qed (auto elim!: Flags_Set_cases)
  then show ?thesis
    using flag_history_known[OF assms] flags_by_name_dom[of known "\<lambda>_. None" n]
    by (auto simp: Enabled_def Flags_Set_def Snapshot_def split: option.splits)
qed

definition two_flags :: "Flag list" where
  "two_flags = [\<lparr>fl_Name = ''beta'', fl_Default = False, fl_Description = []\<rparr>,
     \<lparr>fl_Name = ''cache'', fl_Default = True, fl_Description = []\<rparr>]"

text \<open>A store with a stray row of another component; then \<open>beta\<close> is switched on.\<close>

definition flags_start :: "mem_store FlagSet" where
  "flags_start = flags_boot MemStore (NewMemStore(''ttl'' \<mapsto> Some (JNum ''30''))) two_flags"

definition flags_now :: "mem_store FlagSet" where
  "flags_now = snd (Flags_Set MemStore ''beta'' True flags_start)"

lemma two_flags_set:
  "Flags_Set MemStore ''beta'' True flags_start = (None, flags_now)"
  by (simp add: flags_now_def Flags_Set_def flags_start_def MemStore_def mem_Upsert_def two_flags_def)

lemma flags_start_history: "flag_history MemStore two_flags {} flags_start"
proof -
  have "so_LoadAll MemStore (NewMemStore(''ttl'' \<mapsto> Some (JNum ''30''))) = Inr (NewMemStore(''ttl'' \<mapsto> Some (JNum ''30'')))"
    by (simp add: MemStore_def mem_LoadAll_def)
  then show ?thesis
    using fh_boot[of MemStore two_flags "NewMemStore(''ttl'' \<mapsto> Some (JNum ''30''))"] by (simp add: flags_start_def)
qed

lemma flags_now_history: "flag_history MemStore two_flags {} flags_now"
  using fh_set_ok[OF flags_start_history two_flags_set] by simp

lemma flags_closed_witness:
  "\<not> Enabled flags_now ''ttl'' \<and> Flags_Set MemStore ''ttl'' True flags_now = (Some ErrUnknownFlag, flags_now)"
  using flags_closed[OF flags_now_history, of "''ttl''" True] by (simp add: two_flags_def)

text \<open>C27. Flags persist. Over a store that keeps the contract, in every history the live value of each
  flag about which no store failure left a doubt is the one a restart would load; a successful
  \<open>Set\<close> writes exactly that row, is live at once and touches no other flag.\<close>

theorem flags_match_restart:
  assumes "config_store ops contents" "flag_history ops known D f"
  shows "(n \<notin> D \<longrightarrow> fs_state f n = flag_overlay (NewFlagSet (fs_store f) known) (contents (fs_store f)) n)
    \<and> (n \<notin> D \<and> so_LoadAll ops (fs_store f) = Inr x \<longrightarrow>
         Enabled (flags_boot ops (fs_store f) known) n = Enabled f n)
    \<and> (Flags_Set ops m v f = (None, f') \<longrightarrow>
         Enabled f' m = v \<and> contents (fs_store f') = (contents (fs_store f))(m \<mapsto> Some (JBool v))
         \<and> (\<forall>m'. m' \<noteq> m \<longrightarrow> Enabled f' m' = Enabled f m'))"
proof -
  have load: "x = contents s" if "so_LoadAll ops s = Inr x" for s x
    using config_store.load_all[OF assms(1) that] .
  have state: "fs_state f n = flag_overlay (NewFlagSet (fs_store f) known) (contents (fs_store f)) n" if "n \<notin> D" for n
    using assms(2) that
  proof (induction rule: flag_history.induct)
    case (fh_boot s)
    then show ?case by (cases "so_LoadAll ops s") (auto dest: load)
  next
    case (fh_set_ok D f n' v f')
    note k = flag_history_known[OF fh_set_ok.hyps(1)]
    show ?case using fh_set_ok.hyps(2)
    proof (cases rule: Flags_Set_cases)
      case (applied s)
      have c: "contents s = (contents (fs_store f))(n' \<mapsto> Some (JBool v))"
        using config_store.upsert_ok[OF assms(1) applied(2)] .
      show ?thesis
      proof (cases "n = n'")
        case True
        then show ?thesis using applied k c by (auto simp: flag_overlay_new unmarshal_def decode_bool_def)
      next
        case False
        then show ?thesis using fh_set_ok applied c by (auto simp: flag_overlay_new)
      qed
    qed auto
  next
    case (fh_set_unknown D f n' v f')
    show ?case using fh_set_unknown.hyps(2) by (cases rule: Flags_Set_cases) (use fh_set_unknown in auto)
  next
    case (fh_set_failed D f n' v e f')
    show ?case using fh_set_failed.hyps(2)
    proof (cases rule: Flags_Set_cases)
      case (failed s x)
      have "contents s n = contents (fs_store f) n"
        using config_store.upsert_other[OF assms(1) failed(2)] fh_set_failed.prems by auto
      then show ?thesis using fh_set_failed failed by (auto simp: flag_overlay_new)
    qed auto
  next
    case (fh_restart D f)
    then show ?case by (cases "so_LoadAll ops (fs_store f)") (auto dest: load)
  qed
  have "Enabled (flags_boot ops (fs_store f) known) n = Enabled f n"
    if "n \<notin> D" "so_LoadAll ops (fs_store f) = Inr x"
    using state[OF that(1)] that(2) load[OF that(2)] by (simp add: Enabled_def)
  moreover have "Enabled f' m = v \<and> contents (fs_store f') = (contents (fs_store f))(m \<mapsto> Some (JBool v))
      \<and> (\<forall>m'. m' \<noteq> m \<longrightarrow> Enabled f' m' = Enabled f m')" if "Flags_Set ops m v f = (None, f')"
    using that
  proof (cases rule: Flags_Set_cases)
    case (applied s)
    then show ?thesis using config_store.upsert_ok[OF assms(1) applied(2)] by (simp add: Enabled_def)
  qed auto
  ultimately show ?thesis using state by blast
qed

theorem flags_match_restart_witness:
  "Enabled (flags_boot MemStore (fs_store flags_now) two_flags) ''beta'' \<and> Enabled flags_now ''beta''"
proof -
  have l: "so_LoadAll MemStore (fs_store flags_now) = Inr (fs_store flags_now)" by (simp add: MemStore_def mem_LoadAll_def)
  have "Enabled flags_now ''beta''"
    using flags_match_restart[OF mem.config_store_axioms flags_start_history, of "''x''" "\<lambda>_. None" "''beta''" True flags_now]
      two_flags_set by blast
  moreover have "Enabled (flags_boot MemStore (fs_store flags_now) two_flags) ''beta'' = Enabled flags_now ''beta''"
    using flags_match_restart[OF mem.config_store_axioms flags_now_history, of "''beta''" "fs_store flags_now"] l by blast
  ultimately show ?thesis by simp
qed

end
