(* ===== verification/RuntimeReads.thy ===== *)
theory RuntimeReads
  imports RuntimeCorrect
begin

text \<open>
  What a service reads and what an administrator sees: the typed getters, one write end to end,
  the round trip of integers, the redaction of secrets, and the values the validation gate lets
  through although it should not.
\<close>

subsection \<open>Typed getters\<close>

lemma has_kind_simps [simp]:
  "has_kind KindBool v \<longleftrightarrow> (\<exists>b. v = ABool b)" "has_kind KindString v \<longleftrightarrow> (\<exists>s. v = AString s)"
  "has_kind KindEnum v \<longleftrightarrow> (\<exists>s. v = AString s)" "has_kind KindInt v \<longleftrightarrow> (\<exists>n. v = AInt64 n)"
  "has_kind KindFloat v \<longleftrightarrow> (\<exists>f. v = AFloat64 f)" "has_kind KindDuration v \<longleftrightarrow> (\<exists>d. v = ADuration d)"
  by (simp_all add: has_kind_def)

lemma flt_feq_left: "feq x y \<Longrightarrow> flt x z = flt y z"
  and flt_feq_right: "feq x y \<Longrightarrow> flt z x = flt z y"
  by (auto simp: feq_def flt_def is_inf_def split: if_splits)

lemma in_bounds_feq: "feq x y \<Longrightarrow> in_bounds k x = in_bounds k y"
  by (simp add: in_bounds_def flt_feq_left flt_feq_right split: option.split)

text \<open>The typed getter of a key's kind always returns the effective value, never its fallback:
  in every history over a registry built by registrations, the value a registered key resolves to
  is what the getter of its kind returns. An integer override lies within the key's bounds.\<close>

lemma getters_return_effective_value:
  assumes "register_all oob ks NewRegistry = Inr r" "history oob ops r D m" "Lookup r n = Some k"
  shows "(k_Kind k = KindInt \<longrightarrow> resolve m n = AInt64 (Manager_Int m n))
    \<and> (k_Kind k = KindFloat \<longrightarrow> resolve m n = AFloat64 (Manager_Float m n))
    \<and> (k_Kind k = KindBool \<longrightarrow> resolve m n = ABool (Manager_Bool m n))
    \<and> (k_Kind k \<in> {KindString, KindEnum} \<longrightarrow> resolve m n = AString (Manager_String m n))
    \<and> (k_Kind k = KindDuration \<longrightarrow> resolve m n = ADuration (Manager_Duration m n))
    \<and> (k_Kind k = KindInt \<and> mg_state m n \<noteq> None \<longrightarrow> in_bounds k (f_of_int (Manager_Int m n)))"
proof -
  have wf: "registry_wf r" using register_all_wf[OF NewRegistry_wf assms(1)] .
  have ov: "mg_reg m = r" "overlay_ok oob r (mg_state m)" using overlay_always_valid[OF assms(2)] by auto
  have val: "value_ok oob k v" if "mg_state m n = Some v" for v
    using ov(2) that assms(3) by (force simp: overlay_ok_def)
  have "has_kind (k_Kind k) (resolve m n)"
  proof (cases "mg_state m n")
    case None
    then show ?thesis using wf assms(3) ov(1) by (simp add: resolve_def overlay_get_def registry_wf_def Lookup_def)
  next
    case (Some v)
    then show ?thesis using val by (simp add: resolve_def overlay_get_def value_ok_def)
  qed
  moreover have "in_bounds k (f_of_int (Manager_Int m n))" if i: "k_Kind k = KindInt" and "mg_state m n \<noteq> None"
  proof -
    obtain v where v: "mg_state m n = Some v" using \<open>mg_state m n \<noteq> None\<close> by blast
    obtain f where "v = AInt64 (to_int64 oob f)" "feq f (f_of_int (to_int64 oob f))" "in_bounds k f"
      using val[OF v] i by (auto simp: value_ok_def)
    then show ?thesis
      using v in_bounds_feq by (simp add: Manager_Int_def Manager_Int64_def resolve_def overlay_get_def)
  qed
  ultimately show ?thesis
    by (auto simp: Manager_Int_def Manager_Int64_def Manager_Float_def Manager_Bool_def Manager_String_def
        Manager_Duration_def)
qed

lemma cap_registered: "register_all amd64_oob [cap_key] NewRegistry = Inr cap_registry"
  by (simp add: Register_def NewRegistry_def cap_key_def mk_key_def cap_registry_def normalizeValue_def normalize_int_def)

lemma getters_return_effective_value_witness:
  "resolve cap_history ''cap'' = AInt64 (Manager_Int cap_history ''cap'')
     \<and> in_bounds cap_key (f_of_int (Manager_Int cap_history ''cap''))"
proof -
  have "k_Kind cap_key = KindInt" by (simp add: cap_key_def mk_key_def)
  moreover have "mg_state cap_history ''cap'' \<noteq> None" using cap_step(2) cap_history(2) by simp
  ultimately show ?thesis
    using getters_return_effective_value[OF cap_registered cap_history_history cap_lookup(1)] by blast
qed

subsection \<open>One write, end to end\<close>

lemma value_after_restart:
  assumes "so_LoadAll ops s = Inr x" "x n = Some raw" "Lookup r n = Some k" "validateAgainst oob k raw = Inr v"
  shows "resolve (boot oob ops r s) n = v"
  using assms by (simp add: resolve_def overlay_get_def boot_overlay_def Validate_def)

text \<open>C23. Persist first. A successful \<open>Apply\<close> has changed exactly that key in the store, a restart that
  can load reads the validated value, the running service already does unless the key is
  restart-required (then its value stays), and no other key's effective value changes.\<close>

theorem Apply_persists:
  assumes "config_store ops contents" "Apply oob ops n raw m = (None, m')"
  shows "\<exists>k v. writable m n k \<and> validateAgainst oob k raw = Inr v
    \<and> contents (mg_store m') = (contents (mg_store m))(n \<mapsto> raw)
    \<and> (\<forall>x. so_LoadAll ops (mg_store m') = Inr x \<longrightarrow> resolve (boot oob ops (mg_reg m) (mg_store m')) n = v)
    \<and> resolve m' n = (if k_RestartRequired k then resolve m n else v)
    \<and> (\<forall>n'. n' \<noteq> n \<longrightarrow> resolve m' n' = resolve m n')"
  using assms(2)
proof (cases rule: Apply_cases)
  case (applied k v s)
  have c: "contents s = (contents (mg_store m))(n \<mapsto> raw)"
    using config_store.upsert_ok[OF assms(1) applied(3)] .
  have b: "resolve (boot oob ops (mg_reg m) s) n = v" if x: "so_LoadAll ops s = Inr x" for x
  proof -
    have "x n = Some raw" using config_store.load_all[OF assms(1) x] c by simp
    then show ?thesis using value_after_restart[OF x] applied(1,2) by (auto simp: writable_def)
  qed
  have m: "mg_store m' = s" "mg_reg m' = mg_reg m"
    "mg_state m' = (if k_RestartRequired k then mg_state m else (mg_state m)(n \<mapsto> v))"
    by (simp_all add: applied(5))
  have "resolve m' n = (if k_RestartRequired k then resolve m n else v)"
    and "\<forall>n'. n' \<noteq> n \<longrightarrow> resolve m' n' = resolve m n'"
    by (auto simp: resolve_def overlay_get_def m split: option.split)
  then show ?thesis using applied(1,2) c b unfolding m(1)
    by (intro exI[of _ k] exI[of _ v]) simp
qed auto

theorem Apply_persists_witness:
  "resolve (boot amd64_oob MemStore cap_registry (mg_store cap_step)) ''cap'' = AInt64 7 \<and> resolve cap_step ''cap'' = AInt64 7"
proof -
  let ?m = "boot amd64_oob MemStore cap_registry NewMemStore"
  obtain k v where k: "writable ?m ''cap'' k" "validateAgainst amd64_oob k (Some (JNum ''7'')) = Inr v"
    "so_LoadAll MemStore (mg_store cap_step) = Inr (mg_store cap_step) \<longrightarrow>
       resolve (boot amd64_oob MemStore (mg_reg ?m) (mg_store cap_step)) ''cap'' = v"
    "resolve cap_step ''cap'' = (if k_RestartRequired k then resolve ?m ''cap'' else v)"
    using Apply_persists[OF mem.config_store_axioms cap_step(1)] by blast
  have "k = cap_key" using k(1) by (simp add: writable_def cap_lookup)
  then have "v = AInt64 7" using k(2) by (simp add: cap_validate)
  then show ?thesis
    using k(3,4) \<open>k = cap_key\<close> by (simp add: MemStore_def mem_LoadAll_def cap_lookup)
qed

text \<open>A refused write changes nothing, neither the store nor the overlay, and the refusals are told
  apart: unknown key, key that is not mutable, value that fails the key's validation.\<close>

lemma refused_writes_change_nothing:
  assumes "Apply oob ops n raw m = (Some e, m')" "\<not> store_failure (Some e)"
  shows "m' = m
    \<and> (e = ErrUnknownKey \<longleftrightarrow> Lookup (mg_reg m) n = None)
    \<and> (e = ErrImmutable \<longleftrightarrow> (\<exists>k. Lookup (mg_reg m) n = Some k \<and> \<not> k_Mutable k))
    \<and> (e \<noteq> ErrUnknownKey \<and> e \<noteq> ErrImmutable \<longrightarrow> (\<exists>k. writable m n k \<and> validateAgainst oob k raw = Inl e))"
  using assms(1)
proof (cases rule: Apply_cases)
  case rejected
  then show ?thesis by (auto simp: writable_def dest: validateAgainst_error)
qed (use assms(2) in \<open>auto simp: store_failure_def\<close>)

lemma refused_writes_change_nothing_witness:
  "cap_history = cap_step \<and> (\<exists>k. writable cap_step ''cap'' k \<and>
     validateAgainst amd64_oob k (Some (JNum ''11'')) = Inl (ErrInvalidValue ''cap'' (AboveMaximum (ShownFloat (Fin 11)) (Fin 10))))"
  using refused_writes_change_nothing[OF cap_history(1)] by (simp add: store_failure_def)

subsection \<open>Integers\<close>

lemma in_int64_small: "\<bar>i\<bar> \<le> 2 ^ 53 \<Longrightarrow> in_int64 i"
  by (simp add: in_int64_def abs_le_iff)

lemma validate_int_literal:
  assumes "k_Kind k = KindInt" "\<bar>i\<bar> \<le> 2 ^ 53"
  shows "validateAgainst oob k (Some (JNum (int_to_string i))) = validate_int oob k (Fin (of_int i))"
    "to_int64 oob (Fin (of_int i)) = i"
    "in_bounds k (Fin (of_int i)) \<Longrightarrow> validate_int oob k (Fin (of_int i)) = Inr (AInt64 i)"
proof -
  show "validateAgainst oob k (Some (JNum (int_to_string i))) = validate_int oob k (Fin (of_int i))"
    by (simp add: validateAgainst_def assms(1) unmarshal_float_def parse_float_int[OF assms(2)] invalid_def)
  show t: "to_int64 oob (Fin (of_int i)) = i"
    using to_int64_exact[of "Fin (of_int i)" i] in_int64_small[OF assms(2)] by simp
  have b: "checkBounds k (Fin (of_int i)) = Inr ()" if "in_bounds k (Fin (of_int i))"
    using that checkBounds_Inr[of k "Fin (of_int i)" "()"] by simp
  show "in_bounds k (Fin (of_int i)) \<Longrightarrow> validate_int oob k (Fin (of_int i)) = Inr (AInt64 i)"
    by (simp add: validate_int_def t f_of_int_exact[OF assms(2)] feq_def is_inf_def b)
qed

text \<open>What is put is what is read. Putting the decimal literal of an integer of at most 53 bits that
  is within the bounds of a mutable integer key, over a store that takes the write, succeeds; the
  service then reads exactly that integer unless the key is restart-required.\<close>

lemma int_put_get:
  assumes "Lookup (mg_reg m) n = Some k" "k_Kind k = KindInt" "k_Mutable k" "\<not> k_RestartRequired k"
    and "\<bar>i\<bar> \<le> 2 ^ 53" "in_bounds k (Fin (of_int i))"
    and "so_Upsert ops n (Some (JNum (int_to_string i))) (mg_store m) = (None, s)"
  shows "\<exists>m'. Apply oob ops n (Some (JNum (int_to_string i))) m = (None, m') \<and> Manager_Int m' n = i"
  using assms validate_int_literal[OF assms(2,5)]
  by (simp add: Apply_def Manager_Int_def Manager_Int64_def resolve_def overlay_get_def)

lemma int_put_get_witness:
  "\<exists>m'. Apply amd64_oob MemStore ''cap'' (Some (JNum ''3'')) cap_step = (None, m') \<and> Manager_Int m' ''cap'' = 3"
proof -
  have "int_to_string 3 = ''3''" by code_simp
  moreover have "in_bounds cap_key (Fin (of_int 3))" by code_simp
  ultimately show ?thesis
    using int_put_get[of cap_step "''cap''" cap_key 3 MemStore "(mg_store cap_step)(''cap'' \<mapsto> Some (JNum ''3''))" amd64_oob]
    by (simp add: cap_lookup cap_step(3) MemStore_def mem_Upsert_def) (simp add: cap_key_def mk_key_def)
qed

text \<open>Above 53 bits an integer literal is silently rounded, since the gate decodes it as a float:
  \<open>9007199254740993\<close> is accepted as \<open>9007199254740992\<close>. And \<open>2 ^ 63\<close>, which is no \<open>int64\<close>, is accepted
  wherever the processor saturates an out-of-range conversion, and refused where it does not.\<close>

definition saturating_oob :: "f64 \<Rightarrow> int" where
  "saturating_oob x = (if fgt x (Fin 0) then 9223372036854775807 else - 9223372036854775808)"

lemma int_literals_lose_precision:
  "validateAgainst amd64_oob (mk_key ''n'' KindInt (AInt 0)) (Some (JNum ''9007199254740993'')) = Inr (AInt64 9007199254740992)
   \<and> validateAgainst saturating_oob (mk_key ''n'' KindInt (AInt 0)) (Some (JNum ''9223372036854775808''))
       = Inr (AInt64 9223372036854775807)
   \<and> isl (validateAgainst amd64_oob (mk_key ''n'' KindInt (AInt 0)) (Some (JNum ''9223372036854775808'')))"
  by (intro conjI) code_simp+

text \<open>A duration of more seconds than an \<open>int64\<close> of nanoseconds holds passes the gate and becomes
  whatever the processor makes of the conversion: on amd64 the most negative duration.\<close>

lemma duration_overflow_accepted:
  "validateAgainst amd64_oob (mk_key ''ttl'' KindDuration (AInt 30)) (Some (JNum ''10000000000''))
     = Inr (ADuration (- 9223372036854775808))"
  by code_simp

text \<open>\<open>null\<close> passes the gate of every kind but the enum and is stored as the zero value of the
  kind, whatever the default is (numbers only if zero is within the bounds).\<close>

lemma null_is_zero_value:
  "(k_Kind k = KindBool \<longrightarrow> validateAgainst oob k (Some JNull) = Inr (ABool False))
   \<and> (k_Kind k = KindString \<longrightarrow> validateAgainst oob k (Some JNull) = Inr (AString []))
   \<and> (k_Kind k = KindInt \<and> in_bounds k (Fin 0) \<longrightarrow> validateAgainst oob k (Some JNull) = Inr (AInt64 0))
   \<and> (k_Kind k = KindFloat \<and> in_bounds k (Fin 0) \<longrightarrow> validateAgainst oob k (Some JNull) = Inr (AFloat64 (Fin 0)))
   \<and> (k_Kind k = KindDuration \<and> in_bounds k (Fin 0) \<longrightarrow> validateAgainst oob k (Some JNull) = Inr (ADuration 0))"
proof -
  have u: "unmarshal_float (Some JNull) = Inr (Fin 0)" by (simp add: unmarshal_float_def unmarshal_def decode_float_def)
  have b: "checkBounds k (Fin 0) = Inr ()" if "in_bounds k (Fin 0)" using that checkBounds_Inr[of k "Fin 0" "()"] by simp
  have z: "to_int64 oob (Fin 0) = 0" "f_of_int 0 = Fin 0" "fmul (Fin 0) second_f = Fin 0"
    using to_int64_exact[of "Fin 0" 0] f_of_int_exact[of 0]
    by (simp_all add: in_int64_def) (code_simp)
  show ?thesis
    using b by (simp add: validateAgainst_def u invalid_def unmarshal_def decode_bool_def decode_string_def
        validate_int_def z feq_def)
qed

lemma null_is_zero_value_witness:
  "validateAgainst amd64_oob (mk_key ''on'' KindBool (ABool True)) (Some JNull) = Inr (ABool False)"
  using null_is_zero_value[of "mk_key ''on'' KindBool (ABool True)" amd64_oob] by (simp add: mk_key_def)

text \<open>Values the gate lets through although they are none of the key's kind. \<open>null\<close> becomes the zero
  value; the integer \<open>2 ^ 53 + 1\<close> is rounded, and \<open>2 ^ 63\<close> is accepted where the processor saturates
  an out-of-range conversion; a duration of more seconds than an \<open>int64\<close> of nanoseconds holds becomes,
  on amd64, the most negative duration.\<close>

lemma validation_gaps:
  "validateAgainst oob (mk_key ''on'' KindBool (ABool True)) (Some JNull) = Inr (ABool False)
   \<and> validateAgainst oob (mk_key ''name'' KindString (AString ''x'')) (Some JNull) = Inr (AString [])
   \<and> validateAgainst amd64_oob (mk_key ''n'' KindInt (AInt 0)) (Some (JNum ''9007199254740993'')) = Inr (AInt64 9007199254740992)
   \<and> validateAgainst saturating_oob (mk_key ''n'' KindInt (AInt 0)) (Some (JNum ''9223372036854775808''))
       = Inr (AInt64 9223372036854775807)
   \<and> validateAgainst amd64_oob (mk_key ''ttl'' KindDuration (AInt 30)) (Some (JNum ''10000000000''))
       = Inr (ADuration (- 9223372036854775808))"
  using null_is_zero_value[of "mk_key ''on'' KindBool (ABool True)" oob]
    null_is_zero_value[of "mk_key ''name'' KindString (AString ''x'')" oob]
    int_literals_lose_precision duration_overflow_accepted
  by (simp add: mk_key_def)

subsection \<open>Secrets\<close>

lemma toJSONValue_empty: "toJSONValue kind v = AString [] \<longleftrightarrow> v = AString []"
  by (simp add: toJSONValue_def split: any_value.split)

lemma redact_alike:
  assumes "k_Secret k" "v = AString [] \<longleftrightarrow> w = AString []"
  shows "redact k (toJSONValue kind v) = redact k (toJSONValue kind w)"
  using assms by (simp add: redact_def toJSONValue_empty)

text \<open>C26. The merged view shows of a secret key only whether it is overridden and whether it is the
  empty string: two services with the same registry whose overlays agree on the keys that are not
  secret, and on the presence and emptiness of the secret ones, answer the same view.\<close>

theorem merged_view_hides_secrets:
  assumes "mg_reg m1 = mg_reg m2"
    and "\<And>k. k \<in> set (Keys (mg_reg m1)) \<Longrightarrow> \<not> k_Secret k \<Longrightarrow> mg_state m1 (k_Name k) = mg_state m2 (k_Name k)"
    and "\<And>k. k \<in> set (Keys (mg_reg m1)) \<Longrightarrow> k_Secret k \<Longrightarrow>
      (mg_state m1 (k_Name k) = None \<longleftrightarrow> mg_state m2 (k_Name k) = None) \<and>
      (mg_state m1 (k_Name k) = Some (AString []) \<longleftrightarrow> mg_state m2 (k_Name k) = Some (AString []))"
  shows "MergedView m1 = MergedView m2"
proof -
  have "key_view (mg_state m1) k = key_view (mg_state m2) k" if k: "k \<in> set (Keys (mg_reg m1))" for k
  proof (cases "k_Secret k")
    case True
    note a = assms(3)[OF k True]
    show ?thesis
    proof (cases "mg_state m1 (k_Name k)")
      case None
      then show ?thesis using a by (simp add: key_view_def overlay_get_def)
    next
      case (Some v)
      then obtain w where w: "mg_state m2 (k_Name k) = Some w" using a by (cases "mg_state m2 (k_Name k)") auto
      have "redact k (toJSONValue (k_Kind k) v) = redact k (toJSONValue (k_Kind k) w)"
        by (rule redact_alike[OF True]) (use a Some w in simp)
      then show ?thesis using Some w by (simp add: key_view_def overlay_get_def)
    qed
  next
    case False
    then show ?thesis using assms(2)[OF k] by (simp add: key_view_def overlay_get_def)
  qed
  then show ?thesis using assms(1) by (simp add: MergedView_def)
qed

definition token_key :: Key where
  "token_key = (mk_key ''token'' KindString (AString []))\<lparr>k_Secret := True\<rparr>"

definition token_manager :: "string \<Rightarrow> mem_store Manager" where
  "token_manager t = \<lparr>mg_reg = \<lparr>r_order = [''token''], r_keys = (\<lambda>_. None)(''token'' \<mapsto> token_key)\<rparr>,
     mg_store = NewMemStore, mg_state = newOverlay(''token'' \<mapsto> AString t)\<rparr>"

theorem merged_view_hides_secrets_witness:
  "MergedView (token_manager ''hunter2'') = MergedView (token_manager ''swordfish'')"
  by (rule merged_view_hides_secrets) (auto simp: token_manager_def Keys_def token_key_def mk_key_def)

text \<open>The text of a rejection tells nothing of a rejected secret but its JSON kind and the check it
  failed, provided that a number is not out of the range of a \<open>float64\<close>.\<close>

definition secret_errors :: "Key \<Rightarrow> string \<Rightarrow> config_error set" where
  "secret_errors k jk =
     {UnsupportedKind (k_Name k) (k_Kind k)} \<union>
     ErrInvalidValue (k_Name k) `
       ({ExpectedBool (JTypeError jk ''bool''), ExpectedString (JTypeError jk ''string''),
         ExpectedNumber (JTypeError jk ''float64''), ExpectedSeconds (JTypeError jk ''float64''),
         NotInEnum Redacted (k_Enum k), ExpectedInteger Redacted}
        \<union> {BelowMinimum Redacted lo | b lo. k_Bounds k = Some b \<and> Min b = Some lo}
        \<union> {AboveMaximum Redacted hi | b hi. k_Bounds k = Some b \<and> Max b = Some hi})"

lemma checkBounds_secret:
  assumes "k_Secret k" "checkBounds k f = Inl e" shows "e \<in> secret_errors k jk"
  using assms by (auto simp: checkBounds_def secret_errors_def shown_def result_Inl split: option.splits if_splits)

lemma unmarshal_float_error:
  assumes "unmarshal_float (Some j) = Inl e" "\<forall>lit. j = JNum lit \<longrightarrow> parse_float lit \<noteq> None"
  shows "e = JTypeError (json_kind j) ''float64''"
  using assms by (cases j) (auto simp: unmarshal_float_def unmarshal_def decode_float_def)

lemma rejected_secret_not_echoed:
  assumes "k_Secret k" "validateAgainst oob k (Some j) = Inl e"
    and "\<forall>lit. j = JNum lit \<longrightarrow> parse_float lit \<noteq> None"
  shows "e \<in> secret_errors k (json_kind j)"
proof -
  have f: "e' = JTypeError (json_kind j) ''float64''" if "unmarshal_float (Some j) = Inl e'" for e'
    using unmarshal_float_error[OF that assms(3)] .
  have s: "x = JTypeError (json_kind j) ty" if "unmarshal ty dec z (Some j) = Inl x" for x ty and dec :: "json \<Rightarrow> 'b \<Rightarrow> 'b option" and z
    using that by (cases "dec j z") (auto simp: unmarshal_def)
  have r: "UnsupportedKind (k_Name k) (k_Kind k) \<in> secret_errors k (json_kind j)"
    "ErrInvalidValue (k_Name k) (NotInEnum Redacted (k_Enum k)) \<in> secret_errors k (json_kind j)"
    "ErrInvalidValue (k_Name k) (ExpectedInteger Redacted) \<in> secret_errors k (json_kind j)"
    "ErrInvalidValue (k_Name k) (ExpectedBool (JTypeError (json_kind j) ''bool'')) \<in> secret_errors k (json_kind j)"
    "ErrInvalidValue (k_Name k) (ExpectedString (JTypeError (json_kind j) ''string'')) \<in> secret_errors k (json_kind j)"
    "ErrInvalidValue (k_Name k) (ExpectedNumber (JTypeError (json_kind j) ''float64'')) \<in> secret_errors k (json_kind j)"
    "ErrInvalidValue (k_Name k) (ExpectedSeconds (JTypeError (json_kind j) ''float64'')) \<in> secret_errors k (json_kind j)"
    by (simp_all add: secret_errors_def)
  note cb = checkBounds_secret[OF assms(1)]
  consider "k_Kind k = KindBool" | "k_Kind k = KindString" | "k_Kind k = KindEnum" | "k_Kind k = KindInt"
    | "k_Kind k = KindFloat" | "k_Kind k = KindDuration"
    | "k_Kind k \<notin> {KindBool, KindString, KindEnum, KindInt, KindFloat, KindDuration}" by blast
  then show ?thesis
  proof cases
    case 1
    then have "e = ErrInvalidValue (k_Name k) (ExpectedBool (JTypeError (json_kind j) ''bool''))"
      using assms(2) by (auto simp: validateAgainst_def invalid_def result_Inl dest: s)
    then show ?thesis using r by simp
  next
    case 2
    then have "e = ErrInvalidValue (k_Name k) (ExpectedString (JTypeError (json_kind j) ''string''))"
      using assms(2) by (auto simp: validateAgainst_def invalid_def result_Inl dest: s)
    then show ?thesis using r by simp
  next
    case 3
    then have "e = ErrInvalidValue (k_Name k) (ExpectedString (JTypeError (json_kind j) ''string''))
        \<or> e = ErrInvalidValue (k_Name k) (NotInEnum Redacted (k_Enum k))"
      using assms(1,2)
      by (auto simp: validateAgainst_def invalid_def result_Inl validate_enum_def shown_def dest: s split: if_splits)
    then show ?thesis using r by auto
  next
    case 4
    then have "e = ErrInvalidValue (k_Name k) (ExpectedNumber (JTypeError (json_kind j) ''float64''))
        \<or> (\<exists>x. validate_int oob k x = Inl e)"
      using assms(2) by (auto simp: validateAgainst_def invalid_def result_Inl dest: f)
    then show ?thesis
      using r cb assms(1) by (auto simp: validate_int_def shown_def result_Inl split: if_splits)
  next
    case 5
    then have "e = ErrInvalidValue (k_Name k) (ExpectedNumber (JTypeError (json_kind j) ''float64''))
        \<or> (\<exists>x. checkBounds k x = Inl e)"
      using assms(2) by (auto simp: validateAgainst_def invalid_def result_Inl dest: f)
    then show ?thesis using r cb by auto
  next
    case 6
    then have "e = ErrInvalidValue (k_Name k) (ExpectedSeconds (JTypeError (json_kind j) ''float64''))
        \<or> (\<exists>x. checkBounds k x = Inl e)"
      using assms(2) by (auto simp: validateAgainst_def invalid_def result_Inl dest: f)
    then show ?thesis using r cb by auto
  next
    case 7
    then show ?thesis using assms(2) r(1) by (simp add: validateAgainst_def)
  qed
qed

lemma rejected_secret_not_echoed_witness:
  "\<exists>e. validateAgainst amd64_oob token_key (Some (JBool True)) = Inl e \<and> e \<in> secret_errors token_key ''bool''"
proof -
  obtain e where e: "validateAgainst amd64_oob token_key (Some (JBool True)) = Inl e"
    by (simp add: validateAgainst_def token_key_def mk_key_def invalid_def unmarshal_def decode_string_def)
  then show ?thesis
    using rejected_secret_not_echoed[OF _ e] by (auto simp: token_key_def mk_key_def)
qed

text \<open>The exception is real: a number that overflows a \<open>float64\<close> is quoted in the rejection, also
  for a secret key.\<close>

lemma secret_literal_echoed:
  assumes "k_Kind k = KindInt \<or> k_Kind k = KindFloat" "parse_float lit = None"
  shows "\<exists>e. validateAgainst oob k (Some (JNum lit)) = Inl e \<and>
    error_text tx e = ''invalid config value: '' @ k_Name k @ '': expected number: json: cannot unmarshal number '' @ lit
      @ '' into Go value of type float64''"
  using assms by (auto simp: validateAgainst_def invalid_def unmarshal_float_def)

lemma parse_float_overflow: "parse_float ''1e400'' = None"
proof -
  have m: "scan_mantissa False False ''1e400'' 0 0 False = (1, 0, True, ''e400'')"
    "read_exponent False ''e400'' = Some 400" "cut_sign ''1e400'' = (False, ''1e400'')"
    "ascii_lower CHR ''e'' = CHR ''e''"
    by code_simp+
  have "rnd (of_int 1 * pw2 1024) = of_int 1 * pw2 1024" by (intro rnd_exact) auto
  then have "rnd overflow = overflow" by (simp add: overflow_eq power_int_def)
  moreover have "overflow \<le> 10 ^ 400" unfolding overflow_eq by simp
  ultimately have "overflow \<le> rnd (10 ^ 400)" using rnd_mono by metis
  then have "round_to False (10 powi 400) = PosInf" by (simp add: round_to_def Let_def power_int_def)
  moreover have "(length ''1e400'' > 2 \<and> hd ''1e400'' = CHR ''0'' \<and> ascii_lower (''1e400'' ! 1) = CHR ''x'') = False"
    by simp
  ultimately have "read_number ''1e400'' = None"
    unfolding read_number_def m(3) Let_def prod.case by (simp only: if_False m prod.case) (simp add: is_inf_def)
  then show ?thesis by (simp add: parse_float_def m(3))
qed

lemma secret_literal_echoed_witness:
  "\<exists>e. k_Secret ((mk_key ''pin'' KindInt (AInt 0))\<lparr>k_Secret := True\<rparr>) \<and>
     validateAgainst amd64_oob ((mk_key ''pin'' KindInt (AInt 0))\<lparr>k_Secret := True\<rparr>) (Some (JNum ''1e400'')) = Inl e \<and>
     error_text \<lparr>tx_unicode = ascii_only, tx_float = (\<lambda>_. []), tx_syntax = []\<rparr> e =
       ''invalid config value: pin: expected number: json: cannot unmarshal number 1e400 into Go value of type float64''"
  using secret_literal_echoed[OF _ parse_float_overflow,
      of "(mk_key ''pin'' KindInt (AInt 0))\<lparr>k_Secret := True\<rparr>" amd64_oob
        "\<lparr>tx_unicode = ascii_only, tx_float = (\<lambda>_. []), tx_syntax = []\<rparr>"]
  by (simp add: mk_key_def)

end
