(* ===== verification/AdminApi.thy ===== *)
theory AdminApi
  imports ClaimsAuth AdminFlags RuntimeReads
begin

text \<open>
  The admin REST surface (\<open>src/admin/admin.go\<close>, \<open>handlers.go\<close>): its routes, the two guards in
  front of them, and the handlers over the configuration manager and the flag set. A handler is a
  step of the service (manager and flags) and of the request context. A request body is the first
  JSON value of the body, or \<open>None\<close> when there is none.
\<close>

subsection \<open>The service\<close>

definition ContractVersion :: string where "ContractVersion = ''1''"

record ('s, 't) service =
  sv_Prefix :: string
  sv_Service :: string
  sv_Version :: string
  sv_Stage :: string
  sv_Manager :: "'s Manager"
  sv_Flags :: "'t FlagSet option"
  sv_BootTime :: gotime

text \<open>What the handlers get from outside: the two stores, the processor's conversion, formatting of
  floats, the environment and the clock.\<close>

record ('s, 't) runtime =
  rt_store :: "'s Store"
  rt_flag_store :: "'t Store"
  rt_oob :: "f64 \<Rightarrow> int"
  rt_texts :: texts
  rt_json_float :: "f64 \<Rightarrow> string"
  rt_env :: environ
  rt_now :: gotime

subsection \<open>JSON of the payloads\<close>

text \<open>\<open>Duration.Round(time.Second).String()\<close>: rounding half away from zero; hours, minutes and seconds.\<close>

definition round_second :: "duration \<Rightarrow> int" where
  "round_second d = (if d < 0 then - ((- d + 500000000) div 1000000000) else (d + 500000000) div 1000000000)"

definition seconds_string :: "int \<Rightarrow> string" where
  "seconds_string s =
     (let a = \<bar>s\<bar>; h = a div 3600; m = a div 60 mod 60
      in (if s < 0 then ''-'' else [])
         @ (if 0 < h then int_to_string h @ ''h'' else [])
         @ (if 0 < h \<or> 0 < m then int_to_string m @ ''m'' else [])
         @ int_to_string (a mod 60) @ ''s'')"

definition Info_json :: "('s, 't) runtime \<Rightarrow> ('s, 't) service \<Rightarrow> json" where
  "Info_json rt sv = JObj [(''service'', JStr (sv_Service sv)), (''version'', JStr (sv_Version sv)),
     (''stage'', JStr (sv_Stage sv)), (''store'', JStr (StoreKind (rt_store rt))),
     (''uptime'', JStr (seconds_string (round_second (time_sub (rt_now rt) (sv_BootTime sv))))),
     (''contract_version'', JStr ContractVersion)]"

fun any_json :: "(f64 \<Rightarrow> string) \<Rightarrow> any_value \<Rightarrow> json" where
  "any_json jf (AInt n) = JNum (int_to_string n)"
| "any_json jf (AInt64 n) = JNum (int_to_string n)"
| "any_json jf (AFloat64 f) = JNum (jf f)"
| "any_json jf (ABool b) = JBool b"
| "any_json jf (AString s) = JStr s"
| "any_json jf (ADuration d) = JNum (int_to_string d)"
| "any_json jf ANil = JNull"
| "any_json jf (AOther _) = JNull"

definition omit_empty :: "string \<Rightarrow> string \<Rightarrow> (string \<times> json) list" where
  "omit_empty name s = (if s = [] then [] else [(name, JStr s)])"

definition Bounds_json :: "(f64 \<Rightarrow> string) \<Rightarrow> Bounds \<Rightarrow> json" where
  "Bounds_json jf b = JObj
     ((case Min b of None \<Rightarrow> [] | Some f \<Rightarrow> [(''min'', JNum (jf f))])
      @ (case Max b of None \<Rightarrow> [] | Some f \<Rightarrow> [(''max'', JNum (jf f))]))"

definition KeyView_json :: "(f64 \<Rightarrow> string) \<Rightarrow> KeyView \<Rightarrow> json" where
  "KeyView_json jf v = JObj
     ([(''key'', JStr (kv_Key v)), (''value'', any_json jf (kv_Value v)), (''type'', JStr (kv_Type v)),
       (''default'', any_json jf (kv_Default v)), (''source'', JStr (kv_Source v))]
      @ omit_empty ''description'' (kv_Description v) @ omit_empty ''unit'' (kv_Unit v)
      @ [(''mutable'', JBool (kv_Mutable v)), (''restart_required'', JBool (kv_RestartRequired v))]
      @ (case kv_Bounds v of None \<Rightarrow> [] | Some b \<Rightarrow> [(''bounds'', Bounds_json jf b)])
      @ (if kv_Enum v = [] then [] else [(''enum'', JArr (List.map JStr (kv_Enum v)))])
      @ (if kv_Secret v then [(''secret'', JBool True)] else []))"

definition FlagView_json :: "FlagView \<Rightarrow> json" where
  "FlagView_json v = JObj ([(''name'', JStr (fv_Name v)), (''value'', JBool (fv_Value v)),
     (''default'', JBool (fv_Default v))] @ omit_empty ''description'' (fv_Description v))"

subsection \<open>Handlers\<close>

definition getInfo :: "('s, 't) runtime \<Rightarrow> ('s, 't) service \<Rightarrow> gin_ctx \<Rightarrow> gin_ctx" where
  "getInfo rt sv c = write_json 200 (Info_json rt sv) c"

definition getConfig :: "('s, 't) runtime \<Rightarrow> ('s, 't) service \<Rightarrow> gin_ctx \<Rightarrow> gin_ctx" where
  "getConfig rt sv c =
     write_json 200 (JObj [(''config'',
       JArr (List.map (KeyView_json (rt_json_float rt)) (MergedView (sv_Manager sv))))]) c"

text \<open>The body \<open>{"value": ...}\<close>: a raw message, empty when the field is missing.\<close>

definition put_body :: "raw_message \<Rightarrow> raw_message option" where
  "put_body body =
     (case unmarshal ''putConfigBody'' (decode_struct [(''value'', \<lambda>j _. Some (Some j))]) None body of
        Inl _ \<Rightarrow> None
      | Inr v \<Rightarrow> (case v of None \<Rightarrow> None | Some j \<Rightarrow> Some (Some j)))"

definition put_error :: "texts \<Rightarrow> config_error \<Rightarrow> gin_ctx \<Rightarrow> gin_ctx" where
  "put_error tx e c =
     (case e of
        ErrUnknownKey \<Rightarrow> SendNotFound c True
      | ErrImmutable \<Rightarrow> SendAPIError c 409 ''IMMUTABLE'' ''config key is not mutable at runtime'' []
      | ErrInvalidValue _ _ \<Rightarrow> SendAPIError c 400 ''INVALID_VALUE'' (error_text tx e) []
      | _ \<Rightarrow> SendInternalError c True (Some (error_text tx e)))"

definition ok_key :: "string \<Rightarrow> json" where
  "ok_key key = JObj [(''key'', JStr key), (''ok'', JBool True)]"

definition putConfig :: "('s, 't) runtime \<Rightarrow> string \<Rightarrow> raw_message \<Rightarrow> ('s, 't) service \<Rightarrow> gin_ctx
    \<Rightarrow> ('s, 't) service \<times> gin_ctx" where
  "putConfig rt key body sv c =
     (case put_body body of
        None \<Rightarrow> (sv, SendAPIError c 400 ''INVALID_REQUEST''
            (''request body must be {'' @ [CHR 0x22] @ ''value'' @ [CHR 0x22] @ '': <value>}'') [])
      | Some raw \<Rightarrow>
          let (err, m) = Apply (rt_oob rt) (rt_store rt) key raw (sv_Manager sv)
          in (sv\<lparr>sv_Manager := m\<rparr>,
              case err of None \<Rightarrow> write_json 200 (ok_key key) c | Some e \<Rightarrow> put_error (rt_texts rt) e c))"

definition delete_error :: "texts \<Rightarrow> config_error \<Rightarrow> gin_ctx \<Rightarrow> gin_ctx" where
  "delete_error tx e c =
     (case e of
        ErrUnknownKey \<Rightarrow> SendNotFound c True
      | ErrImmutable \<Rightarrow> SendAPIError c 409 ''IMMUTABLE'' ''config key is not mutable at runtime'' []
      | _ \<Rightarrow> SendInternalError c True (Some (error_text tx e)))"

definition deleteConfig :: "('s, 't) runtime \<Rightarrow> string \<Rightarrow> ('s, 't) service \<Rightarrow> gin_ctx \<Rightarrow> ('s, 't) service \<times> gin_ctx" where
  "deleteConfig rt key sv c =
     (let (err, m) = Clear (rt_store rt) key (sv_Manager sv)
      in (sv\<lparr>sv_Manager := m\<rparr>,
          case err of None \<Rightarrow> write_json 200 (ok_key key) c | Some e \<Rightarrow> delete_error (rt_texts rt) e c))"

definition getFlags :: "('s, 't) service \<Rightarrow> gin_ctx \<Rightarrow> gin_ctx" where
  "getFlags sv c =
     (case sv_Flags sv of
        None \<Rightarrow> write_json 200 (JObj [(''flags'', JArr [])]) c
      | Some f \<Rightarrow> write_json 200 (JObj [(''flags'', JArr (List.map FlagView_json (Snapshot f)))]) c)"

definition toggle_body :: "raw_message \<Rightarrow> bool option" where
  "toggle_body body =
     (case unmarshal ''toggleFlagBody'' (decode_struct [(''value'', decode_ptr decode_bool False)]) None body of
        Inl _ \<Rightarrow> None
      | Inr v \<Rightarrow> v)"

definition toggleFlag :: "('s, 't) runtime \<Rightarrow> string \<Rightarrow> raw_message \<Rightarrow> ('s, 't) service \<Rightarrow> gin_ctx
    \<Rightarrow> ('s, 't) service \<times> gin_ctx" where
  "toggleFlag rt flag body sv c =
     (case sv_Flags sv of
        None \<Rightarrow> (sv, SendNotFound c True)
      | Some f \<Rightarrow>
          (case toggle_body body of
             None \<Rightarrow> (sv, SendAPIError c 400 ''INVALID_REQUEST''
                 (''request body must be {'' @ [CHR 0x22] @ ''value'' @ [CHR 0x22] @ '': <bool>}'') [])
           | Some value \<Rightarrow>
               (case Flags_Set (rt_flag_store rt) flag value f of
                  (Some ErrUnknownFlag, f') \<Rightarrow> (sv\<lparr>sv_Flags := Some f'\<rparr>, SendNotFound c True)
                | (Some (PersistFlagFailed n e), f') \<Rightarrow>
                    (sv\<lparr>sv_Flags := Some f'\<rparr>,
                     SendInternalError c True (Some (''persist flag '' @ n @ '': '' @ e)))
                | (None, f') \<Rightarrow>
                    (sv\<lparr>sv_Flags := Some f'\<rparr>,
                     write_json 200 (JObj [(''flag'', JStr flag), (''ok'', JBool True), (''value'', JBool value)]) c))))"

subsection \<open>Routes\<close>

text \<open>The routes that \<open>Register\<close> mounts, the path parameters as arguments; a service's own endpoint is
  any handler.\<close>

datatype ('s, 't) route =
    GetInfo
  | GetConfig
  | PutConfig string raw_message
  | DeleteConfig string
  | GetFlags
  | ToggleFlag string raw_message
  | Endpoint "('s, 't) service \<Rightarrow> gin_ctx \<Rightarrow> ('s, 't) service \<times> gin_ctx"

fun handle :: "('s, 't) runtime \<Rightarrow> ('s, 't) route \<Rightarrow> ('s, 't) service \<Rightarrow> gin_ctx \<Rightarrow> ('s, 't) service \<times> gin_ctx" where
  "handle rt GetInfo sv c = (sv, getInfo rt sv c)"
| "handle rt GetConfig sv c = (sv, getConfig rt sv c)"
| "handle rt (PutConfig key body) sv c = putConfig rt key body sv c"
| "handle rt (DeleteConfig key) sv c = deleteConfig rt key sv c"
| "handle rt GetFlags sv c = (sv, getFlags sv c)"
| "handle rt (ToggleFlag flag body) sv c = toggleFlag rt flag body sv c"
| "handle rt (Endpoint h) sv c = h sv c"

text \<open>The group's middlewares run first; the handler runs unless they aborted.\<close>

definition serve :: "('s, 't) runtime \<Rightarrow> ('s, 't) route \<Rightarrow> ('s, 't) service \<Rightarrow> gin_ctx \<Rightarrow> ('s, 't) service \<times> gin_ctx" where
  "serve rt route sv c =
     (let c1 = run_chain [FromHeader (tx_unicode (rt_texts rt)) (rt_env rt), RequireAdmin (rt_env rt)] c
      in if g_aborted c1 then (sv, c1) else handle rt route sv c1)"

definition Register_admin :: "gotime \<Rightarrow> ('s, 't) service \<Rightarrow> ('s, 't) service" where
  "Register_admin now sv = (if t_ns (sv_BootTime sv) = t_ns zero_time then sv\<lparr>sv_BootTime := now\<rparr> else sv)"

subsection \<open>Properties\<close>

lemma error_response_SendAPIError:
  "g_response c = None \<Longrightarrow> error_response st code (SendAPIError c st code msg fs)"
  by (auto simp: error_response_def SendAPIError_def Let_def)

lemma error_response_SendNotFound: "g_response c = None \<Longrightarrow> error_response 404 CodeNotFound (SendNotFound c l)"
  by (auto simp: error_response_def SendNotFound_def)

lemma error_response_SendInternalError:
  "g_response c = None \<Longrightarrow> error_response 500 CodeInternalError (SendInternalError c l e)"
  by (auto simp: error_response_def SendInternalError_def Let_def)

lemmas error_responses = error_response_SendAPIError error_response_SendNotFound error_response_SendInternalError
  error_response_forbidden

lemma FromHeader_outcome:
  assumes "g_response c = None" "\<not> g_aborted c"
  shows "(\<not> g_aborted (FromHeader U env c) \<and> g_response (FromHeader U env c) = None
      \<and> g_header (FromHeader U env c) = g_header c)
    \<or> (g_aborted (FromHeader U env c) \<and> (error_response 401 CodeAuthFailed (FromHeader U env c)
         \<or> error_response 500 CodeInternalError (FromHeader U env c)))"
  using assms
  by (simp add: FromHeader_def Let_def error_response_SendInternalError error_response_SendAPIError)

text \<open>C24. An unauthorised admin request has no effect. Whatever the route, a service's own endpoints
  included: without the gateway's admin header and without the double opt-out, the service's state
  is unchanged and the answer is an error envelope with status 401, 403 or 500.\<close>

theorem unauthorised_admin_request:
  assumes "g_response c = None" "\<not> g_aborted c" "GetHeader c HeaderAdmin \<noteq> AdminHeaderValue"
    and "\<not> adminPassThrough (rt_env rt)"
  shows "\<exists>c' st code. serve rt route sv c = (sv, c') \<and> g_aborted c' \<and> error_response st code c' \<and> st \<in> {401, 403, 500}"
proof -
  let ?U = "tx_unicode (rt_texts rt)"
  let ?c1 = "FromHeader ?U (rt_env rt) c"
  show ?thesis
  proof (cases "g_aborted ?c1")
    case True
    then have "error_response 401 CodeAuthFailed ?c1 \<or> error_response 500 CodeInternalError ?c1"
      using FromHeader_outcome[OF assms(1,2)] by blast
    moreover have "serve rt route sv c = (sv, ?c1)" using True assms(2) by (simp add: serve_def)
    ultimately show ?thesis using True by blast
  next
    case False
    then have h: "g_response ?c1 = None" "GetHeader ?c1 HeaderAdmin \<noteq> AdminHeaderValue"
      using FromHeader_outcome[OF assms(1,2), of ?U "rt_env rt"] assms(3) by (auto simp: GetHeader_def)
    then have "error_response 403 CodeForbidden (RequireAdmin (rt_env rt) ?c1)"
      "g_aborted (RequireAdmin (rt_env rt) ?c1)"
      using assms(4) by (simp_all add: RequireAdmin_def error_response_forbidden)
    moreover from this have "serve rt route sv c = (sv, RequireAdmin (rt_env rt) ?c1)"
      using False assms(2) by (simp add: serve_def Let_def)
    ultimately show ?thesis by blast
  qed
qed

definition test_texts :: texts where
  "test_texts = \<lparr>tx_unicode = ascii_only, tx_float = (\<lambda>_. ''0''), tx_syntax = []\<rparr>"

definition test_runtime :: "(mem_store, mem_store) runtime" where
  "test_runtime = \<lparr>rt_store = MemStore, rt_flag_store = MemStore, rt_oob = amd64_oob, rt_texts = test_texts,
     rt_json_float = (\<lambda>_. ''0''), rt_env = (\<lambda>_. None), rt_now = zero_time\<rparr>"

definition test_service :: "(mem_store, mem_store) service" where
  "test_service = \<lparr>sv_Prefix = ''/admin/radar'', sv_Service = ''radar'', sv_Version = ''1'', sv_Stage = ''test'',
     sv_Manager = cap_step, sv_Flags = Some flags_now, sv_BootTime = zero_time\<rparr>"

lemma test_env: "\<not> adminPassThrough (\<lambda>_. None)"
  by (simp add: adminPassThrough_def trustSource_def legacyTrustEnvVars_def)

theorem unauthorised_admin_request_witness:
  "fst (serve test_runtime (ToggleFlag ''beta'' (Some (JObj [(''value'', JBool False)]))) test_service fresh_ctx) = test_service"
proof -
  have "g_response fresh_ctx = None" "\<not> g_aborted fresh_ctx" "GetHeader fresh_ctx HeaderAdmin \<noteq> AdminHeaderValue"
    by (simp_all add: fresh_ctx_def GetHeader_def header_get_def AdminHeaderValue_def)
  moreover have "\<not> adminPassThrough (rt_env test_runtime)" using test_env by (simp add: test_runtime_def)
  ultimately have "\<exists>c' st code. serve test_runtime (ToggleFlag ''beta'' (Some (JObj [(''value'', JBool False)]))) test_service
      fresh_ctx = (test_service, c') \<and> g_aborted c' \<and> error_response st code c' \<and> st \<in> {401, 403, 500}"
    by (rule unauthorised_admin_request)
  then show ?thesis by (elim exE conjE) simp
qed

text \<open>C25. The answer to a PUT tells what happened: 400 for a malformed body, 404 for an unknown key,
  409 for an immutable one, 400 for a rejected value, 500 for a store failure, and 200 exactly when
  the manager took the value. Nothing but a 200 or a 500 can have changed the service.\<close>

definition put_status :: "config_error option \<Rightarrow> int" where
  "put_status e = (case e of None \<Rightarrow> 200 | Some ErrUnknownKey \<Rightarrow> 404 | Some ErrImmutable \<Rightarrow> 409
     | Some (ErrInvalidValue _ _) \<Rightarrow> 400 | _ \<Rightarrow> 500)"

lemma put_error_status:
  "g_response c = None \<Longrightarrow> \<exists>code. error_response (put_status (Some e)) code (put_error tx e c)"
  by (cases e) (auto simp: put_error_def put_status_def intro: error_responses)

theorem putConfig_answers:
  assumes "g_response c = None" "putConfig rt key body sv c = (sv', c')"
  shows "(put_body body = None \<longrightarrow> sv' = sv \<and> error_response 400 ''INVALID_REQUEST'' c')
    \<and> (\<forall>raw e m. put_body body = Some raw \<longrightarrow> Apply (rt_oob rt) (rt_store rt) key raw (sv_Manager sv) = (e, m) \<longrightarrow>
         sv' = sv\<lparr>sv_Manager := m\<rparr>
         \<and> (e = None \<longleftrightarrow> g_response c' = Some (200, ok_key key))
         \<and> (e \<noteq> None \<longrightarrow> (\<exists>code. error_response (put_status e) code c'))
         \<and> (put_status e \<notin> {200, 500} \<longrightarrow> sv' = sv))"
proof -
  have ok: "error_response st code c' \<Longrightarrow> st \<noteq> 200 \<Longrightarrow> g_response c' \<noteq> Some (200, ok_key key)" for st code
    by (auto simp: error_response_def)
  have same: "sv\<lparr>sv_Manager := m\<rparr> = sv"
    if "Apply (rt_oob rt) (rt_store rt) key raw (sv_Manager sv) = (e, m)" "put_status e \<notin> {200, 500}" for raw e m
    using that by (cases rule: Apply_cases[OF that(1)]) (auto simp: put_status_def)
  show ?thesis
  proof (cases "put_body body")
    case None
    then show ?thesis using assms by (auto simp: putConfig_def intro: error_responses)
  next
    case (Some raw)
    obtain e m where a: "Apply (rt_oob rt) (rt_store rt) key raw (sv_Manager sv) = (e, m)" by fastforce
    show ?thesis
    proof (cases e)
      case None
      then show ?thesis using assms Some a by (auto simp: putConfig_def write_json_def put_status_def)
    next
      case (Some x)
      have c': "c' = put_error (rt_texts rt) x c" "sv' = sv\<lparr>sv_Manager := m\<rparr>"
        using assms(2) \<open>put_body body = Some raw\<close> a Some by (auto simp: putConfig_def)
      obtain code where code: "error_response (put_status e) code c'"
        using put_error_status[OF assms(1), of x] c' Some by blast
      have "put_status e \<noteq> 200" using Some by (simp add: put_status_def split: config_error.split)
      then show ?thesis
        using ok[OF code] code same[OF a] c' a \<open>put_body body = Some raw\<close> Some by auto
    qed
  qed
qed

theorem putConfig_answers_witness:
  "\<exists>sv' c' code. putConfig test_runtime ''cap'' (Some (JObj [(''value'', JNum ''11'')])) test_service fresh_ctx = (sv', c')
     \<and> error_response 400 code c' \<and> sv' = test_service"
proof -
  let ?b = "Some (JObj [(''value'', JNum ''11'')])"
  obtain sv' c' where p: "putConfig test_runtime ''cap'' ?b test_service fresh_ctx = (sv', c')" by fastforce
  have f: "g_response fresh_ctx = None" by (simp add: fresh_ctx_def)
  have b: "put_body ?b = Some (Some (JNum ''11''))"
    by (simp add: put_body_def unmarshal_def decode_struct_def)
  have a: "Apply (rt_oob test_runtime) (rt_store test_runtime) ''cap'' (Some (JNum ''11'')) (sv_Manager test_service)
      = (Some (ErrInvalidValue ''cap'' (AboveMaximum (ShownFloat (Fin 11)) (Fin 10))), cap_history)"
    using cap_history(1) by (simp add: test_runtime_def test_service_def)
  have r: "sv' = test_service\<lparr>sv_Manager := cap_history\<rparr>
      \<and> (\<exists>code. error_response (put_status (Some (ErrInvalidValue ''cap'' (AboveMaximum (ShownFloat (Fin 11)) (Fin 10))))) code c')"
    using putConfig_answers[OF f p] b a by blast
  moreover have "test_service\<lparr>sv_Manager := cap_history\<rparr> = test_service" by (simp add: test_service_def cap_history(2))
  ultimately show ?thesis using p by (auto simp: put_status_def)
qed

text \<open>A store outage is answered without its details: whatever error text the store gives, for a
  PUT, a DELETE and a flag toggle, the response is the same 500 envelope.\<close>

lemma store_errors_not_disclosed:
  assumes "g_response c = None"
    and "Apply (rt_oob rt) (rt_store rt) key raw (sv_Manager sv) = (Some (PersistFailed key e), m)" "put_body body = Some raw"
    and "Clear (rt_store rt) key (sv_Manager sv) = (Some (DeleteFailed key e), m2)"
    and "sv_Flags sv = Some f" "Flags_Set (rt_flag_store rt) flag b f = (Some (PersistFlagFailed flag e), f')" "toggle_body tbody = Some b"
  shows "g_response (snd (putConfig rt key body sv c)) = g_response (SendInternalError c False None)
    \<and> g_response (snd (deleteConfig rt key sv c)) = g_response (SendInternalError c False None)
    \<and> g_response (snd (toggleFlag rt flag tbody sv c)) = g_response (SendInternalError c False None)"
  using assms
  by (simp add: putConfig_def deleteConfig_def toggleFlag_def put_error_def delete_error_def SendInternalError_def Let_def
      abort_with_json_response)

text \<open>A store that is down.\<close>

definition DownStore :: "mem_store Store" where
  "DownStore = \<lparr>so_LoadAll = (\<lambda>_. Inl ''down''), so_Upsert = (\<lambda>n r s. (Some ''db at 10.1.2.3 is down'', s)),
     so_Delete = (\<lambda>n s. (Some ''db at 10.1.2.3 is down'', s)), so_Kind = ''postgres''\<rparr>"

lemma store_errors_not_disclosed_witness:
  "g_response (snd (putConfig (test_runtime\<lparr>rt_store := DownStore, rt_flag_store := DownStore\<rparr>) ''cap''
       (Some (JObj [(''value'', JNum ''7'')])) test_service fresh_ctx)) = g_response (SendInternalError fresh_ctx False None)"
proof -
  let ?rt = "test_runtime\<lparr>rt_store := DownStore, rt_flag_store := DownStore\<rparr>"
  let ?e = "''db at 10.1.2.3 is down''"
  have reg: "Lookup (mg_reg cap_step) ''cap'' = Some cap_key" by (simp add: cap_step(3) cap_lookup)
  have a: "Apply (rt_oob ?rt) (rt_store ?rt) ''cap'' (Some (JNum ''7'')) (sv_Manager test_service)
      = (Some (PersistFailed ''cap'' ?e), cap_step\<lparr>mg_store := mg_store cap_step\<rparr>)"
    "Clear (rt_store ?rt) ''cap'' (sv_Manager test_service) = (Some (DeleteFailed ''cap'' ?e), cap_step\<lparr>mg_store := mg_store cap_step\<rparr>)"
    by (simp_all add: Apply_def Clear_def test_service_def test_runtime_def DownStore_def reg cap_lookup cap_validate)
  have b: "put_body (Some (JObj [(''value'', JNum ''7'')])) = Some (Some (JNum ''7''))"
    by (simp add: put_body_def unmarshal_def decode_struct_def)
  have t: "toggle_body (Some (JObj [(''value'', JBool True)])) = Some True"
    by (simp add: toggle_body_def unmarshal_def decode_struct_def decode_ptr_def decode_bool_def)
  have f: "sv_Flags test_service = Some flags_now"
    "Flags_Set (rt_flag_store ?rt) ''beta'' True flags_now = (Some (PersistFlagFailed ''beta'' ?e), flags_now\<lparr>fs_store := fs_store flags_now\<rparr>)"
    using flag_history_known[OF flags_now_history]
    by (simp_all add: test_service_def Flags_Set_def DownStore_def two_flags_def)
  have "g_response fresh_ctx = None" by (simp add: fresh_ctx_def)
  from store_errors_not_disclosed[OF this a(1) b a(2) f t] show ?thesis by blast
qed

text \<open>A toggle without a boolean \<open>value\<close> (missing, misspelled, \<open>null\<close> or of another type) is a 400
  and leaves every flag alone; with one, the answer is 200 exactly when the flag is declared and the
  store took the write, and the flag then reads as that value.\<close>

lemma toggleFlag_answers:
  assumes "g_response c = None" "sv_Flags sv = Some f" "toggleFlag rt flag body sv c = (sv', c')"
  shows "(toggle_body body = None \<longrightarrow> sv' = sv \<and> error_response 400 ''INVALID_REQUEST'' c')
    \<and> (\<forall>v. toggle_body body = Some v \<and> fs_byName f flag = None \<longrightarrow>
         sv_Flags sv' = sv_Flags sv \<and> error_response 404 CodeNotFound c')
    \<and> (\<forall>v. toggle_body body = Some v \<and> g_response c' = Some (200, JObj [(''flag'', JStr flag), (''ok'', JBool True), (''value'', JBool v)]) \<longrightarrow>
         (\<exists>f'. sv_Flags sv' = Some f' \<and> Enabled f' flag = v \<and> fs_byName f flag \<noteq> None))"
proof -
  have j: "APIError_json x \<noteq> JObj [(''flag'', JStr flag), (''ok'', JBool True), (''value'', JBool v)]" for x v
    by (simp add: APIError_json_def)
  show ?thesis
  proof (cases "toggle_body body")
    case None
    then show ?thesis using assms by (auto simp: toggleFlag_def intro: error_responses)
  next
    case (Some v)
    obtain e f' where s: "Flags_Set (rt_flag_store rt) flag v f = (e, f')" by fastforce
    then show ?thesis
    proof (cases rule: Flags_Set_cases)
      case unknown
      then show ?thesis using assms Some s j
        by (auto simp: toggleFlag_def intro: error_responses) (auto simp: SendNotFound_def)
    next
      case (failed s x)
      then show ?thesis using assms Some \<open>Flags_Set _ _ _ _ = _\<close> j
        by (auto simp: toggleFlag_def SendInternalError_def Let_def)
    next
      case (applied s)
      then show ?thesis using assms Some \<open>Flags_Set _ _ _ _ = _\<close> by (auto simp: toggleFlag_def Enabled_def)
    qed
  qed
qed

lemma toggleFlag_answers_witness:
  "\<exists>sv' c'. toggleFlag test_runtime ''beta'' (Some (JObj [(''valeu'', JBool False)])) test_service fresh_ctx = (sv', c')
     \<and> sv' = test_service \<and> error_response 400 ''INVALID_REQUEST'' c'"
proof -
  let ?b = "Some (JObj [(''valeu'', JBool False)])"
  obtain sv' c' where t: "toggleFlag test_runtime ''beta'' ?b test_service fresh_ctx = (sv', c')" by fastforce
  have f: "g_response fresh_ctx = None" "sv_Flags test_service = Some flags_now"
    by (simp_all add: fresh_ctx_def test_service_def)
  have "toggle_body ?b = None" by code_simp
  then show ?thesis using toggleFlag_answers[OF f t] t by blast
qed

end
