(* ===== verification/Shapefile.thy ===== *)
theory Shapefile
  imports GoJson
begin

text \<open>
  The package \<open>shapefile\<close> (\<open>src/shapefile/provider.go\<close>): the country polygons of a GeoJSON document,
  looked up by name, ISO code or alias. The embedded document is an argument; log output is left
  out.
\<close>

subsection \<open>Decoding GeoJSON\<close>

record PointXY =
  xy_Lon :: f64
  xy_Lat :: f64

type_synonym PolygonRings = "PointXY list list"

record CountryPolygon =
  cp_Name :: string
  cp_Rings :: PolygonRings

record geoJSONProperties =
  gp_Name :: string
  gp_ISOA2 :: string
  gp_ISOA3 :: string
  gp_ISOA2EH :: string
  gp_ISOA3EH :: string

record geoJSONGeometry =
  gg_Type :: string
  gg_Coordinates :: "json option"   \<comment> \<open>\<open>None\<close>: the empty raw message\<close>

record geoJSONFeature =
  gf_Properties :: geoJSONProperties
  gf_Geometry :: geoJSONGeometry

definition properties_fields :: "(string \<times> (json \<Rightarrow> geoJSONProperties \<Rightarrow> geoJSONProperties option)) list" where
  "properties_fields =
     [field_of ''NAME'' gp_Name gp_Name_update decode_string,
      field_of ''ISO_A2'' gp_ISOA2 gp_ISOA2_update decode_string,
      field_of ''ISO_A3'' gp_ISOA3 gp_ISOA3_update decode_string,
      field_of ''ISO_A2_EH'' gp_ISOA2EH gp_ISOA2EH_update decode_string,
      field_of ''ISO_A3_EH'' gp_ISOA3EH gp_ISOA3EH_update decode_string]"

definition geometry_fields :: "(string \<times> (json \<Rightarrow> geoJSONGeometry \<Rightarrow> geoJSONGeometry option)) list" where
  "geometry_fields =
     [field_of ''type'' gg_Type gg_Type_update decode_string,
      field_of ''coordinates'' gg_Coordinates gg_Coordinates_update (\<lambda>j _. Some (Some j))]"

definition feature_fields :: "(string \<times> (json \<Rightarrow> geoJSONFeature \<Rightarrow> geoJSONFeature option)) list" where
  "feature_fields =
     [field_of ''properties'' gf_Properties gf_Properties_update (decode_struct properties_fields),
      field_of ''geometry'' gf_Geometry gf_Geometry_update (decode_struct geometry_fields)]"

definition zero_feature :: geoJSONFeature where
  "zero_feature = \<lparr>gf_Properties = \<lparr>gp_Name = [], gp_ISOA2 = [], gp_ISOA3 = [], gp_ISOA2EH = [], gp_ISOA3EH = []\<rparr>,
     gf_Geometry = \<lparr>gg_Type = [], gg_Coordinates = None\<rparr>\<rparr>"

definition decode_collection :: "json \<Rightarrow> geoJSONFeature list option" where
  "decode_collection doc =
     decode_struct [(''features'', decode_slice (decode_struct feature_fields) zero_feature)] doc []"

subsection \<open>Geometries\<close>

type_synonym ring_coords = "f64 list list"

definition decode_ring_list :: "json \<Rightarrow> ring_coords list \<Rightarrow> ring_coords list option" where
  "decode_ring_list = decode_slice (decode_slice (decode_slice decode_float (Fin 0)) []) []"

text \<open>The inner loops: a coordinate of fewer than two numbers is skipped.\<close>

fun ring_points :: "ring_coords \<Rightarrow> PointXY list" where
  "ring_points [] = []"
| "ring_points (coord # cs) =
     (if length coord < 2 then ring_points cs
      else \<lparr>xy_Lon = coord ! 0, xy_Lat = coord ! 1\<rparr> # ring_points cs)"

datatype geometry_error = UnsupportedGeometry string | BadCoordinates

definition parsePolygonCoords :: "raw_message \<Rightarrow> geometry_error + PolygonRings" where
  "parsePolygonCoords raw =
     bind_res (map_err (\<lambda>_. BadCoordinates) (unmarshal ''[][][]float64'' decode_ring_list [] raw)) (\<lambda>coords.
     Inr (List.map ring_points coords))"

definition parseMultiPolygonCoords :: "raw_message \<Rightarrow> geometry_error + PolygonRings" where
  "parseMultiPolygonCoords raw =
     bind_res (map_err (\<lambda>_. BadCoordinates)
       (unmarshal ''[][][][]float64'' (decode_slice decode_ring_list []) [] raw)) (\<lambda>multi.
     Inr (List.concat (List.map (List.map ring_points) multi)))"

definition parseGeometry :: "geoJSONGeometry \<Rightarrow> geometry_error + PolygonRings" where
  "parseGeometry g =
     (if gg_Type g = ''Polygon'' then parsePolygonCoords (gg_Coordinates g)
      else if gg_Type g = ''MultiPolygon'' then parseMultiPolygonCoords (gg_Coordinates g)
      else Inl (UnsupportedGeometry (gg_Type g)))"

subsection \<open>The provider\<close>

type_synonym ShapeProvider = "string \<Rightarrow> CountryPolygon option"

definition iso_code :: "string \<Rightarrow> string \<Rightarrow> string list" where
  "iso_code code eh =
     (let c = (if code = ''-99'' \<or> code = [] then eh else code)
      in if c \<noteq> [] \<and> c \<noteq> ''-99'' then [c] else [])"

text \<open>The keys a feature is registered under, in that order: its name, the name without spaces, its
  two ISO codes.\<close>

definition feature_keys :: "unicode \<Rightarrow> geoJSONProperties \<Rightarrow> string list" where
  "feature_keys U p =
     (let nameLower = to_lower U (gp_Name p) in
      if gp_Name p = [] then []
      else nameLower # (let nns = filter (\<lambda>c. c \<noteq> CHR '' '') nameLower in if nns \<noteq> nameLower then [nns] else []))
     @ List.map (to_lower U) (iso_code (gp_ISOA2 p) (gp_ISOA2EH p))
     @ List.map (to_lower U) (iso_code (gp_ISOA3 p) (gp_ISOA3EH p))"

fun register_keys :: "string list \<Rightarrow> CountryPolygon \<Rightarrow> ShapeProvider \<Rightarrow> ShapeProvider" where
  "register_keys [] cp m = m"
| "register_keys (k # ks) cp m = register_keys ks cp (m(k \<mapsto> cp))"

fun register_features :: "unicode \<Rightarrow> geoJSONFeature list \<Rightarrow> ShapeProvider \<Rightarrow> ShapeProvider" where
  "register_features U [] m = m"
| "register_features U (f # fs) m =
     (case parseGeometry (gf_Geometry f) of
        Inl _ \<Rightarrow> register_features U fs m
      | Inr rings \<Rightarrow> register_features U fs
          (register_keys (feature_keys U (gf_Properties f)) \<lparr>cp_Name = gp_Name (gf_Properties f), cp_Rings = rings\<rparr> m))"

definition countryAliases :: "(string \<times> string) list" where
  "countryAliases = [(''CzechRepublic'', ''Czechia''), (''Czech Republic'', ''Czechia'')]"

fun register_aliases :: "unicode \<Rightarrow> (string \<times> string) list \<Rightarrow> ShapeProvider \<Rightarrow> ShapeProvider" where
  "register_aliases U [] m = m"
| "register_aliases U ((alias, target) # as) m =
     register_aliases U as (case m (to_lower U target) of Some cp \<Rightarrow> m(to_lower U alias \<mapsto> cp) | None \<Rightarrow> m)"

text \<open>\<open>None\<close> is the panic on a corrupt document.\<close>

definition NewShapeProvider :: "unicode \<Rightarrow> json \<Rightarrow> ShapeProvider option" where
  "NewShapeProvider U doc =
     (case decode_collection doc of
        None \<Rightarrow> None
      | Some feats \<Rightarrow> Some (register_aliases U countryAliases (register_features U feats (\<lambda>_. None))))"

definition shape_Lookup :: "unicode \<Rightarrow> ShapeProvider option \<Rightarrow> string \<Rightarrow> CountryPolygon option" where
  "shape_Lookup U sp name =
     (case sp of None \<Rightarrow> None | Some m \<Rightarrow> m (to_lower U (trim_space U name)))"

end
