(* ===== verification/Location.thy ===== *)
theory Location
  imports Shapefile GoRegistry
begin

text \<open>
  The package \<open>location\<close> (\<open>src/location/location.go\<close>), first half: the payloads, the registries, the
  parsers of the query grammar and the JSON decoder. The expansion is in \<open>LocationExpand\<close>. The
  three package-level registries are one state.
\<close>

subsection \<open>Payloads\<close>

type_synonym LocationType = string

definition LocationTypePoint :: LocationType where "LocationTypePoint = ''point''"
definition LocationTypePointList :: LocationType where "LocationTypePointList = ''point_list''"
definition LocationTypePolyline :: LocationType where "LocationTypePolyline = ''polyline''"
definition LocationTypeRectangle :: LocationType where "LocationTypeRectangle = ''rectangle''"
definition LocationTypeRadius :: LocationType where "LocationTypeRadius = ''radius''"
definition LocationTypePolygon :: LocationType where "LocationTypePolygon = ''polygon''"
definition LocationTypeBbox :: LocationType where "LocationTypeBbox = ''bbox''"

lemmas location_type_defs = LocationTypePoint_def LocationTypePointList_def LocationTypePolyline_def
  LocationTypeRectangle_def LocationTypeRadius_def LocationTypePolygon_def LocationTypeBbox_def

record PointLocation =
  Lat :: f64
  Lon :: f64

record PointListLocation =
  Points :: "PointLocation list"

record PolylineLocation =
  Coordinates :: "PointLocation list"

record RectangleLocation =
  NorthEast :: PointLocation
  SouthWest :: PointLocation

record RadiusLocation =
  rad_Lat :: f64
  rad_Lon :: f64
  rad_Radius :: f64

record PolygonLocation =
  Rings :: "PointLocation list list"

record BboxLocation =
  West :: f64
  South :: f64
  East :: f64
  North :: f64
  Density :: int

text \<open>A payload is a value or a pointer; a non-nil pointer stands for its value. \<open>LOther\<close> is a nil
  pointer or a value of another type.\<close>

datatype location_payload =
    LPoint PointLocation
  | LPointList PointListLocation
  | LPolyline PolylineLocation
  | LRectangle RectangleLocation
  | LRadius RadiusLocation
  | LPolygon PolygonLocation
  | LBbox BboxLocation
  | LOther

record Location =
  LType :: LocationType
  LPayload :: location_payload

definition MaxRadiusKm :: f64 where "MaxRadiusKm = Fin 200"
definition MaxExpandedRadiusPoints :: int where "MaxExpandedRadiusPoints = 7000"
definition MaxPolylinePoints :: int where "MaxPolylinePoints = 2000"
definition MaxPolygonVertices :: int where "MaxPolygonVertices = 5000"
definition MaxPointsPerDegree :: int where "MaxPointsPerDegree = 100"
definition MaxBboxGridPoints :: int where "MaxBboxGridPoints = 1000000"
definition radiusRingStepKm :: int where "radiusRingStepKm = 3"

datatype location_error =
    BadNumber string
  | LatitudeOutOfRange f64
  | LongitudeOutOfRange f64
  | RadiusNotPositive
  | RadiusTooLarge f64
  | TooManyPoints int
  | TooManyVertices int
  | SouthNotBelowNorth
  | WestNotBelowEast
  | DensityOutOfRange int
  | BboxArity int
  | RectangleArity
  | RectangleCorners int
  | PointArity int
  | UnknownStation string
  | NotARadius string
  | BadPointCount
  | PointCountTooLarge int
  | CoordinateFormat string
  | ExpandsTooFar
  | LMissingValue
  | LMissingPayload
  | LInvalidPayload
  | UnknownLocationType string
  | LNotStringOrObject
  | GoPanic   \<comment> \<open>no error value: a slice expression or a \<open>make\<close> panics\<close>
  | EdgesNotFinite
  | BboxInverted
  | GridTooLarge

subsection \<open>Registries\<close>

record location_registry =
  LocationShortcutsMap :: "string \<Rightarrow> RectangleLocation option"
  StationMap :: "string \<Rightarrow> PointLocation option"
  ActiveShapeProvider :: "ShapeProvider option"

definition RegisterLocationShortcut :: "string \<Rightarrow> RectangleLocation \<Rightarrow> location_registry \<Rightarrow> location_registry" where
  "RegisterLocationShortcut name rect r = r\<lparr>LocationShortcutsMap := (LocationShortcutsMap r)(name \<mapsto> rect)\<rparr>"

definition LookupLocationShortcut :: "location_registry \<Rightarrow> string \<Rightarrow> RectangleLocation option" where
  "LookupLocationShortcut r name = LocationShortcutsMap r name"

definition RegisterStation :: "string \<Rightarrow> PointLocation \<Rightarrow> location_registry \<Rightarrow> location_registry" where
  "RegisterStation i pt r = r\<lparr>StationMap := (StationMap r)(i \<mapsto> pt)\<rparr>"

definition LookupStation :: "location_registry \<Rightarrow> string \<Rightarrow> PointLocation option" where
  "LookupStation r i = StationMap r i"

definition SetShapeProvider :: "ShapeProvider option \<Rightarrow> location_registry \<Rightarrow> location_registry" where
  "SetShapeProvider sp r = r\<lparr>ActiveShapeProvider := sp\<rparr>"

definition active_shape_provider :: "location_registry \<Rightarrow> ShapeProvider option" where
  "active_shape_provider r = ActiveShapeProvider r"

interpretation location_shortcuts: go_registry RegisterLocationShortcut LookupLocationShortcut
  by unfold_locales (simp add: RegisterLocationShortcut_def LookupLocationShortcut_def)

interpretation stations: go_registry RegisterStation LookupStation
  by unfold_locales (simp add: RegisterStation_def LookupStation_def)

definition isPredefinedShortcut :: "location_registry \<Rightarrow> string \<Rightarrow> bool" where
  "isPredefinedShortcut r name \<longleftrightarrow> LookupLocationShortcut r name \<noteq> None"

definition isPredefinedStation :: "location_registry \<Rightarrow> string \<Rightarrow> bool" where
  "isPredefinedStation r name \<longleftrightarrow> LookupStation r name \<noteq> None"

definition zero_point :: PointLocation where "zero_point = \<lparr>Lat = Fin 0, Lon = Fin 0\<rparr>"

definition getLocationFromShortcut :: "location_registry \<Rightarrow> string \<Rightarrow> RectangleLocation" where
  "getLocationFromShortcut r name =
     (case LookupLocationShortcut r name of
        Some l \<Rightarrow> \<lparr>NorthEast = NorthEast l, SouthWest = SouthWest l\<rparr>
      | None \<Rightarrow> \<lparr>NorthEast = zero_point, SouthWest = zero_point\<rparr>)"

definition getLocationFromStationID :: "location_registry \<Rightarrow> string \<Rightarrow> PointLocation" where
  "getLocationFromStationID r i =
     (case LookupStation r i of Some l \<Rightarrow> \<lparr>Lat = Lat l, Lon = Lon l\<rparr> | None \<Rightarrow> zero_point)"

definition tryPolygonFromShortcut :: "unicode \<Rightarrow> location_registry \<Rightarrow> string \<Rightarrow> PolygonLocation option" where
  "tryPolygonFromShortcut U r name =
     (case shape_Lookup U (active_shape_provider r) name of
        None \<Rightarrow> None
      | Some cp \<Rightarrow> Some \<lparr>Rings = List.map (List.map (\<lambda>p. \<lparr>Lat = xy_Lat p, Lon = xy_Lon p\<rparr>)) (cp_Rings cp)\<rparr>)"

subsection \<open>Validation\<close>

definition validateLatLon :: "f64 \<Rightarrow> f64 \<Rightarrow> location_error + unit" where
  "validateLatLon lat lon =
     (if lat = NaN \<or> is_inf lat \<or> flt lat (Fin (- 90)) \<or> flt (Fin 90) lat then Inl (LatitudeOutOfRange lat)
      else if lon = NaN \<or> is_inf lon \<or> flt lon (Fin (- 180)) \<or> flt (Fin 180) lon then Inl (LongitudeOutOfRange lon)
      else Inr ())"

definition validateRadius :: "f64 \<Rightarrow> location_error + unit" where
  "validateRadius radius =
     (if radius = NaN \<or> fle radius (Fin 0) then Inl RadiusNotPositive
      else if flt MaxRadiusKm radius then Inl (RadiusTooLarge radius)
      else Inr ())"

fun validate_each :: "PointLocation list \<Rightarrow> location_error + unit" where
  "validate_each [] = Inr ()"
| "validate_each (p # ps) = bind_res (validateLatLon (Lat p) (Lon p)) (\<lambda>_. validate_each ps)"

definition validatePoints :: "PointLocation list \<Rightarrow> int \<Rightarrow> location_error + unit" where
  "validatePoints pts maxPoints =
     (if int (length pts) > maxPoints then Inl (TooManyPoints (int (length pts))) else validate_each pts)"

fun validate_each_ring :: "PointLocation list list \<Rightarrow> location_error + unit" where
  "validate_each_ring [] = Inr ()"
| "validate_each_ring (r # rs) = bind_res (validatePoints r MaxPolygonVertices) (\<lambda>_. validate_each_ring rs)"

definition validateRings :: "PointLocation list list \<Rightarrow> location_error + unit" where
  "validateRings rings =
     (let vertices = int (sum_list (List.map length rings)) in
      if vertices > MaxPolygonVertices then Inl (TooManyVertices vertices) else validate_each_ring rings)"

definition validateBbox :: "BboxLocation \<Rightarrow> location_error + unit" where
  "validateBbox b =
     bind_res (validateLatLon (South b) (West b)) (\<lambda>_.
     bind_res (validateLatLon (North b) (East b)) (\<lambda>_.
     if fge (South b) (North b) then Inl SouthNotBelowNorth
     else if fge (West b) (East b) then Inl WestNotBelowEast
     else if Density b < 0 \<or> Density b > MaxPointsPerDegree then Inl (DensityOutOfRange (Density b))
     else Inr ()))"

subsection \<open>Parsing coordinates\<close>

definition parse_num :: "string \<Rightarrow> location_error + f64" where
  "parse_num s = of_option (BadNumber s) (parse_float s)"

definition generatePoints :: "PointLocation \<Rightarrow> PointLocation \<Rightarrow> int \<Rightarrow> location_error + PointLocation list" where
  "generatePoints start e count =
     (if count < 2 then Inl BadPointCount
      else let latStep = fdiv (fsub (Lat e) (Lat start)) (f_of_int (count - 1));
               lonStep = fdiv (fsub (Lon e) (Lon start)) (f_of_int (count - 1))
        in Inr (List.map (\<lambda>i. \<lparr>Lat = fadd (Lat start) (fmul (f_of_int (int i)) latStep),
                              Lon = fadd (Lon start) (fmul (f_of_int (int i)) lonStep)\<rparr>) [0..<nat count]))"

definition parse_pair :: "string \<Rightarrow> string \<Rightarrow> location_error + PointLocation list" where
  "parse_pair a b =
     bind_res (parse_num a) (\<lambda>lat.
     bind_res (parse_num b) (\<lambda>lon.
     bind_res (validateLatLon lat lon) (\<lambda>_. Inr [\<lparr>Lat = lat, Lon = lon\<rparr>])))"

definition parse_segment :: "string \<Rightarrow> string \<Rightarrow> string \<Rightarrow> string \<Rightarrow> string \<Rightarrow> location_error + PointLocation list" where
  "parse_segment a b c d n =
     bind_res (parse_num a) (\<lambda>startLat.
     bind_res (parse_num b) (\<lambda>startLon.
     bind_res (parse_num c) (\<lambda>endLat.
     bind_res (parse_num d) (\<lambda>endLon.
     (case atoi n of
        None \<Rightarrow> Inl BadPointCount
      | Some pointCount \<Rightarrow>
          if pointCount < 2 then Inl BadPointCount
          else if pointCount > MaxPolylinePoints then Inl (PointCountTooLarge pointCount)
          else
            bind_res (validateLatLon startLat startLon) (\<lambda>_.
            bind_res (validateLatLon endLat endLon) (\<lambda>_.
            generatePoints \<lparr>Lat = startLat, Lon = startLon\<rparr> \<lparr>Lat = endLat, Lon = endLon\<rparr> pointCount)))))))"

definition parse_part :: "string \<Rightarrow> string \<Rightarrow> location_error + PointLocation list" where
  "parse_part whole part =
     (case split_on CHR '','' part of
        [a, b] \<Rightarrow> parse_pair a b
      | [a, b, c, d, n] \<Rightarrow> parse_segment a b c d n
      | _ \<Rightarrow> Inl (CoordinateFormat whole))"

text \<open>The loop over the parts, with the running total checked after each.\<close>

fun parse_parts :: "string \<Rightarrow> string list \<Rightarrow> PointLocation list \<Rightarrow> location_error + PointLocation list" where
  "parse_parts whole [] coords = Inr coords"
| "parse_parts whole (part # parts) coords =
     bind_res (parse_part whole part) (\<lambda>more.
     (let coords' = coords @ more in
      if int (length coords') > MaxPolylinePoints then Inl ExpandsTooFar
      else parse_parts whole parts coords'))"

definition parseCoordinates :: "string \<Rightarrow> location_error + PointLocation list" where
  "parseCoordinates coordStr = parse_parts coordStr (split_on CHR ''|'' coordStr) []"

definition isRectangle :: "PointLocation list \<Rightarrow> bool" where
  "isRectangle coords \<longleftrightarrow> fgt (Lat (coords ! 0)) (Lat (coords ! 1)) \<and> fgt (Lon (coords ! 0)) (Lon (coords ! 1))"

subsection \<open>Rectangles, radii and boxes\<close>

fun parse_nums :: "unicode \<Rightarrow> string list \<Rightarrow> location_error + f64 list" where
  "parse_nums U [] = Inr []"
| "parse_nums U (p # ps) =
     bind_res (parse_num (trim_space U p)) (\<lambda>v. bind_res (parse_nums U ps) (\<lambda>vs. Inr (v # vs)))"

definition parseRectangleValue :: "unicode \<Rightarrow> string \<Rightarrow> location_error + RectangleLocation" where
  "parseRectangleValue U s =
     (if contains_char CHR ''|'' s then
        bind_res (parseCoordinates s) (\<lambda>coords.
        if length coords \<noteq> 2 then Inl (RectangleCorners (int (length coords)))
        else Inr \<lparr>NorthEast = coords ! 0, SouthWest = coords ! 1\<rparr>)
      else
        (let parts = split_on CHR '','' s in
         if length parts \<noteq> 4 then Inl RectangleArity
         else
           bind_res (parse_nums U parts) (\<lambda>vals.
           bind_res (validateLatLon (vals ! 0) (vals ! 1)) (\<lambda>_.
           bind_res (validateLatLon (vals ! 2) (vals ! 3)) (\<lambda>_.
           Inr \<lparr>NorthEast = \<lparr>Lat = vals ! 2, Lon = vals ! 3\<rparr>, SouthWest = \<lparr>Lat = vals ! 0, Lon = vals ! 1\<rparr>\<rparr>)))))"

text \<open>\<open>tryParseRadius\<close>: not a radius (\<open>None\<close>), or the result of parsing one.\<close>

definition tryParseRadius :: "unicode \<Rightarrow> string \<Rightarrow> (location_error + RadiusLocation) option" where
  "tryParseRadius U s =
     (case split_on CHR ''|'' s of
        [p0, p1] \<Rightarrow>
          (case split_on CHR '','' p0 of
             [a, b] \<Rightarrow>
               if contains_char CHR '','' p1 then None
               else Some (
                 bind_res (parse_num (trim_space U a)) (\<lambda>lat.
                 bind_res (parse_num (trim_space U b)) (\<lambda>lon.
                 bind_res (parse_num (trim_space U p1)) (\<lambda>radius.
                 bind_res (validateRadius radius) (\<lambda>_.
                 bind_res (validateLatLon lat lon) (\<lambda>_.
                 Inr \<lparr>rad_Lat = lat, rad_Lon = lon, rad_Radius = radius\<rparr>))))))
           | _ \<Rightarrow> None)
      | _ \<Rightarrow> None)"

definition parseBbox :: "unicode \<Rightarrow> string \<Rightarrow> location_error + BboxLocation" where
  "parseBbox U s =
     (case split_on CHR '','' s of
        [w, so, e, n] \<Rightarrow>
          bind_res (parse_num (trim_space U w)) (\<lambda>west.
          bind_res (parse_num (trim_space U so)) (\<lambda>south.
          bind_res (parse_num (trim_space U e)) (\<lambda>east.
          bind_res (parse_num (trim_space U n)) (\<lambda>north.
          (let bbox = \<lparr>West = west, South = south, East = east, North = north, Density = 0\<rparr>
           in bind_res (validateBbox bbox) (\<lambda>_. Inr bbox))))))
      | parts \<Rightarrow> Inl (BboxArity (int (length parts))))"

subsection \<open>The query grammar\<close>

text \<open>The slice \<open>s[n:]\<close>, which panics beyond the length.\<close>

definition slice_from :: "nat \<Rightarrow> string \<Rightarrow> location_error + string" where
  "slice_from n s = (if n \<le> length s then Inr (drop n s) else Inl GoPanic)"

definition mk_loc :: "LocationType \<Rightarrow> location_payload \<Rightarrow> Location" where
  "mk_loc t p = \<lparr>LType = t, LPayload = p\<rparr>"

text \<open>The switch on the prefix: not handled (\<open>None\<close>), or handled with a result.\<close>

definition prefixed_value :: "unicode \<Rightarrow> location_registry \<Rightarrow> string \<Rightarrow> string \<Rightarrow> (location_error + Location) option" where
  "prefixed_value U r prefix rest =
     (if prefix = ''point'' then Some (
        bind_res (parseCoordinates rest) (\<lambda>coords.
        if length coords \<noteq> 1 then Inl (PointArity (int (length coords)))
        else Inr (mk_loc LocationTypePoint (LPoint (coords ! 0)))))
      else if prefix = ''station'' then Some (
        case LookupStation r (to_lower U rest) of
          Some pt \<Rightarrow> Inr (mk_loc LocationTypePoint (LPoint pt))
        | None \<Rightarrow> Inl (UnknownStation rest))
      else if prefix = ''polyline'' then Some (
        bind_res (parseCoordinates (replace_char CHR '';'' CHR ''|'' rest)) (\<lambda>coords.
        Inr (mk_loc LocationTypePolyline (LPolyline \<lparr>Coordinates = coords\<rparr>))))
      else if prefix = ''rectangle'' then Some (
        bind_res (parseRectangleValue U rest) (\<lambda>rect. Inr (mk_loc LocationTypeRectangle (LRectangle rect))))
      else if prefix = ''radius'' then Some (
        case tryParseRadius U rest of
          None \<Rightarrow> Inl (NotARadius rest)
        | Some res \<Rightarrow> bind_res res (\<lambda>rLoc. Inr (mk_loc LocationTypeRadius (LRadius rLoc))))
      else None)"

definition parsePrefixedLocation :: "unicode \<Rightarrow> location_registry \<Rightarrow> string \<Rightarrow> string
    \<Rightarrow> (location_error + Location) option" where
  "parsePrefixedLocation U r lower original =
     (case cut_at CHR '':'' lower of
        None \<Rightarrow> None
      | Some (prefix, _) \<Rightarrow>
          if prefix = [] then None
          else (case slice_from (length prefix + 1) original of
            Inl e \<Rightarrow> Some (Inl e)
          | Inr tail \<Rightarrow> prefixed_value U r prefix (trim_space U tail)))"

definition location_of_coords :: "PointLocation list \<Rightarrow> Location" where
  "location_of_coords coords =
     (if length coords = 1 then mk_loc LocationTypePoint (LPoint (coords ! 0))
      else if length coords = 2 \<and> isRectangle coords then
        mk_loc LocationTypeRectangle (LRectangle \<lparr>NorthEast = coords ! 0, SouthWest = coords ! 1\<rparr>)
      else mk_loc LocationTypePolyline (LPolyline \<lparr>Coordinates = coords\<rparr>))"

definition ParseLocation :: "unicode \<Rightarrow> location_registry \<Rightarrow> string \<Rightarrow> location_error + Location" where
  "ParseLocation U r locStr =
     (let locLower = to_lower U locStr in
      if has_prefix locLower ''bbox:'' then
        bind_res (slice_from 5 locStr) (\<lambda>tail.
        bind_res (parseBbox U tail) (\<lambda>bbox. Inr (mk_loc LocationTypeBbox (LBbox bbox))))
      else case parsePrefixedLocation U r locLower locStr of
        Some res \<Rightarrow> res
      | None \<Rightarrow>
          if isPredefinedStation r locLower then
            Inr (mk_loc LocationTypePoint (LPoint (getLocationFromStationID r locLower)))
          else if isPredefinedShortcut r locLower then
            (case tryPolygonFromShortcut U r locLower of
               Some poly \<Rightarrow> Inr (mk_loc LocationTypePolygon (LPolygon poly))
             | None \<Rightarrow> Inr (mk_loc LocationTypeRectangle (LRectangle (getLocationFromShortcut r locLower))))
          else (case tryParseRadius U locStr of
              Some res \<Rightarrow> bind_res res (\<lambda>rLoc. Inr (mk_loc LocationTypeRadius (LRadius rLoc)))
            | None \<Rightarrow> bind_res (parseCoordinates locStr) (\<lambda>coords. Inr (location_of_coords coords))))"

subsection \<open>The JSON form\<close>

definition point_fields :: "(string \<times> (json \<Rightarrow> PointLocation \<Rightarrow> PointLocation option)) list" where
  "point_fields = [field_of ''lat'' Lat Lat_update decode_float, field_of ''lon'' Lon Lon_update decode_float]"

definition decode_points :: "json \<Rightarrow> PointLocation list \<Rightarrow> PointLocation list option" where
  "decode_points = decode_slice (decode_struct point_fields) zero_point"

definition rectangle_fields :: "(string \<times> (json \<Rightarrow> RectangleLocation \<Rightarrow> RectangleLocation option)) list" where
  "rectangle_fields =
     [field_of ''north_east'' NorthEast NorthEast_update (decode_struct point_fields),
      field_of ''south_west'' SouthWest SouthWest_update (decode_struct point_fields)]"

definition radius_fields :: "(string \<times> (json \<Rightarrow> RadiusLocation \<Rightarrow> RadiusLocation option)) list" where
  "radius_fields =
     [field_of ''lat'' rad_Lat rad_Lat_update decode_float, field_of ''lon'' rad_Lon rad_Lon_update decode_float,
      field_of ''radius'' rad_Radius rad_Radius_update decode_float]"

definition bbox_fields :: "(string \<times> (json \<Rightarrow> BboxLocation \<Rightarrow> BboxLocation option)) list" where
  "bbox_fields =
     [field_of ''west'' West West_update decode_float, field_of ''south'' South South_update decode_float,
      field_of ''east'' East East_update decode_float, field_of ''north'' North North_update decode_float,
      field_of ''density'' Density Density_update decode_int]"

text \<open>Decode a payload, check it, wrap it.\<close>

definition checked :: "(json \<Rightarrow> 'a \<Rightarrow> 'a option) \<Rightarrow> 'a \<Rightarrow> ('a \<Rightarrow> location_error + unit) \<Rightarrow> ('a \<Rightarrow> location_payload)
    \<Rightarrow> json \<Rightarrow> location_error + location_payload" where
  "checked dec zero check wrap j =
     bind_res (of_option LInvalidPayload (dec j zero)) (\<lambda>p. bind_res (check p) (\<lambda>_. Inr (wrap p)))"

definition zero_rectangle :: RectangleLocation where
  "zero_rectangle = \<lparr>NorthEast = zero_point, SouthWest = zero_point\<rparr>"

definition check_radius_payload :: "RadiusLocation \<Rightarrow> location_error + unit" where
  "check_radius_payload p =
     bind_res (validateRadius (rad_Radius p)) (\<lambda>_. validateLatLon (rad_Lat p) (rad_Lon p))"

definition decodeLocationPayload :: "LocationType \<Rightarrow> raw_message \<Rightarrow> location_error + location_payload" where
  "decodeLocationPayload t raw =
     (case raw of
        None \<Rightarrow> Inl LMissingPayload
      | Some j \<Rightarrow>
          if t = LocationTypePoint then
            checked (decode_struct point_fields) zero_point (\<lambda>p. validateLatLon (Lat p) (Lon p)) LPoint j
          else if t = LocationTypePointList then
            checked (decode_struct [field_of ''points'' Points Points_update decode_points]) \<lparr>Points = []\<rparr>
              (\<lambda>p. validatePoints (Points p) MaxPolylinePoints) LPointList j
          else if t = LocationTypePolyline then
            checked (decode_struct [field_of ''polyline'' Coordinates Coordinates_update decode_points]) \<lparr>Coordinates = []\<rparr>
              (\<lambda>p. validatePoints (Coordinates p) MaxPolylinePoints) LPolyline j
          else if t = LocationTypeRectangle then
            checked (decode_struct rectangle_fields) zero_rectangle
              (\<lambda>p. validatePoints [NorthEast p, SouthWest p] 2) LRectangle j
          else if t = LocationTypeRadius then
            checked (decode_struct radius_fields) \<lparr>rad_Lat = Fin 0, rad_Lon = Fin 0, rad_Radius = Fin 0\<rparr>
              check_radius_payload LRadius j
          else if t = LocationTypePolygon then
            checked (decode_struct [field_of ''rings'' Rings Rings_update (decode_slice decode_points [])]) \<lparr>Rings = []\<rparr>
              (\<lambda>p. validateRings (Rings p)) LPolygon j
          else if t = LocationTypeBbox then
            checked (decode_struct bbox_fields)
              \<lparr>West = Fin 0, South = Fin 0, East = Fin 0, North = Fin 0, Density = 0\<rparr> validateBbox LBbox j
          else Inl (UnknownLocationType t))"

record raw_location =
  raw_LType :: LocationType
  raw_LPayload :: raw_message

definition raw_location_fields :: "(string \<times> (json \<Rightarrow> raw_location \<Rightarrow> raw_location option)) list" where
  "raw_location_fields =
     [field_of ''type'' raw_LType raw_LType_update decode_string,
      field_of ''payload'' raw_LPayload raw_LPayload_update (\<lambda>j _. Some (Some j))]"

definition Location_UnmarshalJSON :: "unicode \<Rightarrow> location_registry \<Rightarrow> json \<Rightarrow> location_error + Location" where
  "Location_UnmarshalJSON U r j =
     (case j of
        JNull \<Rightarrow> Inl LMissingValue
      | JStr s \<Rightarrow> ParseLocation U r s
      | JObj kvs \<Rightarrow>
          bind_res (of_option LInvalidPayload
            (decode_struct raw_location_fields (JObj kvs) \<lparr>raw_LType = [], raw_LPayload = None\<rparr>)) (\<lambda>raw.
          bind_res (decodeLocationPayload (raw_LType raw) (raw_LPayload raw)) (\<lambda>p.
          Inr (mk_loc (raw_LType raw) p)))
      | _ \<Rightarrow> Inl LNotStringOrObject)"

end
