(* ===== verification/LocationExpand.thy ===== *)
theory LocationExpand
  imports Location
begin

text \<open>
  The package \<open>location\<close>, second half: the expansion of a location into points. The functions of
  \<open>math\<close> that are not correctly rounded, and \<open>math.Sqrt\<close>, are the parameters \<open>libm\<close>. A loop that
  may not end is a \<open>partial_function\<close>: \<open>None\<close> is a call that does not return, or that panics on a
  negative slice length.
\<close>

record libm =
  m_sin :: "f64 \<Rightarrow> f64"
  m_cos :: "f64 \<Rightarrow> f64"
  m_asin :: "f64 \<Rightarrow> f64"
  m_atan2 :: "f64 \<Rightarrow> f64 \<Rightarrow> f64"
  m_sqrt :: "f64 \<Rightarrow> f64"

definition isFinite :: "f64 \<Rightarrow> bool" where "isFinite f \<longleftrightarrow> \<not> f = NaN \<and> \<not> is_inf f"

subsection \<open>Bounding boxes\<close>

definition bboxGridDimsFloat :: "BboxLocation \<Rightarrow> f64 \<Rightarrow> f64 \<times> f64" where
  "bboxGridDimsFloat b ppd =
     (let rows = fadd (fround (fmul (fsub (North b) (South b)) ppd)) (Fin 1);
          cols = fadd (fround (fmul (fsub (East b) (West b)) ppd)) (Fin 1)
      in (fmax rows (Fin 1), fmax cols (Fin 1)))"

definition bbox_finite :: "BboxLocation \<Rightarrow> bool" where
  "bbox_finite b \<longleftrightarrow> isFinite (West b) \<and> isFinite (South b) \<and> isFinite (East b) \<and> isFinite (North b)"

definition BboxGridDims :: "(f64 \<Rightarrow> int) \<Rightarrow> BboxLocation \<Rightarrow> int \<Rightarrow> int \<Rightarrow> location_error + (int \<times> int)" where
  "BboxGridDims oob b pointsPerDegree maxPoints =
     (if pointsPerDegree \<le> 0 \<or> pointsPerDegree > MaxPointsPerDegree then Inl (DensityOutOfRange pointsPerDegree)
      else let maxP = (if maxPoints \<le> 0 \<or> maxPoints > MaxBboxGridPoints then MaxBboxGridPoints else maxPoints) in
        if \<not> bbox_finite b then Inl EdgesNotFinite
        else if fgt (South b) (North b) \<or> fgt (West b) (East b) then Inl BboxInverted
        else let (rows, cols) = bboxGridDimsFloat b (f_of_int pointsPerDegree) in
          if fgt (fmul rows cols) (f_of_int maxP) then Inl GridTooLarge
          else Inr (to_int64 oob rows, to_int64 oob cols))"

text \<open>\<open>None\<close>: the capacity \<open>rows*cols\<close> is negative and \<open>make\<close> panics.\<close>

definition fillBboxGrid :: "BboxLocation \<Rightarrow> int \<Rightarrow> int \<Rightarrow> PointLocation list option" where
  "fillBboxGrid b rows cols =
     (if wrap64 (rows * cols) < 0 then None else
      let latSpan = fsub (North b) (South b); lonSpan = fsub (East b) (West b);
          latStep = (if rows > 1 then fdiv latSpan (f_of_int (rows - 1)) else Fin 0);
          lonStep = (if cols > 1 then fdiv lonSpan (f_of_int (cols - 1)) else Fin 0)
      in Some (List.concat (List.map (\<lambda>r. let lat = fsub (North b) (fmul (f_of_int (int r)) latStep) in
           List.map (\<lambda>c. \<lparr>Lat = lat, Lon = fadd (West b) (fmul (f_of_int (int c)) lonStep)\<rparr>) [0..<nat cols])
         [0..<nat rows])))"

definition ExpandBboxToGridChecked :: "(f64 \<Rightarrow> int) \<Rightarrow> BboxLocation \<Rightarrow> int \<Rightarrow> int
    \<Rightarrow> location_error + (PointLocation list \<times> int \<times> int)" where
  "ExpandBboxToGridChecked oob b pointsPerDegree maxPoints =
     bind_res (BboxGridDims oob b pointsPerDegree maxPoints) (\<lambda>(rows, cols).
     bind_res (of_option GoPanic (fillBboxGrid b rows cols)) (\<lambda>pts. Inr (pts, rows, cols)))"

text \<open>The halving loop of the deprecated \<open>ExpandBboxToGrid\<close>, at most 2100 times.\<close>

fun halve_density :: "nat \<Rightarrow> BboxLocation \<Rightarrow> f64 \<Rightarrow> f64 \<times> f64 \<Rightarrow> f64 \<times> f64" where
  "halve_density 0 b ppd rc = rc"
| "halve_density (Suc n) b ppd (rows, cols) =
     (if fgt (fmul rows cols) (f_of_int MaxBboxGridPoints)
      then let ppd' = fdiv ppd (Fin 2) in halve_density n b ppd' (bboxGridDimsFloat b ppd')
      else (rows, cols))"

definition ExpandBboxToGrid :: "(f64 \<Rightarrow> int) \<Rightarrow> BboxLocation \<Rightarrow> int \<Rightarrow> (PointLocation list \<times> int \<times> int) option" where
  "ExpandBboxToGrid oob b pointsPerDegree =
     (if \<not> bbox_finite b then Some ([], 0, 0)
      else let ppd = fmin (f_of_int pointsPerDegree) (f_of_int MaxPointsPerDegree);
               (rows, cols) = halve_density 2100 b ppd (bboxGridDimsFloat b ppd)
        in if fgt (fmul rows cols) (f_of_int MaxBboxGridPoints) then Some ([], 0, 0)
           else let r = to_int64 oob rows; c = to_int64 oob cols in map_option (\<lambda>pts. (pts, r, c)) (fillBboxGrid b r c))"

subsection \<open>Rectangles\<close>

definition maxGridPoints :: int where "maxGridPoints = 250"

definition chooseGridStep :: "f64 \<Rightarrow> f64" where
  "chooseGridStep minDim =
     (if fge minDim (Fin 1) then Fin 1 else if fge minDim (Fin (1/2)) then Fin (1/2)
      else if fge minDim (Fin (1/4)) then Fin (1/4) else f_const (1/10))"

definition MaxInt :: int where "MaxInt = 9223372036854775807"

definition gridPointCount :: "(f64 \<Rightarrow> int) \<Rightarrow> f64 \<Rightarrow> f64 \<Rightarrow> f64 \<Rightarrow> int" where
  "gridPointCount oob latSpan lonSpan step =
     (let n = fmul (fadd (fceil (fdiv latSpan step)) (Fin 1)) (fadd (fceil (fdiv lonSpan step)) (Fin 1))
      in if n = NaN \<or> fge n (Fin 2147483647) then MaxInt else to_int64 oob n)"

text \<open>The stepping loop: \<open>vals\<close> so far, the next value \<open>v\<close>, at most \<open>maxGridPoints + 2\<close> rounds.\<close>

fun step_values :: "nat \<Rightarrow> f64 \<Rightarrow> f64 \<Rightarrow> f64 \<Rightarrow> f64 list \<Rightarrow> f64 list" where
  "step_values 0 v upper step vals = vals"
| "step_values (Suc n) v upper step vals =
     (if fle v (fadd upper (fmul step (f_const (1/1000000000))))
      then let w = (if fgt v upper then upper else v); vals' = vals @ [w] in
        if fge w upper then vals' else step_values n (fadd w step) upper step vals'
      else vals)"

definition steppedValues :: "f64 \<Rightarrow> f64 \<Rightarrow> f64 \<Rightarrow> f64 list" where
  "steppedValues lower upper step =
     (let vals = step_values (nat (maxGridPoints + 2)) lower upper step [];
          epsilon = fmul step (f_const (1/1000000000))
      in if vals = [] then [upper]
         else if fgt (fabs (fsub (last vals) upper)) epsilon then vals @ [upper]
         else butlast vals @ [upper])"

definition generateGrid :: "f64 \<Rightarrow> f64 \<Rightarrow> f64 \<Rightarrow> f64 \<Rightarrow> f64 \<Rightarrow> PointLocation list" where
  "generateGrid latMin latMax lonMin lonMax step =
     (let lats = steppedValues latMin latMax step; lons = steppedValues lonMin lonMax step
      in List.concat (List.map (\<lambda>lat. List.map (\<lambda>lon. \<lparr>Lat = lat, Lon = lon\<rparr>) lons) lats))"

partial_function (option) coarsen :: "(f64 \<Rightarrow> int) \<Rightarrow> int \<Rightarrow> f64 \<Rightarrow> f64 \<Rightarrow> f64 \<Rightarrow> f64 \<Rightarrow> f64 option" where
  "coarsen oob cap factor latSpan lonSpan step =
     (if gridPointCount oob latSpan lonSpan step > cap
      then coarsen oob cap factor latSpan lonSpan (fmul step factor) else Some step)"

definition expandRectangleToGrid :: "(f64 \<Rightarrow> int) \<Rightarrow> RectangleLocation \<Rightarrow> PointLocation list option" where
  "expandRectangleToGrid oob rect =
     (let latMin = fmin (Lat (SouthWest rect)) (Lat (NorthEast rect));
          latMax = fmax (Lat (SouthWest rect)) (Lat (NorthEast rect));
          lonMin = fmin (Lon (SouthWest rect)) (Lon (NorthEast rect));
          lonMax = fmax (Lon (SouthWest rect)) (Lon (NorthEast rect));
          latSpan = fsub latMax latMin; lonSpan = fsub lonMax lonMin
      in if \<not> isFinite latSpan \<or> \<not> isFinite lonSpan
         then Some [\<lparr>Lat = Lat (SouthWest rect), Lon = Lon (SouthWest rect)\<rparr>]
         else if feq latSpan (Fin 0) \<and> feq lonSpan (Fin 0) then Some [\<lparr>Lat = latMin, Lon = lonMin\<rparr>]
         else Option.bind (coarsen oob maxGridPoints (Fin 2) latSpan lonSpan (chooseGridStep (fmin latSpan lonSpan)))
           (\<lambda>step. Some (generateGrid latMin latMax lonMin lonMax step)))"

subsection \<open>Polygons\<close>

definition minPolygonGridStep :: f64 where "minPolygonGridStep = f_const (1/10)"
definition maxPolygonCandidates :: int where "maxPolygonCandidates = 64 * maxGridPoints"
definition polygonEdgeBudget :: int where "polygonEdgeBudget = maxPolygonCandidates * 1000"

text \<open>The edges of a ring as the loop \<open>i, j := 0, n-1; j, i = i, i+1\<close> visits them: each vertex with the
  one before it, the first with the last.\<close>

definition ring_edges :: "PointLocation list \<Rightarrow> (PointLocation \<times> PointLocation) list" where
  "ring_edges ring = (case ring of [] \<Rightarrow> [] | _ \<Rightarrow> zip ring (last ring # butlast ring))"

definition ringArea :: "PointLocation list \<Rightarrow> f64" where
  "ringArea ring =
     fdiv (foldl (\<lambda>s (pi, pj). fadd s (fmul (fsub (Lon pj) (Lon pi)) (fadd (Lat pj) (Lat pi)))) (Fin 0) (ring_edges ring))
       (Fin 2)"

definition edge_crosses :: "f64 \<Rightarrow> f64 \<Rightarrow> PointLocation \<times> PointLocation \<Rightarrow> bool" where
  "edge_crosses lat lon e =
     (case e of (a, b) \<Rightarrow>
       (fgt (Lat a) lat \<noteq> fgt (Lat b) lat) \<and>
       flt lon (fadd (fdiv (fmul (fsub (Lon b) (Lon a)) (fsub lat (Lat a))) (fsub (Lat b) (Lat a))) (Lon a)))"

definition pointInRings :: "f64 \<Rightarrow> f64 \<Rightarrow> PointLocation list list \<Rightarrow> bool" where
  "pointInRings lat lon rings =
     foldl (\<lambda>inside e. if edge_crosses lat lon e then \<not> inside else inside) False
       (List.concat (List.map ring_edges rings))"

definition centredValues :: "(f64 \<Rightarrow> int) \<Rightarrow> f64 \<Rightarrow> f64 \<Rightarrow> f64 \<Rightarrow> f64 list option" where
  "centredValues oob lower width step =
     (let n = wrap64 (to_int64 oob (ffloor (fdiv width step)) + 1);
          offset = fdiv (fsub width (fmul (f_of_int (wrap64 (n - 1))) step)) (Fin 2)
      in if n < 0 then None
         else Some (List.map (\<lambda>i. fadd (fadd lower offset) (fmul (f_of_int (int i)) step)) [0..<nat n]))"

definition thinVertices :: "PointLocation list list \<Rightarrow> int \<Rightarrow> PointLocation list" where
  "thinVertices rings vertices =
     (let stride = nat ((vertices + maxGridPoints - 1) div maxGridPoints); ps = List.concat rings
      in take (nat maxGridPoints) (List.map (\<lambda>i. ps ! i) (filter (\<lambda>i. i mod stride = 0) [0..<length ps])))"

definition polygonGridStep :: "libm \<Rightarrow> (f64 \<Rightarrow> int) \<Rightarrow> f64 \<Rightarrow> f64 \<Rightarrow> f64 \<Rightarrow> int \<Rightarrow> f64 option" where
  "polygonGridStep M oob latSpan lonSpan area vertices =
     (let maxCandidates = min maxPolygonCandidates (max maxGridPoints (polygonEdgeBudget div max vertices 1));
          step = fmax (m_sqrt M (fdiv area (f_of_int maxGridPoints))) minPolygonGridStep
      in coarsen oob maxCandidates (Fin (5/4)) latSpan lonSpan step)"

definition sample_points :: "(f64 \<Rightarrow> int) \<Rightarrow> PointLocation list list \<Rightarrow> f64 \<Rightarrow> f64 \<Rightarrow> f64 \<Rightarrow> f64 \<Rightarrow> f64
    \<Rightarrow> PointLocation list option" where
  "sample_points oob rings latMin latSpan lonMin lonSpan step =
     Option.bind (centredValues oob latMin latSpan step) (\<lambda>lats.
     Option.bind (centredValues oob lonMin lonSpan step) (\<lambda>lons.
     Some (List.concat (List.map (\<lambda>lat.
       List.map (\<lambda>lon. \<lparr>Lat = lat, Lon = lon\<rparr>) (filter (\<lambda>lon. pointInRings lat lon rings) lons)) lats))))"

text \<open>The sampling passes, at most 64, the step widened while too many points are inside.\<close>

fun sample_passes :: "nat \<Rightarrow> libm \<Rightarrow> (f64 \<Rightarrow> PointLocation list option) \<Rightarrow> f64 \<Rightarrow> PointLocation list
    \<Rightarrow> PointLocation list option" where
  "sample_passes 0 M sample step pts = Some pts"
| "sample_passes (Suc n) M sample step pts =
     Option.bind (sample step) (\<lambda>pts'.
     if int (length pts') \<le> maxGridPoints then Some pts'
     else sample_passes n M sample
       (fmul step (fmax (Fin (5/4)) (fmul (m_sqrt M (fdiv (f_of_int (int (length pts'))) (f_of_int maxGridPoints))) (f_const (105/100)))))
       pts')"

definition expandPolygonToGrid :: "libm \<Rightarrow> (f64 \<Rightarrow> int) \<Rightarrow> PointLocation list list \<Rightarrow> PointLocation list option" where
  "expandPolygonToGrid M oob rings =
     (let ps = List.concat rings;
          latMin = foldl (\<lambda>a p. fmin a (Lat p)) PosInf ps; latMax = foldl (\<lambda>a p. fmax a (Lat p)) NegInf ps;
          lonMin = foldl (\<lambda>a p. fmin a (Lon p)) PosInf ps; lonMax = foldl (\<lambda>a p. fmax a (Lon p)) NegInf ps;
          vertices = int (length ps);
          area = foldl (\<lambda>a ring. fadd a (fabs (ringArea ring))) (Fin 0) rings
      in if vertices = 0 then Some []
         else let latSpan = fsub latMax latMin; lonSpan = fsub lonMax lonMin in
           if \<not> isFinite latSpan \<or> \<not> isFinite lonSpan then Some []
           else if feq latSpan (Fin 0) \<and> feq lonSpan (Fin 0) then Some [\<lparr>Lat = latMin, Lon = lonMin\<rparr>]
           else Option.bind (polygonGridStep M oob latSpan lonSpan area vertices) (\<lambda>step.
             Option.bind (sample_passes 64 M (sample_points oob rings latMin latSpan lonMin lonSpan) step []) (\<lambda>pts.
             if pts \<noteq> [] \<and> int (length pts) \<le> maxGridPoints then Some pts
             else Some (thinVertices rings vertices))))"

subsection \<open>Radii\<close>

definition Pi64 :: f64 where "Pi64 = Fin (884279719003555 / 281474976710656)"
definition two_Pi :: f64 where "two_Pi = Fin (884279719003555 / 140737488355328)"
definition earthRadiusKm :: f64 where "earthRadiusKm = Fin 6371"

definition deg2rad :: "f64 \<Rightarrow> f64" where "deg2rad d = fdiv (fmul d Pi64) (Fin 180)"
definition rad2deg :: "f64 \<Rightarrow> f64" where "rad2deg r = fdiv (fmul r (Fin 180)) Pi64"

definition destinationPointPrecomputed :: "libm \<Rightarrow> f64 \<Rightarrow> f64 \<Rightarrow> f64 \<Rightarrow> f64 \<Rightarrow> f64 \<Rightarrow> f64 \<times> f64" where
  "destinationPointPrecomputed M latDeg lonDeg sinAngDist cosAngDist bearingDeg =
     (let lat1 = deg2rad latDeg; lon1 = deg2rad lonDeg; brng = deg2rad bearingDeg;
          sinLat1 = m_sin M lat1; cosLat1 = m_cos M lat1;
          sinLat2 = fadd (fmul sinLat1 cosAngDist) (fmul (fmul cosLat1 sinAngDist) (m_cos M brng));
          lat2 = m_asin M sinLat2;
          y = fmul (fmul (m_sin M brng) sinAngDist) cosLat1;
          x = fsub cosAngDist (fmul sinLat1 sinLat2);
          lon2 = fadd lon1 (m_atan2 M y x);
          lon2' = fmod (fadd lon2 Pi64) two_Pi;
          lon2'' = (if flt lon2' (Fin 0) then fadd lon2' two_Pi else lon2')
      in (rad2deg lat2, rad2deg (fsub lon2'' Pi64)))"

definition destinationPoint :: "libm \<Rightarrow> f64 \<Rightarrow> f64 \<Rightarrow> f64 \<Rightarrow> f64 \<Rightarrow> f64 \<times> f64" where
  "destinationPoint M latDeg lonDeg distKm bearingDeg =
     (let angDist = fdiv distKm earthRadiusKm
      in destinationPointPrecomputed M latDeg lonDeg (m_sin M angDist) (m_cos M angDist) bearingDeg)"

text \<open>Ring \<open>k\<close>: \<open>3 + k\<close> points.\<close>

definition radius_ring :: "libm \<Rightarrow> RadiusLocation \<Rightarrow> int \<Rightarrow> PointLocation list" where
  "radius_ring M rad k =
     (let n = 3 + k; step = fdiv (Fin 360) (f_of_int n); angDist = fdiv (f_of_int k) earthRadiusKm;
          sinAng = m_sin M angDist; cosAng = m_cos M angDist
      in List.map (\<lambda>j. let (lat2, lon2) = destinationPointPrecomputed M (rad_Lat rad) (rad_Lon rad) sinAng cosAng
             (fmul (f_of_int (int j)) step) in \<lparr>Lat = lat2, Lon = lon2\<rparr>) [0..<nat n])"

function radius_rings :: "libm \<Rightarrow> RadiusLocation \<Rightarrow> int \<Rightarrow> int \<Rightarrow> PointLocation list \<Rightarrow> PointLocation list" where
  "radius_rings M rad maxKm k pts =
     (if k \<le> maxKm \<and> int (length pts) < MaxExpandedRadiusPoints
      then radius_rings M rad maxKm (k + radiusRingStepKm) (pts @ radius_ring M rad k) else pts)"
  by auto
termination
  by (relation "measure (\<lambda>(M, rad, maxKm, k, pts). nat (maxKm + 1 - k))") (auto simp: radiusRingStepKm_def)

declare radius_rings.simps [simp del]

definition expandRadius :: "libm \<Rightarrow> (f64 \<Rightarrow> int) \<Rightarrow> RadiusLocation \<Rightarrow> PointLocation list" where
  "expandRadius M oob rad =
     (if rad_Radius rad = NaN \<or> flt (rad_Radius rad) (f_of_int radiusRingStepKm)
      then [\<lparr>Lat = rad_Lat rad, Lon = rad_Lon rad\<rparr>]
      else let maxKm = to_int64 oob (ffloor (fmin (rad_Radius rad) MaxRadiusKm))
        in radius_rings M rad maxKm 0 [])"

subsection \<open>Expansion\<close>

definition bbox_centre :: "BboxLocation \<Rightarrow> PointLocation" where
  "bbox_centre b = \<lparr>Lat = fdiv (fadd (North b) (South b)) (Fin 2), Lon = fdiv (fadd (East b) (West b)) (Fin 2)\<rparr>"

definition ExpandLocations :: "libm \<Rightarrow> (f64 \<Rightarrow> int) \<Rightarrow> Location \<Rightarrow> PointLocation list option" where
  "ExpandLocations M oob loc =
     (case LPayload loc of
        LPoint p \<Rightarrow> Some (if LType loc = LocationTypePoint then [p] else [])
      | LPointList p \<Rightarrow> Some (if LType loc = LocationTypePointList then Points p else [])
      | LPolyline p \<Rightarrow> Some (if LType loc = LocationTypePolyline then Coordinates p else [])
      | LRectangle p \<Rightarrow> if LType loc = LocationTypeRectangle then expandRectangleToGrid oob p else Some []
      | LPolygon p \<Rightarrow> if LType loc = LocationTypePolygon \<and> Rings p \<noteq> [] then expandPolygonToGrid M oob (Rings p) else Some []
      | LBbox p \<Rightarrow> Some (if LType loc = LocationTypeBbox then [bbox_centre p] else [])
      | LRadius p \<Rightarrow> Some (if LType loc = LocationTypeRadius then expandRadius M oob p else [])
      | LOther \<Rightarrow> Some [])"

end
