(* ===== verification/LocationCorrect.thy ===== *)
theory LocationCorrect
  imports LocationExpand
begin

text \<open>
  Correctness of the location parsers and of the bounded expansions: which coordinates a parsed
  location can carry, how many points it can expand to, and where the parsers fall short.
\<close>

subsection \<open>Coordinates\<close>

text \<open>A position in range, up to a rounding slack.\<close>

definition near_valid :: "rat \<Rightarrow> PointLocation \<Rightarrow> bool" where
  "near_valid slack p \<longleftrightarrow> finite64 (Lat p) \<and> finite64 (Lon p)
     \<and> \<bar>fval (Lat p)\<bar> \<le> 90 + slack \<and> \<bar>fval (Lon p)\<bar> \<le> 180 + slack"

abbreviation slack :: rat where "slack \<equiv> 1 / 2 ^ 40"

lemma near_valid_mono: "near_valid a p \<Longrightarrow> a \<le> b \<Longrightarrow> near_valid b p"
  by (auto simp: near_valid_def)

lemma validateLatLon_Inr [result_simps]:
  "validateLatLon lat lon = Inr u \<longleftrightarrow> near_valid 0 \<lparr>Lat = lat, Lon = lon\<rparr>"
  by (auto simp: validateLatLon_def near_valid_def finite64_def flt_def is_inf_def abs_le_iff)

lemma validate_each_Inr: "validate_each ps = Inr u \<longleftrightarrow> (\<forall>p\<in>set ps. near_valid 0 p)"
  by (induction ps) (auto simp: result_simps near_valid_def)

lemma validatePoints_Inr [result_simps]:
  "validatePoints ps n = Inr u \<longleftrightarrow> int (length ps) \<le> n \<and> (\<forall>p\<in>set ps. near_valid 0 p)"
  by (auto simp: validatePoints_def validate_each_Inr)

lemma validateRings_Inr [result_simps]:
  "validateRings rs = Inr u \<longleftrightarrow> int (length (List.concat rs)) \<le> MaxPolygonVertices \<and> (\<forall>p\<in>set (List.concat rs). near_valid 0 p)"
proof -
  have "validate_each_ring rs = Inr u \<longleftrightarrow> (\<forall>r\<in>set rs. int (length r) \<le> MaxPolygonVertices \<and> (\<forall>p\<in>set r. near_valid 0 p))"
    by (induction rs) (auto simp: result_simps)
  moreover have "length r \<le> length (List.concat rs)" if "r \<in> set rs" for r
    using that by (induction rs) auto
  then have "int (length r) \<le> MaxPolygonVertices"
    if "int (length (List.concat rs)) \<le> MaxPolygonVertices" "r \<in> set rs" for r
    using that by fastforce
  ultimately show ?thesis
    unfolding validateRings_def Let_def length_concat[symmetric] by (auto simp: not_less)
qed

lemma validateRadius_Inr [result_simps]:
  "validateRadius r = Inr u \<longleftrightarrow> finite64 r \<and> 0 < fval r \<and> fval r \<le> 200"
  by (cases r) (auto simp: validateRadius_def MaxRadiusKm_def flt_def fle_def feq_def is_inf_def)

subsection \<open>Interpolation\<close>

text \<open>One coordinate of a generated point stays between the ends, up to a rounding error: the rounded
  \<open>a + t * ((b - a) / m)\<close>.\<close>

lemma interpolate_value:
  fixes a b :: rat
  assumes ab: "\<bar>a\<bar> \<le> B" "\<bar>b\<bar> \<le> B" "B \<le> 180" and m: "1 \<le> m" "m \<le> 100000" and t: "0 \<le> t" "t \<le> m"
  defines "q \<equiv> rnd (b - a) / m"
  shows "\<bar>b - a\<bar> \<le> 360" "\<bar>q\<bar> \<le> 361" "\<bar>t * rnd q\<bar> \<le> 362" "\<bar>a + rnd (t * rnd q)\<bar> \<le> 1000"
    "\<bar>rnd (a + rnd (t * rnd q))\<bar> \<le> B + slack"
    "\<bar>rnd (a + rnd (t * rnd q)) - (a + t / m * (b - a))\<bar> \<le> slack"
proof -
  define d where "d = b - a"
  have d: "\<bar>d\<bar> \<le> 360" using ab unfolding d_def by linarith
  have D: "\<bar>rnd d - d\<bar> \<le> 1 / 2 ^ 45"
    using rnd_error_below[of d "- 44"] d by (simp add: power_int_def power_divide)
  have tiny: "(1::rat) / 2 ^ 45 \<le> 1" "(1::rat) / 2 ^ 44 \<le> 1" by simp_all
  have D': "\<bar>rnd d\<bar> \<le> 361" using d D tiny by linarith
  have qb: "\<bar>q\<bar> * m = \<bar>rnd d\<bar>" using m by (simp add: q_def d_def)
  have "\<bar>q\<bar> \<le> \<bar>rnd d\<bar>" using mult_left_mono[OF m(1), of "\<bar>q\<bar>"] qb by simp
  then have q: "\<bar>q\<bar> \<le> 361" using D' by linarith
  have S: "\<bar>rnd q - q\<bar> \<le> \<bar>q\<bar> * (1 / 2 ^ 53) + 1 / 2 ^ 80"
  proof -
    have "pw2 (- 1075) \<le> pw2 (- 80)" by (rule pw2_mono) simp
    then show ?thesis using rnd_rel_error[of q] by (simp add: power_int_def power_divide)
  qed
  have tS: "\<bar>t * rnd q - t * q\<bar> \<le> 1 / 2 ^ 44"
  proof -
    have "\<bar>t * rnd q - t * q\<bar> = t * \<bar>rnd q - q\<bar>" using t(1) by (simp add: abs_mult flip: right_diff_distrib)
    also have "\<dots> \<le> m * (\<bar>q\<bar> * (1 / 2 ^ 53) + 1 / 2 ^ 80)" using S t by (intro mult_mono) auto
    also have "\<dots> = \<bar>rnd d\<bar> * (1 / 2 ^ 53) + m / 2 ^ 80" unfolding qb[symmetric] by (simp add: algebra_simps)
    also have "\<dots> \<le> 361 * (1 / 2 ^ 53) + 100000 / 2 ^ 80"
      using D' m by (intro add_mono mult_right_mono divide_right_mono) auto
    also have "\<dots> \<le> 1 / 2 ^ 44" by simp
    finally show ?thesis .
  qed
  have tq: "\<bar>t * q\<bar> \<le> \<bar>rnd d\<bar>"
    using mult_right_mono[OF t(2), of "\<bar>q\<bar>"] qb t(1) by (simp add: abs_mult mult.commute)
  have tr: "\<bar>t * rnd q\<bar> \<le> 362" using tq tS D' tiny by linarith
  have P: "\<bar>rnd (t * rnd q) - t * rnd q\<bar> \<le> 1 / 2 ^ 45"
    using rnd_error_below[of "t * rnd q" "- 44"] tr by (simp add: power_int_def power_divide)
  define s where "s = a + rnd (t * rnd q)"
  have s: "\<bar>s\<bar> \<le> 1000" using ab P tr tiny unfolding s_def by linarith
  have R: "\<bar>rnd s - s\<bar> \<le> 1 / 2 ^ 44"
    using rnd_error_below[of s "- 43"] s by (simp add: power_int_def power_divide)
  have exact: "\<bar>a + t / m * d\<bar> \<le> B"
  proof -
    define l where "l = t / m"
    have l: "0 \<le> l" "l \<le> 1" using t m by (simp_all add: l_def)
    have "\<bar>a + l * d\<bar> = \<bar>(1 - l) * a + l * b\<bar>" by (simp add: d_def algebra_simps)
    also have "\<dots> \<le> \<bar>(1 - l) * a\<bar> + \<bar>l * b\<bar>" by (rule abs_triangle_ineq)
    also have "\<dots> = (1 - l) * \<bar>a\<bar> + l * \<bar>b\<bar>" using l by (simp add: abs_mult)
    also have "\<dots> \<le> (1 - l) * B + l * B" using l ab by (intro add_mono mult_left_mono) auto
    finally show ?thesis by (simp add: l_def algebra_simps)
  qed
  have "\<bar>t * q - t / m * d\<bar> = t / m * \<bar>rnd d - d\<bar>"
    using t m by (simp add: q_def d_def abs_mult abs_div_pos flip: right_diff_distrib diff_divide_distrib)
  also have "\<dots> \<le> 1 * (1 / 2 ^ 45)" using D t m by (intro mult_mono) auto
  finally have T: "\<bar>t * q - t / m * d\<bar> \<le> 1 / 2 ^ 45" by simp
  define p1 where "p1 = t * rnd q"
  define p2 where "p2 = t * q"
  define p3 where "p3 = t / m * d"
  have near: "\<bar>rnd s - (a + p3)\<bar> \<le> 1 / 2 ^ 45 + 1 / 2 ^ 44 + 1 / 2 ^ 45 + 1 / 2 ^ 44"
    using tS P R T s_def unfolding p1_def[symmetric] p2_def[symmetric] p3_def[symmetric] by linarith
  then show "\<bar>rnd (a + rnd (t * rnd q)) - (a + t / m * (b - a))\<bar> \<le> slack"
    by (simp add: s_def p3_def d_def)
  have "\<bar>rnd s\<bar> \<le> B + (1 / 2 ^ 45 + 1 / 2 ^ 44 + 1 / 2 ^ 45 + 1 / 2 ^ 44)"
    using exact near unfolding p3_def[symmetric] by linarith
  then show "\<bar>rnd (a + rnd (t * rnd q))\<bar> \<le> B + slack" by (simp add: s_def)
  show "\<bar>b - a\<bar> \<le> 360" "\<bar>q\<bar> \<le> 361" "\<bar>t * rnd q\<bar> \<le> 362" "\<bar>a + rnd (t * rnd q)\<bar> \<le> 1000"
    using d q tr s by (simp_all add: d_def s_def)
qed

lemma interpolate_steps:
  assumes f: "finite64 a" "finite64 b" and ab: "\<bar>fval a\<bar> \<le> B" "\<bar>fval b\<bar> \<le> B" "B \<le> 180"
    and n: "2 \<le> n" "n \<le> 100000" "0 \<le> i" "i < n"
  defines "w \<equiv> fmul (f_of_int i) (fdiv (fsub b a) (f_of_int (n - 1)))"
  shows "finite64 w" "fval w = rnd (of_int i * rnd (rnd (fval b - fval a) / of_int (n - 1)))"
    "\<bar>fval a + fval w\<bar> \<le> 1000" "\<bar>rnd (fval a + fval w)\<bar> \<le> B + slack"
    "\<bar>rnd (fval a + fval w) - (fval a + of_int i / of_int (n - 1) * (fval b - fval a))\<bar> \<le> slack"
proof -
  define m where "m = (of_int (n - 1) :: rat)"
  define t where "t = (of_int i :: rat)"
  have m: "1 \<le> m" "m \<le> 100000" and t: "0 \<le> t" "t \<le> m"
    using n by (simp_all add: m_def t_def flip: of_int_le_iff)
  note b = interpolate_value[OF ab m t]
  have fi: "f_of_int (n - 1) = Fin m" "f_of_int i = Fin t"
    using n by (simp_all add: f_of_int_exact m_def t_def)
  have d1: "finite64 (fsub b a) \<and> fval (fsub b a) = rnd (fval b - fval a)"
    using fsub_finite[of b a] f b(1) small_pow by simp
  define q where "q = rnd (fval b - fval a) / m"
  have d2: "finite64 (fdiv (fsub b a) (Fin m)) \<and> fval (fdiv (fsub b a) (Fin m)) = rnd q"
    using fdiv_finite[of "fsub b a" "Fin m"] d1 m b(2) small_pow[of q] by (simp add: q_def)
  have d3: "finite64 w \<and> fval w = rnd (t * rnd q)"
    using fmul_finite[of "Fin t" "fdiv (fsub b a) (Fin m)"] d2 b(3) small_pow[of "t * rnd q"]
    by (simp add: w_def fi q_def)
  then show "finite64 w" "fval w = rnd (of_int i * rnd (rnd (fval b - fval a) / of_int (n - 1)))"
    "\<bar>fval a + fval w\<bar> \<le> 1000" "\<bar>rnd (fval a + fval w)\<bar> \<le> B + slack"
    "\<bar>rnd (fval a + fval w) - (fval a + of_int i / of_int (n - 1) * (fval b - fval a))\<bar> \<le> slack"
    using b(4-6) by (simp_all add: q_def m_def t_def)
qed

lemma interpolate:
  assumes "finite64 a" "finite64 b" "\<bar>fval a\<bar> \<le> B" "\<bar>fval b\<bar> \<le> B" "B \<le> 180"
    and "2 \<le> n" "n \<le> 100000" "0 \<le> i" "i < n"
  defines "v \<equiv> fadd a (fmul (f_of_int i) (fdiv (fsub b a) (f_of_int (n - 1))))"
  shows "finite64 v \<and> \<bar>fval v\<bar> \<le> B + slack"
  using interpolate_steps[OF assms(1-9)] fadd_finite[OF assms(1) interpolate_steps(1)[OF assms(1-9)]] small_pow
  by (simp add: v_def)

text \<open>The same downwards: \<open>a - t * ((a - b) / m)\<close>.\<close>

lemma interpolate_down:
  assumes "finite64 a" "finite64 b" "\<bar>fval a\<bar> \<le> B" "\<bar>fval b\<bar> \<le> B" "B \<le> 180"
    and n: "2 \<le> n" "n \<le> 100000" "0 \<le> i" "i < n"
  defines "w \<equiv> fmul (f_of_int i) (fdiv (fsub a b) (f_of_int (n - 1)))"
  shows "finite64 (fsub a w) \<and> \<bar>fval (fsub a w)\<bar> \<le> B + slack"
proof -
  note up = interpolate_steps[OF assms(1-5) n]
  note down = interpolate_steps[OF assms(2,1,4,3,5) n, folded w_def]
  have "rnd (fval a - fval b) = - rnd (fval b - fval a)" using rnd_uminus[of "fval b - fval a"] by simp
  then have v: "fval w = - rnd (of_int i * rnd (rnd (fval b - fval a) / of_int (n - 1)))"
    using down(2) by (simp add: rnd_uminus)
  then have e: "fval a - fval w = fval a + fval (fmul (f_of_int i) (fdiv (fsub b a) (f_of_int (n - 1))))"
    using up(2) by simp
  then have "\<bar>fval a - fval w\<bar> \<le> 1000" using up(3) by (simp only:)
  from fsub_finite[OF assms(1) down(1) small_pow] this
  have "finite64 (fsub a w) \<and> fval (fsub a w) = rnd (fval a - fval w)" by simp
  then show ?thesis using up(4) unfolding e[symmetric] by simp
qed

lemma generatePoints_ok:
  assumes "near_valid 0 a" "near_valid 0 b" "n \<le> 2000" "generatePoints a b n = Inr ps"
  shows "int (length ps) = n \<and> 2 \<le> n \<and> (\<forall>p\<in>set ps. near_valid slack p)"
proof -
  have n: "2 \<le> n" using assms(4) by (simp add: generatePoints_def split: if_splits)
  have "near_valid slack \<lparr>Lat = fadd (Lat a) (fmul (f_of_int (int i)) (fdiv (fsub (Lat b) (Lat a)) (f_of_int (n - 1)))),
      Lon = fadd (Lon a) (fmul (f_of_int (int i)) (fdiv (fsub (Lon b) (Lon a)) (f_of_int (n - 1))))\<rparr>" if "i < nat n" for i
    using interpolate[of "Lat a" "Lat b" 90 n "int i"] interpolate[of "Lon a" "Lon b" 180 n "int i"] that assms(1-3) n
    by (auto simp: near_valid_def)
  then show ?thesis using assms(4) n by (auto simp: generatePoints_def Let_def)
qed

lemma of_option_Inr: "of_option e x = Inr y \<longleftrightarrow> x = Some y"
  by (cases x) auto

lemma parse_segment_Inr:
  assumes "parse_segment a b c d n = Inr ps"
  shows "\<exists>p q k. near_valid 0 p \<and> near_valid 0 q \<and> k \<le> 2000 \<and> generatePoints p q k = Inr ps"
proof -
  obtain w x y z where n: "parse_num a = Inr w" "parse_num b = Inr x" "parse_num c = Inr y" "parse_num d = Inr z"
    using assms by (auto simp: parse_segment_def result_simps)
  obtain k where k: "atoi n = Some k" using assms n by (cases "atoi n") (auto simp: parse_segment_def result_simps)
  then show ?thesis
    using assms n by (auto simp: parse_segment_def result_simps MaxPolylinePoints_def not_less split: if_splits)
qed

lemma parse_part_ok:
  assumes "parse_part whole part = Inr ps"
  shows "ps \<noteq> [] \<and> (\<forall>p\<in>set ps. near_valid slack p)"
proof -
  consider a b where "split_on CHR '','' part = [a, b]" | a b c d n where "split_on CHR '','' part = [a, b, c, d, n]"
    using assms by (auto simp: parse_part_def split: list.splits)
  then show ?thesis
  proof cases
    case 1
    then show ?thesis
      using assms by (auto simp: parse_part_def parse_pair_def result_simps intro: near_valid_mono)
  next
    case (2 a b c d n)
    then have "parse_segment a b c d n = Inr ps" using assms by (simp add: parse_part_def)
    then obtain p q k where "near_valid 0 p" "near_valid 0 q" "k \<le> 2000" "generatePoints p q k = Inr ps"
      using parse_segment_Inr by blast
    from generatePoints_ok[OF this] show ?thesis by auto
  qed
qed

lemma parse_parts_ok:
  assumes "parse_parts whole parts coords = Inr ps" "\<forall>p\<in>set coords. near_valid slack p" "int (length coords) \<le> MaxPolylinePoints"
  shows "int (length ps) \<le> MaxPolylinePoints \<and> (\<forall>p\<in>set ps. near_valid slack p) \<and> (parts \<noteq> [] \<or> coords \<noteq> [] \<longrightarrow> ps \<noteq> [])"
  using assms
proof (induction parts arbitrary: coords)
  case (Cons part parts)
  then obtain more where m: "parse_part whole part = Inr more" "parse_parts whole parts (coords @ more) = Inr ps"
      "int (length (coords @ more)) \<le> MaxPolylinePoints"
    by (auto simp: result_simps Let_def split: if_splits)
  have "\<forall>p\<in>set (coords @ more). near_valid slack p" "coords @ more \<noteq> []"
    using parse_part_ok[OF m(1)] Cons.prems(2) by auto
  then show ?case using Cons.IH[OF m(2) _ m(3)] by blast
qed simp

lemma parseCoordinates_ok:
  assumes "parseCoordinates s = Inr ps"
  shows "ps \<noteq> []" "int (length ps) \<le> MaxPolylinePoints" "p \<in> set ps \<Longrightarrow> near_valid slack p"
  using parse_parts_ok[OF assms[unfolded parseCoordinates_def]] by (simp_all add: MaxPolylinePoints_def)

subsection \<open>Parsed locations\<close>

definition location_ok :: "Location \<Rightarrow> bool" where
  "location_ok l \<longleftrightarrow> (case LPayload l of
     LPoint p \<Rightarrow> LType l = LocationTypePoint \<and> near_valid slack p
   | LPointList p \<Rightarrow> LType l = LocationTypePointList \<and> int (length (Points p)) \<le> MaxPolylinePoints
       \<and> (\<forall>x\<in>set (Points p). near_valid slack x)
   | LPolyline p \<Rightarrow> LType l = LocationTypePolyline \<and> int (length (Coordinates p)) \<le> MaxPolylinePoints
       \<and> (\<forall>x\<in>set (Coordinates p). near_valid slack x)
   | LRectangle p \<Rightarrow> LType l = LocationTypeRectangle \<and> near_valid slack (NorthEast p) \<and> near_valid slack (SouthWest p)
   | LRadius p \<Rightarrow> LType l = LocationTypeRadius \<and> finite64 (rad_Radius p) \<and> 0 < fval (rad_Radius p)
       \<and> fval (rad_Radius p) \<le> 200 \<and> near_valid 0 \<lparr>Lat = rad_Lat p, Lon = rad_Lon p\<rparr>
   | LPolygon p \<Rightarrow> LType l = LocationTypePolygon \<and> int (length (List.concat (Rings p))) \<le> MaxPolygonVertices
       \<and> (\<forall>x\<in>set (List.concat (Rings p)). near_valid slack x)
   | LBbox p \<Rightarrow> LType l = LocationTypeBbox \<and> near_valid 0 \<lparr>Lat = South p, Lon = West p\<rparr>
       \<and> near_valid 0 \<lparr>Lat = North p, Lon = East p\<rparr> \<and> fval (South p) < fval (North p) \<and> fval (West p) < fval (East p)
       \<and> 0 \<le> Density p \<and> Density p \<le> MaxPointsPerDegree
   | LOther \<Rightarrow> False)"

text \<open>What the configuration registers: stations, shortcut corners and country polygons in range.\<close>

definition registry_ok :: "unicode \<Rightarrow> location_registry \<Rightarrow> bool" where
  "registry_ok U r \<longleftrightarrow> (\<forall>n p. LookupStation r n = Some p \<longrightarrow> near_valid slack p)
     \<and> (\<forall>n q. LookupLocationShortcut r n = Some q \<longrightarrow> near_valid slack (NorthEast q) \<and> near_valid slack (SouthWest q))
     \<and> (\<forall>n poly. tryPolygonFromShortcut U r n = Some poly \<longrightarrow>
          int (length (List.concat (Rings poly))) \<le> MaxPolygonVertices \<and> (\<forall>x\<in>set (List.concat (Rings poly)). near_valid slack x))"

lemma slack_pos: "(0::rat) \<le> slack"
  by simp

lemmas near_slack = near_valid_mono[OF _ slack_pos, simplified]

lemma validateBbox_Inr [result_simps]:
  "validateBbox b = Inr u \<longleftrightarrow> near_valid 0 \<lparr>Lat = South b, Lon = West b\<rparr> \<and> near_valid 0 \<lparr>Lat = North b, Lon = East b\<rparr>
     \<and> fval (South b) < fval (North b) \<and> fval (West b) < fval (East b) \<and> 0 \<le> Density b \<and> Density b \<le> MaxPointsPerDegree"
  by (auto simp: validateBbox_def result_simps near_valid_def fle_finite not_le not_less split: if_splits)

lemma tryParseRadius_ok:
  assumes "tryParseRadius U s = Some (Inr p)" shows "location_ok (mk_loc LocationTypeRadius (LRadius p))"
  using assms
  by (auto simp: tryParseRadius_def result_simps location_ok_def mk_loc_def split: list.splits if_splits)

lemma location_of_coords_ok:
  assumes "parseCoordinates s = Inr ps" shows "location_ok (location_of_coords ps)"
proof -
  note ok = parseCoordinates_ok[OF assms]
  have "near_valid slack (ps ! 0)" "length ps = 2 \<Longrightarrow> near_valid slack (ps ! 1)" using ok by auto
  then show ?thesis using ok by (auto simp: location_of_coords_def location_ok_def mk_loc_def)
qed

lemma parseRectangleValue_ok:
  assumes "parseRectangleValue U s = Inr q" shows "location_ok (mk_loc LocationTypeRectangle (LRectangle q))"
proof (cases "contains_char CHR ''|'' s")
  case True
  then obtain ps where ps: "parseCoordinates s = Inr ps" "length ps = 2" "q = \<lparr>NorthEast = ps ! 0, SouthWest = ps ! 1\<rparr>"
    using assms by (auto simp: parseRectangleValue_def result_simps split: if_splits)
  then have "near_valid slack (ps ! 0)" "near_valid slack (ps ! 1)" using parseCoordinates_ok(3)[OF ps(1)] by auto
  then show ?thesis by (simp add: location_ok_def mk_loc_def ps(3))
next
  case False
  then show ?thesis
    using assms by (auto simp: parseRectangleValue_def Let_def result_simps location_ok_def mk_loc_def
        intro: near_slack split: if_splits)
qed

lemma parseBbox_ok:
  assumes "parseBbox U s = Inr b" shows "location_ok (mk_loc LocationTypeBbox (LBbox b))"
  using assms by (auto simp: parseBbox_def Let_def result_simps location_ok_def mk_loc_def split: list.splits)

end
