(* ===== verification/LocationGrid.thy ===== *)
theory LocationGrid
  imports LocationCorrect
begin

text \<open>
  Bounds and termination of the expansions of \<open>LocationExpand\<close>: the rings of a radius, the grid of
  a bounding box, the coarsened grid of a rectangle and the sampled grid of a polygon.
\<close>

subsection \<open>Radii\<close>

lemma length_radius_ring: "0 \<le> k \<Longrightarrow> length (radius_ring M rad k) = nat (3 + k)"
  by (simp add: radius_ring_def Let_def)

text \<open>The number of points of \<open>n\<close> rings.\<close>

definition ring_total :: "nat \<Rightarrow> nat" where "ring_total n = 3 * n * (n + 1) div 2"

lemma ring_total_Suc: "ring_total (Suc n) = ring_total n + 3 * Suc n"
proof -
  have "3 * Suc n * (Suc n + 1) = 3 * n * (n + 1) + 2 * (3 * Suc n)" by (simp add: algebra_simps)
  then show ?thesis by (simp add: ring_total_def)
qed

lemma ring_total_mono: "m \<le> n \<Longrightarrow> ring_total m \<le> ring_total n"
  unfolding ring_total_def by (intro div_le_mono mult_le_mono) auto

lemma ring_total_67: "ring_total 67 = 6834"
  by (simp add: ring_total_def)

text \<open>No radius up to 200 km reaches the ceiling, so the loop lays down every ring.\<close>

definition all_rings :: "libm \<Rightarrow> RadiusLocation \<Rightarrow> nat \<Rightarrow> nat \<Rightarrow> PointLocation list" where
  "all_rings M rad i n = List.concat (List.map (\<lambda>j. radius_ring M rad (3 * int j)) [i..<n])"

lemma length_all_rings: "length (all_rings M rad 0 n) = ring_total n"
  by (induction n) (simp_all add: all_rings_def ring_total_Suc length_radius_ring, simp add: ring_total_def)

lemma radius_rings_all:
  assumes "i \<le> n" "n \<le> 67" "3 * (int n - 1) \<le> maxKm" "maxKm < 3 * int n" "length pts = ring_total i"
  shows "radius_rings M rad maxKm (3 * int i) pts = pts @ all_rings M rad i n"
  using assms
proof (induction "n - i" arbitrary: i pts)
  case 0
  then show ?case by (subst radius_rings.simps) (auto simp: all_rings_def)
next
  case (Suc d)
  have i: "i < n" using Suc.hyps(2) by linarith
  have le: "3 * int i \<le> maxKm" using i Suc.prems(3) by simp
  have "ring_total i \<le> ring_total 67" using i Suc.prems(2) by (intro ring_total_mono) simp
  then have small: "int (length pts) < MaxExpandedRadiusPoints"
    using Suc.prems(5) by (simp add: ring_total_67 MaxExpandedRadiusPoints_def)
  have next_pts: "length (pts @ radius_ring M rad (3 * int i)) = ring_total (Suc i)"
    using Suc.prems(5) by (simp add: length_radius_ring ring_total_Suc nat_add_distrib nat_mult_distrib)
  have "radius_rings M rad maxKm (3 * int i) pts
      = radius_rings M rad maxKm (3 * int (Suc i)) (pts @ radius_ring M rad (3 * int i))"
    using le small by (subst radius_rings.simps) (simp add: radiusRingStepKm_def algebra_simps)
  moreover have "all_rings M rad i n = radius_ring M rad (3 * int i) @ all_rings M rad (Suc i) n"
    using i by (simp add: all_rings_def upt_conv_Cons)
  ultimately show ?case using Suc.hyps(1)[of "Suc i"] Suc.hyps(2) Suc.prems i next_pts by simp
qed

text \<open>The number of rings of a radius.\<close>

definition ring_count :: "RadiusLocation \<Rightarrow> nat" where
  "ring_count rad = nat (\<lfloor>fval (rad_Radius rad)\<rfloor> div 3 + 1)"

lemma expandRadius_rings:
  assumes "finite64 (rad_Radius rad)" "0 < fval (rad_Radius rad)" "fval (rad_Radius rad) \<le> 200"
  shows "expandRadius M oob rad =
     (if fval (rad_Radius rad) < 3 then [\<lparr>Lat = rad_Lat rad, Lon = rad_Lon rad\<rparr>] else all_rings M rad 0 (ring_count rad))"
    "ring_count rad \<le> 67"
proof -
  define r where "r = fval (rad_Radius rad)"
  define k where "k = \<lfloor>r\<rfloor>"
  have three: "f_of_int radiusRingStepKm = Fin 3" by (simp add: f_of_int_exact radiusRingStepKm_def)
  have lt: "flt (rad_Radius rad) (Fin 3) \<longleftrightarrow> r < 3" using assms(1) by (simp add: flt_finite r_def)
  have nn: "rad_Radius rad \<noteq> NaN" using assms(1) by auto
  have k200: "k \<le> 200" using assms(3) unfolding k_def r_def[symmetric] by linarith
  then have "k div 3 + 1 \<le> 67" by linarith
  then show "ring_count rad \<le> 67" unfolding ring_count_def r_def[symmetric] k_def[symmetric] by linarith
  show "expandRadius M oob rad =
     (if fval (rad_Radius rad) < 3 then [\<lparr>Lat = rad_Lat rad, Lon = rad_Lon rad\<rparr>] else all_rings M rad 0 (ring_count rad))"
  proof (cases "r < 3")
    case False
    then have k: "3 \<le> k" "k \<le> 200" using k200 unfolding k_def by linarith+
    have "finite64 (fmin (rad_Radius rad) MaxRadiusKm) \<and> fval (fmin (rad_Radius rad) MaxRadiusKm) = r"
      using fmin_finite[of "rad_Radius rad" MaxRadiusKm] assms by (simp add: MaxRadiusKm_def r_def)
    then have "to_int64 oob (ffloor (fmin (rad_Radius rad) MaxRadiusKm)) = k"
      using rounding_functions_finite(1) k by (intro to_int64_exact) (auto simp: k_def in_int64_def)
    then have "expandRadius M oob rad = radius_rings M rad k (3 * int 0) []"
      using False nn by (simp add: expandRadius_def three lt)
    also have "\<dots> = [] @ all_rings M rad 0 (nat (k div 3 + 1))"
      using k by (intro radius_rings_all) (auto simp: ring_total_def)
    finally show ?thesis using False by (simp add: r_def k_def ring_count_def)
  qed (simp add: expandRadius_def three lt r_def[symmetric])
qed

subsection \<open>Bounding boxes\<close>

text \<open>The number of rows (or columns) of the grid, over the rationals: one more than the rounded span
  times density.\<close>

definition bbox_dim :: "f64 \<Rightarrow> f64 \<Rightarrow> rat \<Rightarrow> int" where
  "bbox_dim lo hi ppd = round_half_away (rnd (rnd (fval hi - fval lo) * ppd)) + 1"

lemma rnd_int_bounds:
  assumes "of_int a \<le> q" "q \<le> of_int b" "\<bar>a\<bar> \<le> 2 ^ 53" "\<bar>b\<bar> \<le> 2 ^ 53"
  shows "of_int a \<le> rnd q" "rnd q \<le> of_int b"
  using rnd_bounds[of "of_int a" "of_int b" q] assms by (simp_all add: rnd_of_int)

lemma bbox_dim_bounds:
  assumes "fval lo < fval hi" "fval hi - fval lo \<le> of_int D" "D \<le> 360" "0 \<le> ppd" "ppd \<le> 100"
  shows "1 \<le> bbox_dim lo hi ppd" "bbox_dim lo hi ppd \<le> D * 100 + 1"
    "0 \<le> rnd (fval hi - fval lo)" "rnd (fval hi - fval lo) * ppd \<le> of_int (D * 100)"
proof -
  define s where "s = rnd (fval hi - fval lo)"
  have s: "0 \<le> s" "s \<le> of_int D" using rnd_int_bounds[of 0 "fval hi - fval lo" D] assms(1-3) by (auto simp: s_def)
  then have "s * ppd \<le> of_int D * 100" using assms(4,5) by (intro mult_mono) auto
  then have p: "0 \<le> s * ppd" "s * ppd \<le> of_int (D * 100)" using s assms(4) by simp_all
  then have r: "0 \<le> rnd (s * ppd)" "rnd (s * ppd) \<le> of_int (D * 100)"
    using rnd_int_bounds[of 0 "s * ppd" "D * 100"] assms(3) s(1) order_trans[OF s] by auto
  then have "0 \<le> \<lfloor>rnd (s * ppd) + 1/2\<rfloor>" "\<lfloor>rnd (s * ppd) + 1/2\<rfloor> \<le> D * 100" by linarith+
  then show "1 \<le> bbox_dim lo hi ppd" "bbox_dim lo hi ppd \<le> D * 100 + 1"
    using r(1) by (simp_all add: bbox_dim_def round_half_away_def s_def)
  show "0 \<le> rnd (fval hi - fval lo)" "rnd (fval hi - fval lo) * ppd \<le> of_int (D * 100)"
    using s p by (simp_all add: s_def)
qed

lemma grid_dim_float:
  assumes "finite64 lo" "finite64 hi" "fval lo < fval hi" "fval hi - fval lo \<le> of_int D" "D \<le> 360" "finite64 ppd" "0 \<le> fval ppd" "fval ppd \<le> 100"
  defines "x \<equiv> fmax (fadd (fround (fmul (fsub hi lo) ppd)) (Fin 1)) (Fin 1)"
  shows "finite64 x \<and> fval x = of_int (bbox_dim lo hi (fval ppd))"
proof -
  note b = bbox_dim_bounds[OF assms(3-5,7,8)]
  define s where "s = rnd (fval hi - fval lo)"
  have D: "D \<le> 360" "of_int (D * 100) \<le> (36000::rat)" using assms(5) by (simp_all flip: of_int_le_iff)
  have f1: "finite64 (fsub hi lo) \<and> fval (fsub hi lo) = s"
    using fsub_finite[of hi lo] small_pow[of "fval hi - fval lo"] assms(1-5) by (simp add: s_def)
  have "\<bar>s * fval ppd\<bar> \<le> 1000000" using b(3,4) D assms(7) by (simp add: s_def)
  then have f2: "finite64 (fmul (fsub hi lo) ppd) \<and> fval (fmul (fsub hi lo) ppd) = rnd (s * fval ppd)"
    using fmul_finite[of "fsub hi lo" ppd] f1 assms(6) small_pow by simp
  define k where "k = bbox_dim lo hi (fval ppd)"
  have k: "1 \<le> k" "k \<le> 36001" using b(1,2) assms(5) by (simp_all add: k_def)
  have f3: "finite64 (fround (fmul (fsub hi lo) ppd)) \<and> fval (fround (fmul (fsub hi lo) ppd)) = of_int (k - 1)"
    using f2 by (simp add: fround_def finite64_def k_def bbox_dim_def s_def) (simp add: with_sign_finite(1)[unfolded finite64_def])
  have "finite64 (fadd (fround (fmul (fsub hi lo) ppd)) (Fin 1))
      \<and> fval (fadd (fround (fmul (fsub hi lo) ppd)) (Fin 1)) = of_int k"
    using fadd_finite[of "fround (fmul (fsub hi lo) ppd)" "Fin 1"] f3 k small_pow[of "of_int k"] rnd_of_int[of k] by simp
  then show ?thesis using fmax_finite k by (simp add: x_def k_def max_def)
qed

lemma fgt_product:
  assumes "finite64 x" "fval x = of_int r" "finite64 y" "fval y = of_int c" "0 \<le> r" "r \<le> 40000" "0 \<le> c" "c \<le> 40000" "0 \<le> m" "m \<le> 2000000"
  shows "fgt (fmul x y) (f_of_int m) \<longleftrightarrow> m < r * c"
proof -
  have rc: "0 \<le> r * c" "r * c \<le> 40000 * 40000" using assms(5-8) mult_mono[of r 40000 c 40000] by auto
  have "\<bar>of_int r * of_int c :: rat\<bar> \<le> 2 ^ 1000"
  proof -
    have "\<bar>of_int (r * c) :: rat\<bar> \<le> of_int (40000 * 40000)" using rc by (simp only: of_int_le_iff flip: of_int_abs)
    also have "\<dots> \<le> 2 ^ 1000" by simp
    finally show ?thesis by simp
  qed
  then have "finite64 (fmul x y) \<and> fval (fmul x y) = rnd (of_int (r * c))"
    using fmul_finite[of x y] assms(1-4) by simp
  moreover have "f_of_int m = Fin (of_int m)" using assms(9,10) by (simp add: f_of_int_exact)
  moreover have "rnd (of_int (r * c)) = of_int (r * c)" using rc by (intro rnd_of_int) simp
  ultimately show ?thesis by (simp add: flt_finite flip: of_int_mult)
qed

text \<open>One axis of the grid: \<open>n\<close> values from \<open>a\<close> to \<open>b\<close>, upwards or downwards.\<close>

definition axis_step :: "f64 \<Rightarrow> int \<Rightarrow> f64" where
  "axis_step w n = (if n > 1 then fdiv w (f_of_int (n - 1)) else Fin 0)"

definition axis_up :: "f64 \<Rightarrow> f64 \<Rightarrow> int \<Rightarrow> f64 list" where
  "axis_up a b n = List.map (\<lambda>i. fadd a (fmul (f_of_int (int i)) (axis_step (fsub b a) n))) [0..<nat n]"

definition axis_down :: "f64 \<Rightarrow> f64 \<Rightarrow> int \<Rightarrow> f64 list" where
  "axis_down a b n = List.map (\<lambda>i. fsub a (fmul (f_of_int (int i)) (axis_step (fsub a b) n))) [0..<nat n]"

definition grid_points :: "f64 list \<Rightarrow> f64 list \<Rightarrow> PointLocation list" where
  "grid_points lats lons = List.concat (List.map (\<lambda>lat. List.map (\<lambda>lon. \<lparr>Lat = lat, Lon = lon\<rparr>) lons) lats)"

lemma length_grid_points [simp]: "length (grid_points lats lons) = length lats * length lons"
  by (induction lats) (simp_all add: grid_points_def)

lemma set_grid_points: "p \<in> set (grid_points lats lons) \<longleftrightarrow> Lat p \<in> set lats \<and> Lon p \<in> set lons"
  by (cases p) (auto simp: grid_points_def)

lemma fillBboxGrid_points:
  "fillBboxGrid b rows cols = (if wrap64 (rows * cols) < 0 then None
     else Some (grid_points (axis_down (North b) (South b) rows) (axis_up (West b) (East b) cols)))"
  by (simp add: fillBboxGrid_def grid_points_def axis_down_def axis_up_def axis_step_def Let_def comp_def if_distrib cong: if_cong)

text \<open>The value of the \<open>i\<close>-th point of an axis from \<open>a\<close> towards \<open>b\<close>, up or down.\<close>

definition axis_value :: "f64 \<Rightarrow> f64 \<Rightarrow> int \<Rightarrow> nat \<Rightarrow> rat" where
  "axis_value a b n i = rnd (fval a + rnd (of_nat i * (if n > 1 then rnd (rnd (fval b - fval a) / of_int (n - 1)) else 0)))"

lemma axis_value_mono:
  assumes "i \<le> j"
  shows "fval a \<le> fval b \<Longrightarrow> axis_value a b n i \<le> axis_value a b n j"
    "fval b \<le> fval a \<Longrightarrow> axis_value a b n j \<le> axis_value a b n i"
proof -
  define q where "q = (if n > 1 then rnd (rnd (fval b - fval a) / of_int (n - 1)) else 0)"
  have "fval a \<le> fval b \<Longrightarrow> 0 \<le> q" by (auto simp: q_def intro!: rnd_nonneg divide_nonneg_nonneg)
  then show "fval a \<le> fval b \<Longrightarrow> axis_value a b n i \<le> axis_value a b n j"
    using assms unfolding axis_value_def q_def[symmetric]
    by (intro rnd_mono add_left_mono mult_right_mono) auto
  have "q \<le> 0" if "fval b \<le> fval a"
  proof (cases "n > 1")
    case True
    have "rnd (fval b - fval a) \<le> rnd 0" using that by (intro rnd_mono) simp
    then have "rnd (fval b - fval a) / of_int (n - 1) \<le> 0" using True by (intro divide_nonpos_pos) auto
    then have "rnd (rnd (fval b - fval a) / of_int (n - 1)) \<le> rnd 0" by (rule rnd_mono)
    then show ?thesis using True by (simp add: q_def)
  qed (simp add: q_def)
  then show "fval b \<le> fval a \<Longrightarrow> axis_value a b n j \<le> axis_value a b n i"
    using assms unfolding axis_value_def q_def[symmetric]
    by (intro rnd_mono add_left_mono mult_right_mono_neg) auto
qed

lemma zero_step: "fmul (f_of_int 0) (Fin 0) = Fin 0" "fmul (f_of_int 0) x = fmul (Fin 0) x"
  by (simp_all add: f_of_int_exact) (simp add: fmul_def Let_def is_inf_def signbit_def round_to_def overflow_def)

lemma add_zero_step:
  assumes "finite64 a" "\<bar>fval a\<bar> \<le> of_int B" "B \<le> 180" "finite64 x" "fval x = 0"
  shows "finite64 (fadd a x) \<and> fval (fadd a x) = rnd (fval a)" "\<bar>rnd (fval a)\<bar> \<le> of_int B"
proof -
  have B: "of_int B \<le> (180::rat)" "0 \<le> B" using assms(2,3) by (simp_all flip: of_int_le_iff)
  then show "finite64 (fadd a x) \<and> fval (fadd a x) = rnd (fval a)"
    using fadd_finite[of a x] small_pow[of "fval a"] assms by simp
  show "\<bar>rnd (fval a)\<bar> \<le> of_int B"
    using rnd_int_bounds[of "- B" "fval a" B] assms(2,3) B by (simp add: abs_le_iff)
qed

lemma axis_nth:
  assumes f: "finite64 a" "finite64 b" and ab: "\<bar>fval a\<bar> \<le> of_int B" "\<bar>fval b\<bar> \<le> of_int B" "B \<le> 180"
    and n: "1 \<le> n" "n \<le> 100000" "i < nat n"
  shows "finite64 (axis_up a b n ! i) \<and> fval (axis_up a b n ! i) = axis_value a b n i"
    "finite64 (axis_down a b n ! i) \<and> fval (axis_down a b n ! i) = axis_value a b n i"
    "\<bar>axis_value a b n i\<bar> \<le> of_int B + slack"
    "\<bar>axis_value a b n i - (fval a + of_nat i / of_int (n - 1) * (fval b - fval a))\<bar> \<le> slack"
proof -
  have B: "of_int B \<le> (180::rat)" using ab(3) by (simp flip: of_int_le_iff)
  have "(finite64 (axis_up a b n ! i) \<and> fval (axis_up a b n ! i) = axis_value a b n i)
      \<and> (finite64 (axis_down a b n ! i) \<and> fval (axis_down a b n ! i) = axis_value a b n i)
      \<and> \<bar>axis_value a b n i\<bar> \<le> of_int B + slack
      \<and> \<bar>axis_value a b n i - (fval a + of_nat i / of_int (n - 1) * (fval b - fval a))\<bar> \<le> slack"
  proof (cases "n = 1")
    case True
    then have i: "i = 0" using n(3) by simp
    have "fsub a (Fin 0) = fadd a NegZero" by (simp add: fsub_def)
    moreover have "\<bar>rnd (fval a)\<bar> \<le> of_int B + slack"
      using add_zero_step(2)[OF f(1) ab(1,3), of "Fin 0"] by simp
    moreover have "\<bar>rnd (fval a) - fval a\<bar> \<le> slack"
      using rnd_error_below[of "fval a" "- 45"] ab(1) B by (simp add: power_int_def power_divide)
    ultimately show ?thesis using add_zero_step[OF f(1) ab(1,3)] True i zero_step
      by (simp add: axis_up_def axis_down_def axis_step_def axis_value_def)
  next
    case False
    then have i: "2 \<le> n" "0 \<le> int i" "int i < n" using n by auto
    note up = interpolate_steps[OF f ab(1,2) B i(1) n(2) i(2,3)]
    note down = interpolate_steps[OF f(2,1) ab(2,1) B i(1) n(2) i(2,3)]
    define v where "v = rnd (of_nat i * rnd (rnd (fval b - fval a) / of_int (n - 1)))"
    have v: "axis_value a b n i = rnd (fval a + v)" using i by (simp add: axis_value_def v_def)
    define w where "w = fmul (f_of_int (int i)) (fdiv (fsub b a) (f_of_int (n - 1)))"
    define w' where "w' = fmul (f_of_int (int i)) (fdiv (fsub a b) (f_of_int (n - 1)))"
    have w: "finite64 w" "fval w = v" "\<bar>fval a + v\<bar> \<le> 1000" "\<bar>rnd (fval a + v)\<bar> \<le> of_int B + slack"
      "\<bar>rnd (fval a + v) - (fval a + of_nat i / of_int (n - 1) * (fval b - fval a))\<bar> \<le> slack"
      using up by (simp_all add: w_def v_def)
    have "rnd (fval a - fval b) = - rnd (fval b - fval a)" using rnd_uminus[of "fval b - fval a"] by simp
    then have w': "finite64 w'" "fval w' = - v" using down(1,2) by (simp_all add: w'_def v_def rnd_uminus)
    have "axis_up a b n ! i = fadd a w" "axis_down a b n ! i = fsub a w'"
      using i n(3) by (simp_all add: axis_up_def axis_down_def axis_step_def w_def w'_def)
    moreover have "finite64 (fadd a w) \<and> fval (fadd a w) = rnd (fval a + v)"
      using fadd_finite[OF f(1) w(1) small_pow] w by simp
    moreover have "finite64 (fsub a w') \<and> fval (fsub a w') = rnd (fval a + v)"
      using fsub_finite[OF f(1) w'(1) small_pow] w' w(3) by simp
    ultimately show ?thesis using w(4,5) by (simp only: v)
  qed
  then show "finite64 (axis_up a b n ! i) \<and> fval (axis_up a b n ! i) = axis_value a b n i"
    "finite64 (axis_down a b n ! i) \<and> fval (axis_down a b n ! i) = axis_value a b n i"
    "\<bar>axis_value a b n i\<bar> \<le> of_int B + slack"
    "\<bar>axis_value a b n i - (fval a + of_nat i / of_int (n - 1) * (fval b - fval a))\<bar> \<le> slack" by blast+
qed

lemma length_axis [simp]: "length (axis_up a b n) = nat n" "length (axis_down a b n) = nat n"
  by (simp_all add: axis_up_def axis_down_def)

lemma axis_ok:
  assumes "finite64 a" "finite64 b" "\<bar>fval a\<bar> \<le> of_int B" "\<bar>fval b\<bar> \<le> of_int B" "B \<le> 180" "1 \<le> n" "n \<le> 100000"
  shows "v \<in> set (axis_up a b n) \<union> set (axis_down a b n) \<Longrightarrow> finite64 v \<and> \<bar>fval v\<bar> \<le> of_int B + slack"
    "fval a \<le> fval b \<Longrightarrow> sorted_wrt (\<lambda>x y. fval x \<le> fval y) (axis_up a b n)"
    "fval b \<le> fval a \<Longrightarrow> sorted_wrt (\<lambda>x y. fval y \<le> fval x) (axis_down a b n)"
proof -
  note nth = axis_nth[OF assms]
  show "v \<in> set (axis_up a b n) \<union> set (axis_down a b n) \<Longrightarrow> finite64 v \<and> \<bar>fval v\<bar> \<le> of_int B + slack"
    unfolding Un_iff in_set_conv_nth length_axis using nth by metis
  show "fval a \<le> fval b \<Longrightarrow> sorted_wrt (\<lambda>x y. fval x \<le> fval y) (axis_up a b n)"
    "fval b \<le> fval a \<Longrightarrow> sorted_wrt (\<lambda>x y. fval y \<le> fval x) (axis_down a b n)"
    unfolding sorted_wrt_iff_nth_less length_axis using nth axis_value_mono[OF less_imp_le] by simp_all
qed

text \<open>An axis of \<open>n\<close> values from \<open>a\<close> to \<open>b\<close>: the \<open>i\<close>-th is the \<open>i\<close>-th of the points that divide the span
  evenly, up to the slack of the four roundings behind it; a single value is \<open>a\<close> (a quotient by zero is
  zero).\<close>

definition even_axis :: "f64 \<Rightarrow> f64 \<Rightarrow> int \<Rightarrow> f64 list \<Rightarrow> bool" where
  "even_axis a b n vs \<longleftrightarrow> int (length vs) = n
     \<and> (\<forall>i < length vs. \<bar>fval (vs ! i) - (fval a + of_nat i / of_int (n - 1) * (fval b - fval a))\<bar> \<le> slack)"

lemma axis_even:
  assumes "finite64 a" "finite64 b" "\<bar>fval a\<bar> \<le> of_int B" "\<bar>fval b\<bar> \<le> of_int B" "B \<le> 180" "1 \<le> n" "n \<le> 100000"
  shows "even_axis a b n (axis_up a b n)" "even_axis a b n (axis_down a b n)"
  using axis_nth[OF assms] assms(6) unfolding even_axis_def length_axis by auto

text \<open>The checked expansion of a validated box: the even grid over it, row by row from the north edge to
  the south edge, each row from the west edge to the east edge.\<close>

definition grid_of_box :: "BboxLocation \<Rightarrow> int \<Rightarrow> int \<Rightarrow> PointLocation list \<Rightarrow> bool" where
  "grid_of_box b rows cols ps \<longleftrightarrow>
     (\<exists>lats lons. ps = grid_points lats lons \<and> even_axis (North b) (South b) rows lats \<and> even_axis (West b) (East b) cols lons
        \<and> sorted_wrt (\<lambda>x y. fval y \<le> fval x) lats \<and> sorted_wrt (\<lambda>x y. fval x \<le> fval y) lons)
     \<and> (\<forall>p\<in>set ps. near_valid slack p)"

lemma fillBboxGrid_ok:
  assumes b: "validateBbox b = Inr ()" and d: "1 \<le> rows" "rows \<le> 40000" "1 \<le> cols" "cols \<le> 40000"
  shows "\<exists>ps. fillBboxGrid b rows cols = Some ps \<and> grid_of_box b rows cols ps \<and> int (length ps) = rows * cols"
proof -
  from b have v: "finite64 (North b)" "finite64 (South b)" "finite64 (West b)" "finite64 (East b)"
      "\<bar>fval (North b)\<bar> \<le> of_int 90" "\<bar>fval (South b)\<bar> \<le> of_int 90" "\<bar>fval (West b)\<bar> \<le> of_int 180" "\<bar>fval (East b)\<bar> \<le> of_int 180"
      "fval (South b) \<le> fval (North b)" "fval (West b) \<le> fval (East b)"
    by (auto simp: result_simps near_valid_def)
  have "rows * cols \<le> 40000 * 40000" using d by (intro mult_mono) auto
  moreover have "0 \<le> rows * cols" using d by simp
  moreover from this have nn: "\<not> rows * cols < 0" by linarith
  ultimately have w: "wrap64 (rows * cols) = rows * cols" by (intro wrap64_id, unfold in_int64_def) linarith
  let ?lats = "axis_down (North b) (South b) rows" and ?lons = "axis_up (West b) (East b) cols"
  note lats = axis_ok[OF v(1,2,5,6), of rows] note lons = axis_ok[OF v(3,4,7,8), of cols]
  have "near_valid slack p" if "p \<in> set (grid_points ?lats ?lons)" for p
    using that lats(1)[of "Lat p"] lons(1)[of "Lon p"] d by (simp add: set_grid_points near_valid_def)
  then have "grid_of_box b rows cols (grid_points ?lats ?lons)"
    unfolding grid_of_box_def using lats(3) lons(2) v(9,10) d
      axis_even(2)[OF v(1,2,5,6), of rows] axis_even(1)[OF v(3,4,7,8), of cols]
    by (intro conjI exI[of _ ?lats] exI[of _ ?lons]) auto
  moreover have "fillBboxGrid b rows cols = Some (grid_points ?lats ?lons)"
    by (simp only: fillBboxGrid_points w if_not_P[OF nn])
  ultimately show ?thesis using d by simp
qed

lemma valid_box_dims:
  assumes b: "validateBbox b = Inr ()" and p: "finite64 ppd" "0 \<le> fval ppd" "fval ppd \<le> 100"
  defines "R \<equiv> bbox_dim (South b) (North b) (fval ppd)" and "C \<equiv> bbox_dim (West b) (East b) (fval ppd)"
  shows "1 \<le> R" "R \<le> 40000" "1 \<le> C" "C \<le> 40000" "bbox_finite b"
    "\<exists>x y. bboxGridDimsFloat b ppd = (x, y) \<and> finite64 x \<and> finite64 y \<and> fval x = of_int R \<and> fval y = of_int C"
proof -
  from b have v: "finite64 (North b)" "finite64 (South b)" "finite64 (West b)" "finite64 (East b)"
      "fval (North b) - fval (South b) \<le> of_int 180" "fval (East b) - fval (West b) \<le> of_int 360"
      "fval (South b) < fval (North b)" "fval (West b) < fval (East b)"
    by (auto simp: result_simps near_valid_def)
  show "1 \<le> R" "R \<le> 40000" "1 \<le> C" "C \<le> 40000" "bbox_finite b"
    using bbox_dim_bounds(1,2)[OF v(7,5) _ p(2,3)] bbox_dim_bounds(1,2)[OF v(8,6) _ p(2,3)] v(1-4)
    by (simp_all add: R_def C_def bbox_finite_def isFinite_def finite64_def)
  show "\<exists>x y. bboxGridDimsFloat b ppd = (x, y) \<and> finite64 x \<and> finite64 y \<and> fval x = of_int R \<and> fval y = of_int C"
    using grid_dim_float[OF v(2,1,7,5) _ p] grid_dim_float[OF v(3,4,8,6) _ p]
    by (simp add: bboxGridDimsFloat_def R_def C_def)
qed

lemma checked_grid:
  assumes b: "validateBbox b = Inr ()" and p: "1 \<le> ppd" "ppd \<le> 100" and m: "0 < m" "m \<le> MaxBboxGridPoints"
  defines "R \<equiv> bbox_dim (South b) (North b) (of_int ppd)" and "C \<equiv> bbox_dim (West b) (East b) (of_int ppd)"
  shows "if R * C > m then ExpandBboxToGridChecked oob b ppd m = Inl GridTooLarge
     else \<exists>ps. ExpandBboxToGridChecked oob b ppd m = Inr (ps, R, C) \<and> grid_of_box b R C ps \<and> int (length ps) = R * C"
proof -
  have fp: "f_of_int ppd = Fin (of_int ppd)" using p by (simp add: f_of_int_exact)
  have "finite64 (f_of_int ppd)" "0 \<le> fval (f_of_int ppd)" "fval (f_of_int ppd) \<le> 100" using p by (simp_all add: fp)
  note d = valid_box_dims[OF b this, unfolded fp fval.simps, folded R_def C_def]
  obtain x y where xy: "bboxGridDimsFloat b (f_of_int ppd) = (x, y)" "finite64 x" "finite64 y" "fval x = of_int R" "fval y = of_int C"
    using d(6) by (auto simp: fp)
  have big: "fgt (fmul x y) (f_of_int m) \<longleftrightarrow> m < R * C"
    using d xy m by (intro fgt_product) (auto simp: MaxBboxGridPoints_def)
  have ints: "to_int64 oob x = R" "to_int64 oob y = C"
    using d xy by (auto intro!: to_int64_exact simp: in_int64_def)
  have edges: "\<not> fgt (South b) (North b)" "\<not> fgt (West b) (East b)"
    using b by (auto simp: result_simps near_valid_def flt_finite)
  have dims: "BboxGridDims oob b ppd m = (if R * C > m then Inl GridTooLarge else Inr (R, C))"
    using p m d(5) xy(1) big ints edges by (simp add: BboxGridDims_def MaxPointsPerDegree_def)
  show ?thesis
    using fillBboxGrid_ok[OF b d(1-4)] by (auto simp: ExpandBboxToGridChecked_def dims)
qed

text \<open>The deprecated expansion halves the density until the grid fits: a density of one point per
  degree always does, and seven halvings reach it.\<close>

lemma bbox_dim_low_density:
  assumes b: "validateBbox b = Inr ()" and p: "0 \<le> p" "p \<le> 1"
  shows "bbox_dim (South b) (North b) p \<le> 181" "bbox_dim (West b) (East b) p \<le> 361"
    "1 \<le> bbox_dim (South b) (North b) p" "1 \<le> bbox_dim (West b) (East b) p"
proof -
  have dim: "bbox_dim lo hi p \<le> D + 1 \<and> 1 \<le> bbox_dim lo hi p"
    if "fval lo < fval hi" "fval hi - fval lo \<le> of_int D" "D \<le> 360" for lo hi D
  proof -
    have s: "0 \<le> rnd (fval hi - fval lo)" "rnd (fval hi - fval lo) \<le> of_int D"
      using rnd_int_bounds[of 0 "fval hi - fval lo" D] that by auto
    then have "rnd (fval hi - fval lo) * p \<le> of_int D * 1" using p by (intro mult_mono) auto
    then have "0 \<le> rnd (rnd (fval hi - fval lo) * p)" "rnd (rnd (fval hi - fval lo) * p) \<le> of_int D"
      using rnd_int_bounds[of 0 "rnd (fval hi - fval lo) * p" D] s p(1) that(3) order_trans[OF s] by auto
    then have "0 \<le> \<lfloor>rnd (rnd (fval hi - fval lo) * p) + 1/2\<rfloor>" "\<lfloor>rnd (rnd (fval hi - fval lo) * p) + 1/2\<rfloor> \<le> D"
      "\<not> rnd (rnd (fval hi - fval lo) * p) < 0" by linarith+
    then show ?thesis by (simp add: bbox_dim_def round_half_away_def)
  qed
  from b have "fval (South b) < fval (North b)" "fval (North b) - fval (South b) \<le> of_int 180"
      "fval (West b) < fval (East b)" "fval (East b) - fval (West b) \<le> of_int 360"
    by (auto simp: result_simps near_valid_def)
  from dim[OF this(1,2)] dim[OF this(3,4)]
  show "bbox_dim (South b) (North b) p \<le> 181" "bbox_dim (West b) (East b) p \<le> 361"
    "1 \<le> bbox_dim (South b) (North b) p" "1 \<le> bbox_dim (West b) (East b) p" by simp_all
qed

lemma halve_density_fits:
  assumes b: "validateBbox b = Inr ()"
    and "finite64 ppd" "0 \<le> fval ppd" "fval ppd \<le> 100" "fval ppd \<le> of_int (2 ^ k)" "k \<le> n"
  shows "\<exists>x y p. halve_density n b ppd (bboxGridDimsFloat b ppd) = (x, y) \<and> finite64 x \<and> finite64 y
     \<and> 0 \<le> p \<and> p \<le> 100 \<and> fval x = of_int (bbox_dim (South b) (North b) p) \<and> fval y = of_int (bbox_dim (West b) (East b) p)
     \<and> bbox_dim (South b) (North b) p * bbox_dim (West b) (East b) p \<le> MaxBboxGridPoints"
  using assms(2-)
proof (induction n arbitrary: ppd k)
  case 0
  then have "fval ppd \<le> 1" by simp
  note low = bbox_dim_low_density[OF b 0(2) this]
  then have "bbox_dim (South b) (North b) (fval ppd) * bbox_dim (West b) (East b) (fval ppd) \<le> 181 * 361"
    by (intro mult_mono) auto
  then show ?case using valid_box_dims(6)[OF b 0(1-3)] 0(2,3) by (auto simp: MaxBboxGridPoints_def intro!: exI[of _ "fval ppd"])
next
  case (Suc n)
  note d = valid_box_dims[OF b Suc.prems(1-3)]
  obtain x y where xy: "bboxGridDimsFloat b ppd = (x, y)" "finite64 x" "finite64 y"
      "fval x = of_int (bbox_dim (South b) (North b) (fval ppd))" "fval y = of_int (bbox_dim (West b) (East b) (fval ppd))"
    using d(6) by auto
  have big: "fgt (fmul x y) (f_of_int MaxBboxGridPoints)
      \<longleftrightarrow> MaxBboxGridPoints < bbox_dim (South b) (North b) (fval ppd) * bbox_dim (West b) (East b) (fval ppd)"
    using d xy by (intro fgt_product) (auto simp: MaxBboxGridPoints_def)
  show ?case
  proof (cases "fgt (fmul x y) (f_of_int MaxBboxGridPoints)")
    case False
    then show ?thesis using xy big Suc.prems(2,3) by (auto simp: not_less intro!: exI[of _ "fval ppd"])
  next
    case True
    have k: "k \<noteq> 0"
    proof
      assume "k = 0"
      then have "fval ppd \<le> 1" using Suc.prems(4) by simp
      note low = bbox_dim_low_density[OF b Suc.prems(2) this]
      then have "bbox_dim (South b) (North b) (fval ppd) * bbox_dim (West b) (East b) (fval ppd) \<le> 181 * 361"
        by (intro mult_mono) auto
      then show False using True big by (simp add: MaxBboxGridPoints_def)
    qed
    then obtain l where l: "k = Suc l" by (cases k) auto
    have h: "finite64 (fdiv ppd (Fin 2)) \<and> fval (fdiv ppd (Fin 2)) = rnd (fval ppd / 2)"
      using fdiv_finite[of ppd "Fin 2"] Suc.prems(1-3) small_pow[of "fval ppd / 2"] by simp
    have half: "0 \<le> rnd (fval ppd / 2)" "rnd (fval ppd / 2) \<le> 50"
      using rnd_int_bounds[of 0 "fval ppd / 2" 50] Suc.prems(2,3) by auto
    have "rnd (fval ppd / 2) \<le> of_int (2 ^ l)"
    proof (cases "l \<le> 53")
      case True
      then have "(2::int) ^ l \<le> 2 ^ 53" by (intro power_increasing) auto
      then show ?thesis using rnd_int_bounds[of 0 "fval ppd / 2" "2 ^ l"] Suc.prems(2,4) l by simp
    next
      case False
      then have "(2::rat) ^ 6 \<le> 2 ^ l" by (intro power_increasing) auto
      then show ?thesis using half(2) by simp
    qed
    then obtain x' y' p where r: "halve_density n b (fdiv ppd (Fin 2)) (bboxGridDimsFloat b (fdiv ppd (Fin 2))) = (x', y')"
        "finite64 x'" "finite64 y'" "0 \<le> p" "p \<le> 100"
        "fval x' = of_int (bbox_dim (South b) (North b) p)" "fval y' = of_int (bbox_dim (West b) (East b) p)"
        "bbox_dim (South b) (North b) p * bbox_dim (West b) (East b) p \<le> MaxBboxGridPoints"
      using Suc.IH[of "fdiv ppd (Fin 2)" l] h half Suc.prems(5) l by auto
    then show ?thesis using r True xy(1) by (auto simp: Let_def intro!: exI[of _ p])
  qed
qed

lemma deprecated_grid:
  assumes b: "validateBbox b = Inr ()" and p: "0 \<le> ppd" "in_int64 ppd"
  shows "\<exists>ps rows cols. ExpandBboxToGrid oob b ppd = Some (ps, rows, cols) \<and> 1 \<le> rows \<and> 1 \<le> cols
     \<and> rows * cols \<le> MaxBboxGridPoints \<and> int (length ps) = rows * cols \<and> grid_of_box b rows cols ps"
proof -
  have "\<bar>of_int ppd :: rat\<bar> \<le> 2 ^ 1000"
  proof -
    have "\<bar>of_int ppd :: rat\<bar> \<le> of_int (2 ^ 63)" using p by (simp only: of_int_le_iff in_int64_def flip: of_int_abs) simp
    also have "\<dots> \<le> 2 ^ 1000" by simp
    finally show ?thesis .
  qed
  then have f: "finite64 (f_of_int ppd)" "fval (f_of_int ppd) = rnd (of_int ppd)"
    using round_to_finite by (simp_all add: f_of_int_def finite64_def)
  define d where "d = fmin (f_of_int ppd) (f_of_int MaxPointsPerDegree)"
  have "f_of_int MaxPointsPerDegree = Fin 100" by (simp add: MaxPointsPerDegree_def f_of_int_exact)
  then have d: "finite64 d" "0 \<le> fval d" "fval d \<le> 100"
    using fmin_finite[OF f(1), of "Fin 100"] rnd_nonneg[of "of_int ppd"] p(1) by (auto simp: d_def f(2))
  have "fval d \<le> of_int (2 ^ 7)" using d(3) by simp
  from halve_density_fits[OF b d this, of 2100] obtain x y q where
    h: "halve_density 2100 b d (bboxGridDimsFloat b d) = (x, y)" "finite64 x" "finite64 y" "0 \<le> q" "q \<le> 100"
      "fval x = of_int (bbox_dim (South b) (North b) q)" "fval y = of_int (bbox_dim (West b) (East b) q)"
      "bbox_dim (South b) (North b) q * bbox_dim (West b) (East b) q \<le> MaxBboxGridPoints" by auto
  define R where "R = bbox_dim (South b) (North b) q"
  define C where "C = bbox_dim (West b) (East b) q"
  have dims: "1 \<le> R" "R \<le> 40000" "1 \<le> C" "C \<le> 40000" "bbox_finite b"
    using valid_box_dims(1-5)[OF b, of "Fin q"] h(4,5) by (simp_all add: R_def C_def)
  have "fgt (fmul x y) (f_of_int MaxBboxGridPoints) \<longleftrightarrow> MaxBboxGridPoints < R * C"
    using dims h by (intro fgt_product) (auto simp: MaxBboxGridPoints_def R_def C_def)
  moreover have "to_int64 oob x = R" "to_int64 oob y = C"
    using dims h by (auto intro!: to_int64_exact simp: in_int64_def R_def C_def)
  ultimately show ?thesis
    using fillBboxGrid_ok[OF b dims(1-4)] h(1,8) dims
    by (auto simp: ExpandBboxToGrid_def d_def[symmetric] R_def[symmetric] C_def[symmetric] Let_def not_less)
qed

end
