(* ===== verification/LocationSampling.thy ===== *)
theory LocationSampling
  imports LocationGrid
begin

text \<open>
  The grids whose spacing is widened until they are small enough: the widening loop ends, the
  rectangle grid keeps its limit of 250 points and its corners, and the polygon sampling returns.
\<close>

subsection \<open>The widening loop\<close>

text \<open>The number of steps a span is divided into.\<close>

definition cells :: "f64 \<Rightarrow> f64 \<Rightarrow> int" where
  "cells w s = \<lceil>rnd (fval w / fval s)\<rceil>"

definition span_ok :: "f64 \<Rightarrow> bool" where
  "span_ok w \<longleftrightarrow> finite64 w \<and> 0 \<le> fval w \<and> fval w \<le> 362"

definition step_ok :: "f64 \<Rightarrow> bool" where
  "step_ok s \<longleftrightarrow> finite64 s \<and> 9 / 100 \<le> fval s"

lemma cells_bounds:
  assumes "span_ok w" "step_ok s"
  shows "0 \<le> cells w s" "cells w s \<le> 4100" "400 \<le> fval s \<Longrightarrow> cells w s \<le> 1"
    "finite64 (fdiv w s) \<and> fval (fdiv w s) = rnd (fval w / fval s)" "\<bar>fval w / fval s\<bar> \<le> 4100"
proof -
  have q: "0 \<le> fval w / fval s" using assms by (auto simp: span_ok_def step_ok_def)
  have "fval w \<le> 4100 * fval s" using assms by (simp add: span_ok_def step_ok_def)
  then have q2: "fval w / fval s \<le> 4100" using assms by (simp add: step_ok_def divide_le_eq)
  have r: "0 \<le> rnd (fval w / fval s)" "rnd (fval w / fval s) \<le> 4100"
    using rnd_int_bounds[of 0 "fval w / fval s" 4100] q q2 by simp_all
  then show "0 \<le> cells w s" "cells w s \<le> 4100" by (simp_all add: cells_def ceiling_le_iff)
  have "rnd (fval w / fval s) \<le> 1" if "400 \<le> fval s"
    using rnd_int_bounds[of 0 "fval w / fval s" 1] q that assms by (simp add: span_ok_def divide_le_eq)
  then show "400 \<le> fval s \<Longrightarrow> cells w s \<le> 1" by (simp add: cells_def ceiling_le_iff)
  show b: "\<bar>fval w / fval s\<bar> \<le> 4100" using q q2 by linarith
  show "finite64 (fdiv w s) \<and> fval (fdiv w s) = rnd (fval w / fval s)"
    using fdiv_finite[of w s] small_pow[of "fval w / fval s"] b assms by (simp add: span_ok_def step_ok_def)
qed

lemma gridPointCount_cells:
  assumes "span_ok w" "span_ok v" "step_ok s"
  shows "gridPointCount oob w v s = (cells w s + 1) * (cells v s + 1)"
proof -
  have side: "finite64 (fadd (fceil (fdiv u s)) (Fin 1)) \<and> fval (fadd (fceil (fdiv u s)) (Fin 1)) = of_int (cells u s + 1)"
    if "span_ok u" for u
  proof -
    note b = cells_bounds[OF that assms(3)]
    have c: "finite64 (fceil (fdiv u s)) \<and> fval (fceil (fdiv u s)) = of_int (cells u s)"
      using rounding_functions_finite(2)[of "fdiv u s"] b(4) by (simp add: cells_def)
    have "\<bar>of_int (cells u s + 1) :: rat\<bar> \<le> of_int 1000000" using b(1,2) by (simp only: of_int_le_iff flip: of_int_abs)
    then have "\<bar>of_int (cells u s) + 1 :: rat\<bar> \<le> 2 ^ 1000" by (intro small_pow) simp
    moreover have "rnd (of_int (cells u s + 1)) = of_int (cells u s + 1)" using b(1,2) by (intro rnd_of_int) simp
    ultimately show ?thesis using fadd_finite[of "fceil (fdiv u s)" "Fin 1"] c by simp
  qed
  define n where "n = (cells w s + 1) * (cells v s + 1)"
  note b = cells_bounds(1,2)[OF assms(1,3)] cells_bounds(1,2)[OF assms(2,3)]
  have n: "0 \<le> n" "n \<le> 4101 * 4101" using b mult_mono[of "cells w s + 1" 4101 "cells v s + 1" 4101] by (simp_all add: n_def)
  have "\<bar>of_int n :: rat\<bar> \<le> of_int (4101 * 4101)" using n by (simp only: of_int_le_iff flip: of_int_abs)
  also have "\<dots> \<le> 2 ^ 1000" by simp
  finally have small: "\<bar>of_int (cells w s + 1) * of_int (cells v s + 1) :: rat\<bar> \<le> 2 ^ 1000" by (simp add: n_def)
  define p where "p = fmul (fadd (fceil (fdiv w s)) (Fin 1)) (fadd (fceil (fdiv v s)) (Fin 1))"
  have p: "finite64 p" "fval p = of_int n"
    using fmul_finite[of "fadd (fceil (fdiv w s)) (Fin 1)" "fadd (fceil (fdiv v s)) (Fin 1)"]
      side[OF assms(1)] side[OF assms(2)] small rnd_of_int[of n] n by (simp_all add: p_def n_def)
  have "\<not> fge p (Fin 2147483647)" using p n by (simp add: fle_finite)
  moreover have "to_int64 oob p = n" using p n by (intro to_int64_exact) (auto simp: in_int64_def)
  moreover have "p \<noteq> NaN" using p(1) by auto
  ultimately show ?thesis unfolding gridPointCount_def p_def[symmetric] Let_def by (simp add: n_def)
qed

text \<open>Widening by a factor of at least 1.25 multiplies the step by at least 1.2, rounding included.\<close>

lemma widen:
  assumes "step_ok s" "fval s < 400" "finite64 f" "5 / 4 \<le> fval f" "fval f \<le> 2"
  shows "step_ok (fmul s f)" "6 / 5 * fval s \<le> fval (fmul s f)" "fval (fmul s f) \<le> 1000"
proof -
  define x where "x = fval s * fval f"
  have s: "finite64 s" "9 / 100 \<le> fval s" using assms(1) by (simp_all add: step_ok_def)
  have x: "5 / 4 * fval s \<le> x" "0 \<le> x" using assms(4) s mult_left_mono[of "5/4" "fval f" "fval s"] by (simp_all add: x_def)
  have "x \<le> 400 * 2" unfolding x_def using assms s by (intro mult_mono) auto
  then have r: "finite64 (fmul s f) \<and> fval (fmul s f) = rnd x" "rnd x \<le> 1000"
    using fmul_finite[of s f] small_pow[of x] x(2) assms(3) s(1) rnd_int_bounds[of 0 x 1000] by (simp_all add: x_def)
  have "pw2 (- 1075) \<le> pw2 (- 60)" by (rule pw2_mono) simp
  then have e: "\<bar>rnd x - x\<bar> \<le> x * (1 / 2 ^ 53) + 1 / 2 ^ 60"
    using rnd_rel_error[of x] x(2) by (simp add: power_int_def power_divide)
  have "x * (1 / 2 ^ 53) \<le> 1 / 2 ^ 43" using \<open>x \<le> 400 * 2\<close> by simp
  moreover have "(1::rat) / 2 ^ 43 + 1 / 2 ^ 60 \<le> 1 / 1000" by simp
  ultimately have "\<bar>rnd x - x\<bar> \<le> 1 / 1000" using e by linarith
  then show "6 / 5 * fval s \<le> fval (fmul s f)" using x(1) s(2) r(1) by linarith
  then show "step_ok (fmul s f)" "fval (fmul s f) \<le> 1000" using r s by (simp_all add: step_ok_def)
qed

lemma coarsen_ends:
  assumes "span_ok w" "span_ok v" "step_ok s" "finite64 f" "5 / 4 \<le> fval f" "fval f \<le> 2" "4 \<le> cap"
    and "400 \<le> fval s * (6 / 5) ^ n"
  shows "\<exists>s'. coarsen oob cap f w v s = Some s' \<and> step_ok s' \<and> fval s \<le> fval s' \<and> (fval s' = fval s \<or> fval s' \<le> 1000)
     \<and> (cells w s' + 1) * (cells v s' + 1) \<le> cap"
  using assms(3,8)
proof (induction n arbitrary: s)
  case 0
  then have "cells w s \<le> 1" "cells v s \<le> 1" using cells_bounds(3)[OF _ 0(1)] assms(1,2) by auto
  then have "(cells w s + 1) * (cells v s + 1) \<le> 2 * 2"
    using cells_bounds(1)[OF _ 0(1)] assms(1,2) by (intro mult_mono) auto
  then show ?case
    using assms(7) 0(1) by (subst coarsen.simps) (simp add: gridPointCount_cells[OF assms(1,2)])
next
  case (Suc n)
  show ?case
  proof (cases "(cells w s + 1) * (cells v s + 1) \<le> cap")
    case True
    then show ?thesis using Suc.prems(1) by (subst coarsen.simps) (simp add: gridPointCount_cells[OF assms(1,2)])
  next
    case False
    have "fval s < 400"
    proof (rule ccontr)
      assume "\<not> fval s < 400"
      then have "cells w s \<le> 1" "cells v s \<le> 1" using cells_bounds(3)[OF _ Suc.prems(1)] assms(1,2) by auto
      then have "(cells w s + 1) * (cells v s + 1) \<le> 2 * 2"
        using cells_bounds(1)[OF _ Suc.prems(1)] assms(1,2) by (intro mult_mono) auto
      then show False using False assms(7) by simp
    qed
    note w = widen[OF Suc.prems(1) this assms(4-6)]
    have "fval s * (6 / 5) ^ Suc n \<le> fval (fmul s f) * (6 / 5) ^ n"
      using mult_right_mono[OF w(2), of "(6 / 5) ^ n"] by (simp add: algebra_simps)
    then have "400 \<le> fval (fmul s f) * (6 / 5) ^ n" using Suc.prems(2) by linarith
    from Suc.IH[OF w(1) this] obtain s' where s': "coarsen oob cap f w v (fmul s f) = Some s'" "step_ok s'"
      "fval (fmul s f) \<le> fval s'" "fval s' = fval (fmul s f) \<or> fval s' \<le> 1000" "(cells w s' + 1) * (cells v s' + 1) \<le> cap"
      by blast
    moreover have "fval s \<le> fval s'" using w(2) s'(3) Suc.prems(1) by (simp add: step_ok_def)
    ultimately show ?thesis
      using False w(3) Suc.prems(1) by (subst coarsen.simps) (auto simp: gridPointCount_cells[OF assms(1,2)])
  qed
qed

subsection \<open>Stepped values\<close>

lemma nano: "\<bar>rnd (1 / 1000000000) - 1 / 1000000000\<bar> \<le> 1 / 2 ^ 60"
proof -
  have "pw2 (- 1075) \<le> pw2 (- 80)" by (rule pw2_mono) simp
  then show ?thesis using rnd_rel_error[of "1 / 1000000000"] by (simp add: power_int_def power_divide)
qed

text \<open>The tolerance of a step, a billionth of it.\<close>

lemma tolerance:
  assumes "step_ok s" "fval s \<le> 1000"
  defines "e \<equiv> fmul s (f_const (1 / 1000000000))"
  shows "finite64 e" "9 / 10000000000 * fval s \<le> fval e" "fval e \<le> 11 / 10000000000 * fval s"
proof -
  define c where "c = rnd (1 / 1000000000)"
  define x where "x = fval s * c"
  have c: "99 / 100000000000 \<le> c" "c \<le> 101 / 100000000000" 
  proof -
    have "(1::rat) / 2 ^ 60 \<le> 1 / 100000000000" by simp
    then show "99 / 100000000000 \<le> c" "c \<le> 101 / 100000000000"
      using nano unfolding c_def abs_le_iff by linarith+
  qed
  have s: "finite64 s" "9 / 100 \<le> fval s" using assms(1) by (simp_all add: step_ok_def)
  have x: "99 / 100000000000 * fval s \<le> x" "x \<le> 101 / 100000000000 * fval s"
    using c s mult_left_mono[of _ _ "fval s"] by (simp_all add: x_def mult.commute)
  then have x1: "0 \<le> x" "x \<le> 1" using s assms(2) by linarith+
  have "pw2 (- 1075) \<le> pw2 (- 80)" by (rule pw2_mono) simp
  then have r: "\<bar>rnd x - x\<bar> \<le> x * (1 / 2 ^ 53) + 1 / 2 ^ 80"
    using rnd_rel_error[of x] x1 by (simp add: power_int_def power_divide)
  have "x * (1 / 2 ^ 53) \<le> fval s * (1 / 2 ^ 53)" using x(2) s by (intro mult_right_mono) auto
  then have "\<bar>rnd x - x\<bar> \<le> fval s * (1 / 2 ^ 53) + 1 / 2 ^ 80" using r by linarith
  moreover have "fval s * (1 / 2 ^ 53) + 1 / 2 ^ 80 \<le> fval s * (1 / 100000000000)" using s by simp
  moreover have e: "finite64 e \<and> fval e = rnd x"
    using fmul_finite[of s "Fin c"] s small_pow[of x] x1 by (simp add: e_def f_const_def c_def x_def)
  ultimately show "finite64 e" "9 / 10000000000 * fval s \<le> fval e" "fval e \<le> 11 / 10000000000 * fval s"
    using x by (auto simp: abs_le_iff)
qed

text \<open>What the stepping loop maintains about the values collected so far: they lie between the ends,
  start at the lower one, and the last is the \<open>k\<close>-th step up to a rounding error, or the upper end.\<close>

definition collected :: "f64 \<Rightarrow> f64 \<Rightarrow> rat \<Rightarrow> f64 list \<Rightarrow> bool" where
  "collected lower upper s xs \<longleftrightarrow>
     length xs \<le> 252 \<and> (\<forall>x\<in>set xs. finite64 x \<and> fval lower \<le> fval x \<and> fval x \<le> fval upper) \<and>
     (xs \<noteq> [] \<longrightarrow> hd xs = lower
        \<and> fval lower + of_nat (length xs - 1) * s \<le> fval upper + 2 / 1000000000 * s + 1 / 2 ^ 35
        \<and> (fval (last xs) = fval upper \<or> \<bar>fval (last xs) - (fval lower + of_nat (length xs - 1) * s)\<bar> \<le> 1 / 2 ^ 35))"

lemma step_values_collected:
  assumes u: "finite64 upper" "\<bar>fval upper\<bar> \<le> 181" and l: "\<bar>fval lower\<bar> \<le> 181" "fval lower \<le> fval upper"
    and s: "step_ok step" "fval step \<le> 1000"
    and inv: "collected lower upper (fval step) vals" "length vals + n \<le> 252" "finite64 v" "fval lower \<le> fval v"
      "\<bar>fval v - (fval lower + of_nat (length vals) * fval step)\<bar> \<le> of_nat (length vals) / 2 ^ 43"
      "vals = [] \<longrightarrow> v = lower"
  shows "collected lower upper (fval step) (step_values n v upper step vals)"
  using inv
proof (induction n arbitrary: v vals)
  case (Suc n)
  note e = tolerance[OF s]
  define lim where "lim = fadd upper (fmul step (f_const (1 / 1000000000)))"
  define k where "k = length vals"
  define eps where "eps = fval (fmul step (f_const (1 / 1000000000)))"
  have eps: "0 \<le> eps" "eps \<le> 11 / 10000000000 * fval step" "eps \<le> 1"
    using e s by (simp_all add: eps_def step_ok_def)
  have lim: "finite64 lim" "fval lim \<le> fval upper + eps + 1 / 2 ^ 43"
  proof -
    have b: "\<bar>fval upper + eps\<bar> \<le> 183" using u(2) eps by linarith
    have "\<bar>rnd (fval upper + eps) - (fval upper + eps)\<bar> \<le> 1 / 2 ^ 43"
      using rnd_error_below[of "fval upper + eps" "- 42"] b by (simp add: power_int_def power_divide)
    moreover have "finite64 lim \<and> fval lim = rnd (fval upper + eps)"
      using fadd_finite[OF u(1) e(1)] b small_pow[of "fval upper + eps"] by (simp add: lim_def eps_def)
    ultimately show "finite64 lim" "fval lim \<le> fval upper + eps + 1 / 2 ^ 43" unfolding abs_le_iff by linarith+
  qed
  show ?case
  proof (cases "fle v lim")
    case False
    then show ?thesis using Suc.prems(1) by (simp add: lim_def)
  next
    case True
    then have vl: "fval v \<le> fval upper + eps + 1 / 2 ^ 43" using lim Suc.prems(3) by (simp add: fle_finite)
    define w where "w = (if fgt v upper then upper else v)"
    have w: "finite64 w" "fval w = min (fval v) (fval upper)"
      using Suc.prems(3) u(1) by (auto simp: w_def flt_finite)
    have k: "k \<le> 251" using Suc.prems(2) by (simp add: k_def)
    then have kr: "(of_nat k :: rat) / 2 ^ 43 + 1 / 2 ^ 43 \<le> 1 / 2 ^ 35"
    proof -
      have "(of_nat k :: rat) \<le> 251" using k by (metis of_nat_le_iff of_nat_numeral)
      then show ?thesis by simp
    qed
    have pos: "fval lower + of_nat k * fval step \<le> fval v + of_nat k / 2 ^ 43"
      "fval v \<le> fval lower + of_nat k * fval step + of_nat k / 2 ^ 43" 
      using Suc.prems(5) unfolding k_def[symmetric] abs_le_iff by linarith+
    have "eps \<le> 2 / 1000000000 * fval step" using eps(2) s(1) by (simp add: step_ok_def)
    then have "fval lower + of_nat k * fval step \<le> fval upper + 2 / 1000000000 * fval step + 1 / 2 ^ 35"
      using pos vl kr by linarith
    moreover have "fval w = fval upper \<or> \<bar>fval w - (fval lower + of_nat k * fval step)\<bar> \<le> 1 / 2 ^ 35"
    proof (cases "fval v \<le> fval upper")
      case True
      have "(0::rat) \<le> 1 / 2 ^ 43" by simp
      then show ?thesis using True pos kr w(2) by (simp only: min_absorb1 abs_le_iff) linarith
    qed (simp add: w(2))
    moreover have "fval lower \<le> fval w" "fval w \<le> fval upper" using w(2) Suc.prems(4) l(2) by auto
    moreover have "vals = [] \<longrightarrow> w = lower" using Suc.prems(6) l(2) u(1) Suc.prems(3) by (auto simp: w_def flt_finite)
    ultimately have c: "collected lower upper (fval step) (vals @ [w])"
      using Suc.prems(1,2) w(1) by (auto simp: collected_def k_def hd_append)
    show ?thesis
    proof (cases "fge w upper")
      case True
      then show ?thesis using \<open>fle v lim\<close> c by (simp add: lim_def w_def Let_def)
    next
      case False
      then have vu: "fval v < fval upper" "w = v" using w u(1) by (auto simp: fle_finite w_def flt_finite Suc.prems(3))
      define x where "x = fval v + fval step"
      have x: "\<bar>x\<bar> \<le> 1500" using vu(1) u(2) l(1) s Suc.prems(4) unfolding x_def step_ok_def by linarith
      have r: "\<bar>rnd x - x\<bar> \<le> 1 / 2 ^ 43"
        using rnd_error_below[of x "- 42"] x by (simp add: power_int_def power_divide)
      have nx: "finite64 (fadd w step) \<and> fval (fadd w step) = rnd x"
        using fadd_finite[of v step] Suc.prems(3) s(1) small_pow[of x] x by (simp add: vu(2) step_ok_def x_def)
      have "of_nat (Suc k) * fval step = of_nat k * fval step + fval step"
        "(of_nat (Suc k) :: rat) / 2 ^ 43 = of_nat k / 2 ^ 43 + 1 / 2 ^ 43"
        by (simp_all add: distrib_right add_divide_distrib)
      then have "\<bar>rnd x - (fval lower + of_nat (Suc k) * fval step)\<bar> \<le> of_nat (Suc k) / 2 ^ 43"
        using pos r unfolding x_def abs_le_iff by linarith
      moreover have "fval lower \<le> rnd x"
      proof -
        have "(1::rat) / 2 ^ 43 \<le> 9 / 100" by simp
        then show ?thesis using r s(1) Suc.prems(4) unfolding x_def step_ok_def abs_le_iff by linarith
      qed
      ultimately have "collected lower upper (fval step) (step_values n (fadd w step) upper step (vals @ [w]))"
        using Suc.prems(2) nx c by (intro Suc.IH) (auto simp: k_def)
      then show ?thesis using False \<open>fle v lim\<close> by (simp add: lim_def w_def Let_def)
    qed
  qed
qed simp

text \<open>A span is no longer than its cells, up to a rounding error.\<close>

lemma cells_cover:
  assumes "span_ok w" "step_ok s" "fval s \<le> 1000" "fval w = rnd d" "\<bar>d\<bar> \<le> 400"
  shows "d \<le> of_int (cells w s) * fval s + 1 / 2 ^ 42"
proof -
  define q where "q = fval w / fval s"
  have s: "0 < fval s" using assms(2) by (simp add: step_ok_def)
  have qs: "q * fval s = fval w" using s by (simp add: q_def)
  have q0: "0 \<le> q" using assms(1) s by (simp add: q_def span_ok_def)
  have "pw2 (- 1075) \<le> pw2 (- 80)" by (rule pw2_mono) simp
  then have r: "\<bar>rnd q - q\<bar> \<le> q * (1 / 2 ^ 53) + 1 / 2 ^ 80"
    using rnd_rel_error[of q] q0 by (simp add: power_int_def power_divide)
  have "rnd q \<le> of_int (cells w s)" by (simp add: cells_def q_def)
  then have "q \<le> of_int (cells w s) + q * (1 / 2 ^ 53) + 1 / 2 ^ 80" using r unfolding abs_le_iff by linarith
  then have "q * fval s \<le> (of_int (cells w s) + q * (1 / 2 ^ 53) + 1 / 2 ^ 80) * fval s"
    using s by (intro mult_right_mono) auto
  also have "\<dots> = of_int (cells w s) * fval s + (q * fval s) * (1 / 2 ^ 53) + fval s * (1 / 2 ^ 80)"
    by (simp add: algebra_simps)
  finally have "fval w \<le> of_int (cells w s) * fval s + fval w * (1 / 2 ^ 53) + fval s * (1 / 2 ^ 80)"
    by (simp only: qs)
  moreover have "fval w * (1 / 2 ^ 53) \<le> 1 / 2 ^ 44" using assms(1) by (simp add: span_ok_def)
  moreover have "fval s * (1 / 2 ^ 80) \<le> 1 / 2 ^ 44" using assms(3) by simp
  moreover have "\<bar>rnd d - d\<bar> \<le> 1 / 2 ^ 44"
    using rnd_error_below[of d "- 43"] assms(5) by (simp add: power_int_def power_divide)
  moreover have "(1::rat) / 2 ^ 44 + 1 / 2 ^ 44 + 1 / 2 ^ 44 \<le> 1 / 2 ^ 42" by simp
  ultimately show ?thesis using assms(4) unfolding abs_le_iff by linarith
qed

lemma count_le:
  fixes s :: rat
  assumes "of_nat k * s < of_int m * s + s" "0 < s" shows "int k \<le> m"
proof -
  have "of_nat k * s < (of_int m + 1) * s" using assms(1) by (simp add: distrib_right)
  then have "(of_int (int k) :: rat) < of_int (m + 1)" using assms(2) by simp
  then show ?thesis by (simp only: of_int_less_iff)
qed

lemma step_values_nonempty: "vals \<noteq> [] \<Longrightarrow> step_values n v upper step vals \<noteq> []"
  by (induction n arbitrary: v vals) (auto simp: Let_def)

lemma step_values_first:
  assumes "fle lower (fadd upper (fmul step (f_const (1/1000000000))))" "n \<noteq> 0"
  shows "step_values n lower upper step [] \<noteq> []"
  using assms by (cases n) (auto simp: Let_def step_values_nonempty)

lemma fabs_finite: "finite64 x \<Longrightarrow> finite64 (fabs x) \<and> fval (fabs x) = \<bar>fval x\<bar>"
  by (cases x) (auto simp: fabs_def signbit_def)

lemma rnd_abs_le_pow:
  assumes "\<bar>d\<bar> \<le> 1 / 2 ^ 34" shows "\<bar>rnd d\<bar> \<le> 1 / 2 ^ 34"
proof -
  define t :: rat where "t = 1 / 2 ^ 34"
  have "rnd t = t" using rnd_exact[of 1 "- 34"] by (simp add: power_int_def power_divide t_def)
  moreover from this have "rnd (- t) = - t" by (simp add: rnd_uminus)
  moreover have "- t \<le> d" "d \<le> t" using assms unfolding t_def[symmetric] by linarith+
  ultimately have "- t \<le> rnd d" "rnd d \<le> t" using rnd_bounds[of "- t" t d] by auto
  then show ?thesis unfolding t_def[symmetric] by linarith
qed

lemma steppedValues_ok:
  assumes f: "finite64 lower" "finite64 upper" and b: "\<bar>fval lower\<bar> \<le> 181" "\<bar>fval upper\<bar> \<le> 181" "fval lower \<le> fval upper"
    and s: "step_ok step" "fval step \<le> 1000"
  defines "xs \<equiv> steppedValues lower upper step"
  shows "xs \<noteq> []" "last xs = upper" "int (length xs) \<le> cells (fsub upper lower) step + 1"
    "x \<in> set xs \<Longrightarrow> finite64 x \<and> fval lower \<le> fval x \<and> fval x \<le> fval upper"
    "fval (hd xs) \<le> fval lower + fval step / 500000000"
proof -
  define vals where "vals = step_values 252 lower upper step []"
  define e where "e = fmul step (f_const (1 / 1000000000))"
  note tol = tolerance[OF s, folded e_def]
  have c: "collected lower upper (fval step) vals"
    unfolding vals_def using f(1) by (intro step_values_collected[OF f(2) b(2,1,3) s]) (auto simp: collected_def)
  have lim: "fle lower (fadd upper e)"
  proof -
    have p: "0 \<le> fval e" using tol(2) s(1) by (simp add: step_ok_def)
    have "fval e \<le> 2" using tol(3) s(2) by simp
    then have "finite64 (fadd upper e) \<and> fval (fadd upper e) = rnd (fval upper + fval e)"
      using fadd_finite[OF f(2) tol(1)] b(2) p small_pow[of "fval upper + fval e"] by simp
    moreover have "fval lower \<le> rnd (fval upper + fval e)"
    proof -
      have "\<bar>fval upper + fval e\<bar> \<le> 183" using b(2) p \<open>fval e \<le> 2\<close> by linarith
      then have "\<bar>rnd (fval upper + fval e) - (fval upper + fval e)\<bar> \<le> 1 / 2 ^ 45"
        using rnd_error_below[of "fval upper + fval e" "- 44"] by (simp add: power_int_def power_divide)
      moreover have "1 / 2 ^ 45 \<le> fval e" using tol(2) s(1) by (simp add: step_ok_def)
      ultimately show ?thesis using b(3) unfolding abs_le_iff by linarith
    qed
    ultimately show ?thesis using f(1) by (simp add: fle_finite)
  qed
  have ne: "vals \<noteq> []" unfolding vals_def by (rule step_values_first[OF lim[unfolded e_def]]) simp
  define k where "k = length vals"
  define m where "m = cells (fsub upper lower) step"
  define S where "S = of_nat (k - 1) * fval step"
  have in_ends: "finite64 x \<and> fval lower \<le> fval x \<and> fval x \<le> fval upper" if "x \<in> set vals" for x
    using c that by (auto simp: collected_def)
  have hd: "hd vals = lower" and S: "fval lower + S \<le> fval upper + 2 / 1000000000 * fval step + 1 / 2 ^ 35"
    and last: "fval (last vals) = fval upper \<or> \<bar>fval (last vals) - (fval lower + S)\<bar> \<le> 1 / 2 ^ 35"
    using c ne by (simp_all add: collected_def S_def k_def)
  have d: "\<bar>fval upper - fval lower\<bar> \<le> 362" using b by linarith
  have w: "finite64 (fsub upper lower) \<and> fval (fsub upper lower) = rnd (fval upper - fval lower)"
    using fsub_finite[OF f(2,1)] small_pow d by simp
  then have "span_ok (fsub upper lower)"
    using rnd_int_bounds[of 0 "fval upper - fval lower" 362] d b(3) by (simp add: span_ok_def)
  from cells_cover[OF this s] w d
  have cover: "fval upper - fval lower \<le> of_int m * fval step + 1 / 2 ^ 42" by (simp add: m_def)
  have s0: "9 / 100 \<le> fval step" using s(1) by (simp add: step_ok_def)
  have l: "finite64 (last vals)" "fval lower \<le> fval (last vals)" "fval (last vals) \<le> fval upper"
    using in_ends[of "last vals"] ne by simp_all
  define gap where "gap = fval (last vals) - fval upper"
  have gap: "\<bar>gap\<bar> \<le> 362" "gap \<le> 0" using l(2,3) d unfolding gap_def by linarith+
  have fgap: "finite64 (fsub (last vals) upper) \<and> fval (fsub (last vals) upper) = rnd gap"
    using fsub_finite[OF l(1) f(2)] small_pow[of gap] gap(1) by (simp add: gap_def)
  have far: "fgt (fabs (fsub (last vals) upper)) e \<longleftrightarrow> fval e < \<bar>rnd gap\<bar>"
    using fabs_finite[of "fsub (last vals) upper"] fgap tol(1) by (simp add: flt_finite)
  have xs: "xs = (if fval e < \<bar>rnd gap\<bar> then vals @ [upper] else butlast vals @ [upper])"
    using ne far by (simp add: xs_def steppedValues_def vals_def e_def maxGridPoints_def Let_def)
  show "xs \<noteq> []" "last xs = upper" by (simp_all add: xs)
  show "x \<in> set xs \<Longrightarrow> finite64 x \<and> fval lower \<le> fval x \<and> fval x \<le> fval upper"
    using in_ends f(2) b(3) by (auto simp: xs split: if_splits dest: in_set_butlastD)
  have kS: "of_nat k * fval step = S + fval step"
    using ne by (cases k) (simp_all add: S_def k_def distrib_right)
  show "int (length xs) \<le> cells (fsub upper lower) step + 1"
  proof (cases "fval e < \<bar>rnd gap\<bar>")
    case True
    have "1 / 2 ^ 34 \<le> fval e" using tol(2) s0 by simp
    then have g: "1 / 2 ^ 34 < \<bar>gap\<bar>" using rnd_abs_le_pow[of gap] True by linarith
    then have "fval lower + S \<le> fval upper - 1 / 2 ^ 34 + 1 / 2 ^ 35"
      using last gap(2) unfolding gap_def abs_le_iff by auto
    moreover have "(1::rat) / 2 ^ 35 + 1 / 2 ^ 42 < 1 / 2 ^ 34" by simp
    ultimately have "S < of_int m * fval step" using cover by linarith
    then have "int k \<le> m" using s0 by (intro count_le[of k "fval step"]) (simp_all add: kS)
    then show ?thesis using True by (simp add: xs k_def m_def)
  next
    case False
    have "(1::rat) / 2 ^ 35 + 1 / 2 ^ 42 \<le> 1 / 100" by simp
    then have "S < of_int m * fval step + fval step" using S cover s0 by linarith
    then have "int (k - 1) \<le> m" using s0 by (intro count_le[of "k - 1" "fval step"]) (simp_all add: S_def)
    then show ?thesis using False ne by (simp add: xs k_def m_def)
  qed
  show "fval (hd xs) \<le> fval lower + fval step / 500000000"
  proof (cases "fval e < \<bar>rnd gap\<bar> \<or> 2 \<le> length vals")
    case True
    then have "hd xs = lower" using hd ne by (cases vals) (auto simp: xs)
    then show ?thesis using s0 by simp
  next
    case False
    then obtain v where v: "vals = [v]" using ne by (cases vals) (auto simp: not_le less_Suc_eq)
    then have "fval (hd xs) = fval upper" "gap = fval lower - fval upper" "\<bar>rnd gap\<bar> \<le> fval e"
      using False hd by (simp_all add: xs gap_def)
    moreover have "\<bar>rnd gap - gap\<bar> \<le> 1 / 2 ^ 44"
      using rnd_error_below[of gap "- 43"] gap(1) by (simp add: power_int_def power_divide)
    moreover have "(1::rat) / 2 ^ 44 \<le> 1 / 1000000000000" by simp
    ultimately show ?thesis using tol(3) s0 unfolding abs_le_iff by linarith
  qed
qed

subsection \<open>Rectangles\<close>

lemma chooseGridStep_ok: "step_ok (chooseGridStep x)" "fval (chooseGridStep x) \<le> 1"
proof -
  have "pw2 (- 1075) \<le> pw2 (- 60)" by (rule pw2_mono) simp
  then have "\<bar>rnd (1 / 10) - 1 / 10\<bar> \<le> 1 / 2 ^ 50"
    using rnd_rel_error[of "1 / 10"] by (simp add: power_int_def power_divide)
  moreover have "(1::rat) / 2 ^ 50 \<le> 1 / 100" by simp
  ultimately have "9 / 100 \<le> rnd (1 / 10)" "rnd (1 / 10) \<le> 1" unfolding abs_le_iff by linarith+
  then show "step_ok (chooseGridStep x)" "fval (chooseGridStep x) \<le> 1"
    by (auto simp: chooseGridStep_def step_ok_def f_const_def)
qed

lemma ends_of_grid:
  assumes "lats \<noteq> []" "lons \<noteq> []"
  shows "grid_points lats lons \<noteq> []" "hd (grid_points lats lons) = \<lparr>Lat = hd lats, Lon = hd lons\<rparr>"
    "last (grid_points lats lons) = \<lparr>Lat = last lats, Lon = last lons\<rparr>"
proof -
  show "grid_points lats lons \<noteq> []" using assms by (cases lats; cases lons) (auto simp: grid_points_def)
  show "hd (grid_points lats lons) = \<lparr>Lat = hd lats, Lon = hd lons\<rparr>"
    using assms by (cases lats; cases lons) (auto simp: grid_points_def)
  have "last (grid_points (xs @ [x]) lons) = \<lparr>Lat = x, Lon = last lons\<rparr>" for xs x
    using assms(2) by (cases lons rule: rev_cases) (auto simp: grid_points_def)
  then show "last (grid_points lats lons) = \<lparr>Lat = last lats, Lon = last lons\<rparr>"
    using assms(1) by (cases lats rule: rev_cases) auto
qed

lemma generateGrid_points:
  "generateGrid latMin latMax lonMin lonMax step = grid_points (steppedValues latMin latMax step) (steppedValues lonMin lonMax step)"
  by (simp add: generateGrid_def grid_points_def Let_def)

text \<open>The first point is the south-west corner and the last the north-east one, up to a tolerance of two
  millionths of a degree.\<close>

definition covers :: "rat \<Rightarrow> rat \<Rightarrow> f64 list \<Rightarrow> bool" where
  "covers lo hi xs \<longleftrightarrow> xs \<noteq> [] \<and> fval (hd xs) \<le> lo + 1 / 500000 \<and> hi - 1 / 500000 \<le> fval (last xs)
     \<and> (\<forall>x\<in>set xs. finite64 x \<and> lo \<le> fval x \<and> fval x \<le> hi)"

lemma steppedValues_covers:
  assumes "finite64 lower" "finite64 upper" "\<bar>fval lower\<bar> \<le> 181" "\<bar>fval upper\<bar> \<le> 181" "fval lower \<le> fval upper"
    and "step_ok step" "fval step \<le> 1000"
  shows "covers (fval lower) (fval upper) (steppedValues lower upper step)"
proof -
  note v = steppedValues_ok[OF assms]
  have "fval step / 500000000 \<le> 1 / 500000" using assms(7) by simp
  then have "fval (hd (steppedValues lower upper step)) \<le> fval lower + 1 / 500000" using v(5) by linarith
  then show ?thesis using v(1,2,4) by (auto simp: covers_def)
qed

lemma tiny_span:
  assumes "rnd d = 0" shows "\<bar>d\<bar> \<le> 1 / 500000"
proof -
  have "pw2 (- 1075) \<le> pw2 (- 60)" by (rule pw2_mono) simp
  then have "\<bar>d\<bar> \<le> \<bar>d\<bar> * (1 / 2 ^ 53) + 1 / 2 ^ 60"
    using rnd_rel_error[of d] assms by (simp add: power_int_def power_divide)
  then show ?thesis by simp
qed

lemma expandRectangle_ok:
  fixes rect defines "lat0 \<equiv> min (fval (Lat (SouthWest rect))) (fval (Lat (NorthEast rect)))"
    and "lat1 \<equiv> max (fval (Lat (SouthWest rect))) (fval (Lat (NorthEast rect)))"
    and "lon0 \<equiv> min (fval (Lon (SouthWest rect))) (fval (Lon (NorthEast rect)))"
    and "lon1 \<equiv> max (fval (Lon (SouthWest rect))) (fval (Lon (NorthEast rect)))"
  assumes c: "near_valid slack (SouthWest rect)" "near_valid slack (NorthEast rect)"
  shows "\<exists>lats lons. expandRectangleToGrid oob rect = Some (grid_points lats lons) \<and> covers lat0 lat1 lats \<and> covers lon0 lon1 lons
     \<and> int (length lats * length lons) \<le> maxGridPoints"
proof -
  have sl: "slack \<le> 1" by simp
  define la where "la = fmin (Lat (SouthWest rect)) (Lat (NorthEast rect))"
  define lb where "lb = fmax (Lat (SouthWest rect)) (Lat (NorthEast rect))"
  define oa where "oa = fmin (Lon (SouthWest rect)) (Lon (NorthEast rect))"
  define ob where "ob = fmax (Lon (SouthWest rect)) (Lon (NorthEast rect))"
  from c have f: "finite64 la" "finite64 lb" "finite64 oa" "finite64 ob"
      "fval la = lat0" "fval lb = lat1" "fval oa = lon0" "fval ob = lon1"
    using fmin_finite fmax_finite by (auto simp: la_def lb_def oa_def ob_def near_valid_def lat0_def lat1_def lon0_def lon1_def)
  have b: "\<bar>lat0\<bar> \<le> 181" "\<bar>lat1\<bar> \<le> 181" "\<bar>lon0\<bar> \<le> 181" "\<bar>lon1\<bar> \<le> 181" "lat0 \<le> lat1" "lon0 \<le> lon1"
    using c sl unfolding near_valid_def lat0_def lat1_def lon0_def lon1_def min_def max_def by (auto simp: abs_le_iff)
  define w where "w = fsub lb la"
  define v where "v = fsub ob oa"
  have span: "span_ok (fsub y x) \<and> fval (fsub y x) = rnd (fval y - fval x)"
    if "finite64 x" "finite64 y" "\<bar>fval x\<bar> \<le> 181" "\<bar>fval y\<bar> \<le> 181" "fval x \<le> fval y" for x y
  proof -
    have d: "\<bar>fval y - fval x\<bar> \<le> 362" using that(3,4) by linarith
    then show ?thesis using fsub_finite[OF that(2,1)] small_pow rnd_int_bounds[of 0 "fval y - fval x" 362] that(5)
      by (simp add: span_ok_def)
  qed
  have wv: "span_ok w" "fval w = rnd (lat1 - lat0)" "span_ok v" "fval v = rnd (lon1 - lon0)"
    using span[OF f(1,2)] span[OF f(3,4)] b by (simp_all add: w_def v_def f(5-8))
  have fin: "isFinite w" "isFinite v" using wv by (auto simp: isFinite_def span_ok_def finite64_def)
  have unfold: "expandRectangleToGrid oob rect =
     (if feq w (Fin 0) \<and> feq v (Fin 0) then Some [\<lparr>Lat = la, Lon = oa\<rparr>]
      else Option.bind (coarsen oob maxGridPoints (Fin 2) w v (chooseGridStep (fmin w v)))
        (\<lambda>step. Some (generateGrid la lb oa ob step)))"
    unfolding expandRectangleToGrid_def Let_def la_def[symmetric] lb_def[symmetric] oa_def[symmetric] ob_def[symmetric]
      w_def[symmetric] v_def[symmetric] using fin by simp
  show ?thesis
  proof (cases "feq w (Fin 0) \<and> feq v (Fin 0)")
    case True
    then have "rnd (lat1 - lat0) = 0" "rnd (lon1 - lon0) = 0"
      using wv by (auto simp: feq_finite span_ok_def)
    from this[THEN tiny_span] have "covers lat0 lat1 [la]" "covers lon0 lon1 [oa]"
      using f b by (auto simp: covers_def abs_le_iff)
    then show ?thesis
      using True by (intro exI[of _ "[la]"] exI[of _ "[oa]"]) (simp add: unfold grid_points_def maxGridPoints_def)
  next
    case False
    define s0 where "s0 = chooseGridStep (fmin w v)"
    have s0: "step_ok s0" "fval s0 \<le> 1" by (simp_all add: s0_def chooseGridStep_ok)
    have "(400::rat) \<le> 9 / 100 * (6 / 5) ^ 50" by (simp add: power_divide)
    also have "\<dots> \<le> fval s0 * (6 / 5) ^ 50" using s0(1) by (intro mult_right_mono) (auto simp: step_ok_def)
    finally have "400 \<le> fval s0 * (6 / 5) ^ 50" .
    from coarsen_ends[OF wv(1,3) s0(1) _ _ _ _ this, of "Fin 2" maxGridPoints oob]
    obtain s where s: "coarsen oob maxGridPoints (Fin 2) w v s0 = Some s" "step_ok s" "fval s \<le> 1000"
      "(cells w s + 1) * (cells v s + 1) \<le> maxGridPoints"
      using s0(2) by (auto simp: maxGridPoints_def)
    define lats where "lats = steppedValues la lb s"
    define lons where "lons = steppedValues oa ob s"
    have "covers lat0 lat1 lats" "covers lon0 lon1 lons"
      using steppedValues_covers[OF f(1,2)] steppedValues_covers[OF f(3,4)] b s(2,3)
      by (simp_all add: f(5-8) lats_def lons_def)
    moreover have "int (length lats) \<le> cells w s + 1" "int (length lons) \<le> cells v s + 1"
      using steppedValues_ok(3)[OF f(1,2)] steppedValues_ok(3)[OF f(3,4)] b s(2,3)
      by (simp_all add: f(5-8) lats_def lons_def w_def v_def)
    then have "int (length lats * length lons) \<le> (cells w s + 1) * (cells v s + 1)"
      unfolding of_nat_mult by (intro mult_mono) auto
    moreover have "expandRectangleToGrid oob rect = Some (grid_points lats lons)"
      using False s(1) by (auto simp: unfold s0_def[symmetric] generateGrid_points lats_def lons_def)
    ultimately show ?thesis using s(4) by fastforce
  qed
qed

end
