(* ===== verification/LocationPolygon.thy ===== *)
theory LocationPolygon
  imports LocationSampling
begin

text \<open>
  The sampling of a polygon returns, within its limit, points that are inside under the even-odd rule,
  or vertices. \<open>math.Sqrt\<close> is a parameter: all that is used is that the root of a finite number that
  is not negative is one too.
\<close>

definition sqrt_ok :: "libm \<Rightarrow> bool" where
  "sqrt_ok M \<longleftrightarrow> (\<forall>x. finite64 x \<and> 0 \<le> fval x \<longrightarrow> finite64 (m_sqrt M x) \<and> 0 \<le> fval (m_sqrt M x))"

subsection \<open>The bounding box\<close>

lemma fold_min_max:
  assumes "\<forall>x\<in>set xs. finite64 x \<and> \<bar>fval x\<bar> \<le> B" "finite64 a" "finite64 b" "\<bar>fval a\<bar> \<le> B" "\<bar>fval b\<bar> \<le> B" "fval a \<le> fval b"
  shows "finite64 (foldl fmin a xs) \<and> finite64 (foldl fmax b xs) \<and> \<bar>fval (foldl fmin a xs)\<bar> \<le> B
    \<and> \<bar>fval (foldl fmax b xs)\<bar> \<le> B \<and> fval (foldl fmin a xs) \<le> fval (foldl fmax b xs)"
  using assms
proof (induction xs arbitrary: a b)
  case (Cons x xs)
  have "finite64 (fmin a x) \<and> fval (fmin a x) = min (fval a) (fval x)" "finite64 (fmax b x) \<and> fval (fmax b x) = max (fval b) (fval x)"
    using fmin_finite fmax_finite Cons.prems by auto
  moreover from this have "\<bar>fval (fmin a x)\<bar> \<le> B" "\<bar>fval (fmax b x)\<bar> \<le> B" "fval (fmin a x) \<le> fval (fmax b x)"
    using Cons.prems by (auto simp: min_def max_def)
  ultimately show ?case using Cons.IH[of "fmin a x" "fmax b x"] Cons.prems by auto
qed simp

lemma extent_of_list:
  assumes "xs \<noteq> []" "\<forall>x\<in>set xs. finite64 x \<and> \<bar>fval x\<bar> \<le> 181"
  defines "lo \<equiv> foldl fmin PosInf xs" and "hi \<equiv> foldl fmax NegInf xs"
  shows "finite64 lo" "finite64 hi" "span_ok (fsub hi lo)"
proof -
  obtain y ys where xs: "xs = y # ys" using assms(1) by (cases xs) auto
  have "fmin PosInf y = y" "fmax NegInf y = y"
    using assms(2) by (cases y; simp add: xs fmin_def fmax_def flt_def feq_def is_inf_def)+
  then have "finite64 lo \<and> finite64 hi \<and> \<bar>fval lo\<bar> \<le> 181 \<and> \<bar>fval hi\<bar> \<le> 181 \<and> fval lo \<le> fval hi"
    using fold_min_max[of ys 181 y y] assms(2) by (simp add: xs lo_def hi_def)
  then have f: "finite64 lo" "finite64 hi" "\<bar>fval hi - fval lo\<bar> \<le> 362" "0 \<le> fval hi - fval lo" by auto
  then show "finite64 lo" "finite64 hi" by simp_all
  show "span_ok (fsub hi lo)"
    using fsub_finite[OF f(2,1)] f small_pow rnd_int_bounds[of 0 "fval hi - fval lo" 362] by (simp add: span_ok_def)
qed

text \<open>The least of a list of numbers, and its distance to the greatest as the code computes it.\<close>

definition extent :: "f64 list \<Rightarrow> f64 \<Rightarrow> f64 \<Rightarrow> bool" where
  "extent xs lo w \<longleftrightarrow> lo \<in> set xs \<and>
     (\<exists>hi\<in>set xs. w = fsub hi lo \<and> (\<forall>x\<in>set xs. fval lo \<le> fval x \<and> fval x \<le> fval hi))"

lemma fold_min_max_least:
  assumes "\<forall>x\<in>set (y # xs). finite64 x"
  shows "foldl fmin y xs \<in> set (y # xs) \<and> finite64 (foldl fmin y xs) \<and> (\<forall>x\<in>set (y # xs). fval (foldl fmin y xs) \<le> fval x)"
    "foldl fmax y xs \<in> set (y # xs) \<and> finite64 (foldl fmax y xs) \<and> (\<forall>x\<in>set (y # xs). fval x \<le> fval (foldl fmax y xs))"
  using assms
proof (induction xs arbitrary: y)
  case (Cons x xs)
  {
    case 1
    have "finite64 (fmin y x) \<and> fval (fmin y x) = min (fval y) (fval x)" "fmin y x \<in> {y, x}"
      using fmin_finite 1 by (auto simp: fmin_def)
    then show ?case using Cons.IH(1)[of "fmin y x"] 1 by auto
  next
    case 2
    have "finite64 (fmax y x) \<and> fval (fmax y x) = max (fval y) (fval x)" "fmax y x \<in> {y, x}"
      using fmax_finite 2 by (auto simp: fmax_def)
    then show ?case using Cons.IH(2)[of "fmax y x"] 2 by auto
  }
qed simp_all

lemma extent_of_fold:
  assumes "xs \<noteq> []" "\<forall>x\<in>set xs. finite64 x"
  shows "extent xs (foldl fmin PosInf xs) (fsub (foldl fmax NegInf xs) (foldl fmin PosInf xs))"
proof -
  obtain y ys where xs: "xs = y # ys" using assms(1) by (cases xs) auto
  have "fmin PosInf y = y" "fmax NegInf y = y"
    using assms(2) by (cases y; simp add: xs fmin_def fmax_def flt_def feq_def is_inf_def)+
  then show ?thesis using fold_min_max_least[of y ys] assms(2) unfolding xs extent_def by auto
qed

lemma extent_zero:
  assumes "extent xs lo w" "feq w (Fin 0)" "\<forall>x\<in>set xs. finite64 x \<and> \<bar>fval x\<bar> \<le> 181" "x \<in> set xs"
  shows "\<bar>fval x - fval lo\<bar> \<le> pw2 (- 1074)"
proof -
  obtain hi where hi: "hi \<in> set xs" "w = fsub hi lo" "\<forall>x\<in>set xs. fval lo \<le> fval x \<and> fval x \<le> fval hi" and lo: "lo \<in> set xs"
    using assms(1) by (auto simp: extent_def)
  have f: "finite64 hi" "finite64 lo" "\<bar>fval hi\<bar> \<le> 181" "\<bar>fval lo\<bar> \<le> 181" using assms(3) hi(1) lo by auto
  define d where "d = fval hi - fval lo"
  have "\<bar>d\<bar> \<le> 362" using f(3,4) unfolding d_def by linarith
  then have "finite64 w \<and> fval w = rnd d" using fsub_finite[OF f(1,2)] small_pow[of d] by (simp add: hi(2) d_def)
  then have "rnd d = 0" using assms(2) by (auto simp: feq_finite)
  then have "\<bar>d\<bar> \<le> \<bar>d\<bar> * pw2 (- 53) + pw2 (- 1075)" using rnd_rel_error[of d] by simp
  moreover have "pw2 (- 53) \<le> 1 / 2" using pw2_mono[of "- 53" "- 1"] by (simp add: power_int_minus)
  then have "\<bar>d\<bar> * pw2 (- 53) \<le> \<bar>d\<bar> * (1 / 2)" by (intro mult_left_mono) auto
  moreover have "2 * pw2 (- 1075) = pw2 (- 1074)" using pw2_add[of 1 "- 1075"] by simp
  ultimately have "\<bar>d\<bar> \<le> pw2 (- 1074)" by linarith
  moreover have "0 \<le> fval x - fval lo" "fval x - fval lo \<le> d" using hi(3) assms(4) by (auto simp: d_def)
  ultimately show ?thesis by linarith
qed

subsection \<open>The area\<close>

lemma add_int_bounded:
  assumes "finite64 a" "finite64 x" "\<bar>fval a\<bar> \<le> of_int A" "\<bar>fval x\<bar> \<le> of_int X" "0 \<le> A" "0 \<le> X" "A + X \<le> 2 ^ 53"
  shows "finite64 (fadd a x) \<and> \<bar>fval (fadd a x)\<bar> \<le> of_int (A + X) \<and> (0 \<le> fval a \<and> 0 \<le> fval x \<longrightarrow> 0 \<le> fval (fadd a x))"
proof -
  have b: "\<bar>fval a + fval x\<bar> \<le> of_int (A + X)" using assms(3,4) by simp
  also have "\<dots> \<le> of_int (2 ^ 53)" using assms(7) by (simp only: of_int_le_iff)
  also have "\<dots> \<le> (2::rat) ^ 1000" by simp
  finally have "finite64 (fadd a x) \<and> fval (fadd a x) = rnd (fval a + fval x)" using fadd_finite assms(1,2) by simp
  moreover have "\<bar>rnd (fval a + fval x)\<bar> \<le> of_int (A + X)"
    using rnd_int_bounds[of "- (A + X)" "fval a + fval x" "A + X"] b assms(5-7) by (simp add: abs_le_iff)
  ultimately show ?thesis by (auto intro: rnd_nonneg)
qed

definition coord_ok :: "PointLocation \<Rightarrow> bool" where
  "coord_ok p \<longleftrightarrow> finite64 (Lat p) \<and> finite64 (Lon p) \<and> \<bar>fval (Lat p)\<bar> \<le> 181 \<and> \<bar>fval (Lon p)\<bar> \<le> 181"

lemma coord_ok_near: "near_valid slack p \<Longrightarrow> coord_ok p"
proof -
  have "slack \<le> 1" by simp
  then show "near_valid slack p \<Longrightarrow> coord_ok p" unfolding near_valid_def coord_ok_def by linarith
qed

lemma ring_edges_set:
  assumes "(p, q) \<in> set (ring_edges ring)" shows "p \<in> set ring \<and> q \<in> set ring"
proof (cases "ring = []")
  case False
  then have e: "ring_edges ring = zip ring (last ring # butlast ring)" by (cases ring) (simp_all add: ring_edges_def)
  from assms have "p \<in> set ring" "q \<in> set (last ring # butlast ring)"
    unfolding e by (auto dest: set_zip_leftD set_zip_rightD)
  then show ?thesis using False by (auto dest: in_set_butlastD)
qed (use assms in \<open>simp add: ring_edges_def\<close>)

lemma length_ring_edges: "length (ring_edges ring) = length ring"
  by (cases ring) (auto simp: ring_edges_def)

lemma area_term:
  assumes "coord_ok p" "coord_ok q"
  defines "t \<equiv> fmul (fsub (Lon q) (Lon p)) (fadd (Lat q) (Lat p))"
  shows "finite64 t \<and> \<bar>fval t\<bar> \<le> of_int 131044"
proof -
  have a: "finite64 (fadd (Lat q) (Lat p)) \<and> \<bar>fval (fadd (Lat q) (Lat p))\<bar> \<le> of_int (181 + 181)"
    using add_int_bounded[of "Lat q" "Lat p" 181 181] assms(1,2) by (simp add: coord_ok_def)
  have s: "finite64 (fsub (Lon q) (Lon p)) \<and> \<bar>fval (fsub (Lon q) (Lon p))\<bar> \<le> of_int (181 + 181)"
    using add_int_bounded[of "Lon q" "fneg (Lon p)" 181 181] assms(1,2) by (simp add: coord_ok_def fsub_def)
  define x where "x = fval (fsub (Lon q) (Lon p)) * fval (fadd (Lat q) (Lat p))"
  have "\<bar>x\<bar> \<le> 362 * 362" unfolding x_def abs_mult using a s by (intro mult_mono) auto
  then have "finite64 t \<and> fval t = rnd x" "\<bar>rnd x\<bar> \<le> of_int 131044"
    using fmul_finite[of "fsub (Lon q) (Lon p)" "fadd (Lat q) (Lat p)"] a s small_pow[of x]
      rnd_int_bounds[of "- 131044" x 131044] by (simp_all add: t_def x_def abs_le_iff)
  then show ?thesis by simp
qed

lemma area_sum:
  assumes "\<forall>(p, q)\<in>set es. coord_ok p \<and> coord_ok q" "finite64 a" "\<bar>fval a\<bar> \<le> of_int A" "0 \<le> A"
    and "A + int (length es) * 131044 \<le> 2 ^ 53"
  defines "f \<equiv> foldl (\<lambda>s (pi, pj). fadd s (fmul (fsub (Lon pj) (Lon pi)) (fadd (Lat pj) (Lat pi))))"
  shows "finite64 (f a es) \<and> \<bar>fval (f a es)\<bar> \<le> of_int (A + int (length es) * 131044)"
  using assms(1-5)
proof (induction es arbitrary: a A)
  case (Cons e es)
  obtain p q where e: "e = (p, q)" by (cases e)
  have "coord_ok p" "coord_ok q" using Cons.prems(1) by (auto simp: e)
  note t = area_term[OF this]
  note s = add_int_bounded[OF Cons.prems(2) t[THEN conjunct1] Cons.prems(3) t[THEN conjunct2]]
  have "finite64 (fadd a (fmul (fsub (Lon q) (Lon p)) (fadd (Lat q) (Lat p))))
     \<and> \<bar>fval (fadd a (fmul (fsub (Lon q) (Lon p)) (fadd (Lat q) (Lat p))))\<bar> \<le> of_int (A + 131044)"
    using s Cons.prems(4,5) by simp
  then show ?case using Cons.IH[of "fadd a (fmul (fsub (Lon q) (Lon p)) (fadd (Lat q) (Lat p)))" "A + 131044"] Cons.prems
    by (simp add: f_def e algebra_simps)
qed (simp add: f_def)

lemma ringArea_bounded:
  assumes "\<forall>p\<in>set ring. coord_ok p" "length ring \<le> 5000"
  shows "finite64 (fabs (ringArea ring)) \<and> 0 \<le> fval (fabs (ringArea ring))
    \<and> \<bar>fval (fabs (ringArea ring))\<bar> \<le> of_int (int (length ring) * 131044)"
proof -
  have e: "\<forall>(p, q)\<in>set (ring_edges ring). coord_ok p \<and> coord_ok q" using ring_edges_set assms(1) by fast
  define x where "x = foldl (\<lambda>s (pi, pj). fadd s (fmul (fsub (Lon pj) (Lon pi)) (fadd (Lat pj) (Lat pi)))) (Fin 0) (ring_edges ring)"
  define A where "A = int (length ring) * 131044"
  have A: "0 \<le> A" "A \<le> 5000 * 131044" using assms(2) by (simp_all add: A_def)
  have x: "finite64 x" "\<bar>fval x\<bar> \<le> of_int A"
    using area_sum[OF e, of "Fin 0" 0] A by (simp_all add: x_def A_def length_ring_edges)
  have "\<bar>of_int A :: rat\<bar> \<le> of_int (5000 * 131044)" using A by (simp only: of_int_le_iff flip: of_int_abs)
  then have h: "\<bar>fval x / 2\<bar> \<le> of_int A" "\<bar>fval x / 2\<bar> \<le> 2 ^ 1000"
    using x(2) order_trans[of "\<bar>fval x / 2\<bar>" "of_int (5000 * 131044)" "2 ^ 1000"] A(1) by simp_all
  have "finite64 (ringArea ring) \<and> fval (ringArea ring) = rnd (fval x / 2)"
    using fdiv_finite[of x "Fin 2"] x(1) h(2) by (simp add: ringArea_def x_def)
  moreover have "\<bar>rnd (fval x / 2)\<bar> \<le> of_int A"
    using rnd_int_bounds[of "- A" "fval x / 2" A] h(1) A by (simp add: abs_le_iff)
  ultimately show ?thesis using fabs_finite[of "ringArea ring"] by (simp add: A_def)
qed

lemma total_area:
  assumes "\<forall>r\<in>set rings. \<forall>p\<in>set r. coord_ok p" "finite64 a" "0 \<le> fval a" "\<bar>fval a\<bar> \<le> of_int A" "0 \<le> A"
    and "A + int (length (List.concat rings)) * 131044 \<le> 5000 * 131044"
  shows "finite64 (foldl (\<lambda>a ring. fadd a (fabs (ringArea ring))) a rings)
    \<and> 0 \<le> fval (foldl (\<lambda>a ring. fadd a (fabs (ringArea ring))) a rings)
    \<and> fval (foldl (\<lambda>a ring. fadd a (fabs (ringArea ring))) a rings) \<le> of_int (5000 * 131044)"
  using assms
proof (induction rings arbitrary: a A)
  case Nil
  then have "(of_int A :: rat) \<le> of_int (5000 * 131044)" by (simp only: of_int_le_iff list.map concat.simps list.size)
  then show ?case using Nil by simp
next
  case (Cons r rs)
  have r: "finite64 (fabs (ringArea r))" "0 \<le> fval (fabs (ringArea r))"
    "\<bar>fval (fabs (ringArea r))\<bar> \<le> of_int (int (length r) * 131044)"
    using ringArea_bounded[of r] Cons.prems by auto
  define x where "x = fadd a (fabs (ringArea r))"
  have x: "finite64 x" "0 \<le> fval x" "\<bar>fval x\<bar> \<le> of_int (A + int (length r) * 131044)"
    using add_int_bounded[OF Cons.prems(2) r(1) Cons.prems(4) r(3), folded x_def] Cons.prems(3,5,6) r(2)
    by (auto simp del: of_int_add of_int_mult)
  have "A + int (length r) * 131044 + int (length (List.concat rs)) * 131044 \<le> 5000 * 131044"
    using Cons.prems(6) by (simp add: algebra_simps)
  from Cons.IH[OF _ x _ this] Cons.prems(1,5) show ?case by (simp add: x_def)
qed

subsection \<open>Sampling\<close>

text \<open>A step of the sampling passes: at least the finest one, possibly infinite, never \<open>NaN\<close>.\<close>

definition wide :: "f64 \<Rightarrow> bool" where "wide s \<longleftrightarrow> s = PosInf \<or> step_ok s"

text \<open>A step after \<open>k\<close> widenings.\<close>

definition widened :: "nat \<Rightarrow> f64 \<Rightarrow> bool" where
  "widened k s \<longleftrightarrow> s = PosInf \<or> finite64 s \<and> 9 / 100 * (6 / 5) ^ k \<le> fval s"

lemma widened_0: "widened 0 s \<longleftrightarrow> wide s"
  by (simp add: widened_def wide_def step_ok_def)

lemma widened_wide: "widened k s \<Longrightarrow> wide s"
proof -
  assume w: "widened k s"
  have "9 / 100 \<le> (9 / 100 * (6 / 5) ^ k :: rat)" using one_le_power[of "6 / 5 :: rat" k] by simp
  with w show "wide s" unfolding widened_def wide_def step_ok_def by linarith
qed

lemma widened_Suc:
  assumes "widened k s" "f = PosInf \<or> finite64 f \<and> 5 / 4 \<le> fval f" shows "widened (Suc k) (fmul s f)"
proof (cases "s = PosInf \<or> f = PosInf")
  case True
  have "\<not> signbit s" "\<not> signbit f" "s \<noteq> NaN" "f \<noteq> NaN" "\<not> feq s (Fin 0)" "\<not> feq f (Fin 0)"
    using widened_wide[OF assms(1)] assms(2) by (auto simp: wide_def step_ok_def signbit_def finite64_def feq_def is_inf_def)
  then show ?thesis using True by (auto simp: fmul_def widened_def is_inf_def Let_def)
next
  case False
  define c where "c = (9 / 100 * (6 / 5) ^ k :: rat)"
  have c: "9 / 100 \<le> c" using one_le_power[of "6 / 5 :: rat" k] by (simp add: c_def)
  have s: "finite64 s" "c \<le> fval s" "finite64 f" "5 / 4 \<le> fval f"
    using False assms by (auto simp: widened_def c_def)
  define x where "x = fval s * fval f"
  have x: "c * (5 / 4) \<le> x" unfolding x_def using s c by (intro mult_mono) auto
  have "pw2 (- 1075) \<le> pw2 (- 10)" by (rule pw2_mono) simp
  then have "\<bar>rnd x - x\<bar> \<le> x * (1 / 2 ^ 53) + 1 / 2 ^ 10"
    using rnd_rel_error[of x] x c by (simp add: power_int_def power_divide)
  then have r: "6 / 5 * c \<le> rnd x" using x c by simp
  have "\<not> signbit s" "\<not> signbit f" using s c by (auto simp: signbit_def)
  then have m: "fmul s f = round_to False x" using s by (simp add: fmul_def finite64_def Let_def x_def)
  have "\<not> rnd x \<le> - overflow" "rnd x \<noteq> 0" using r c by (simp_all add: overflow_def)
  then have "round_to False x = PosInf \<or> round_to False x = Fin (rnd x)"
    by (auto simp: round_to_def Let_def)
  then show ?thesis using r by (auto simp: widened_def m c_def)
qed

lemma centredValues_returns:
  assumes "span_ok w" "wide s"
  shows "\<exists>vs. centredValues oob lower w s = Some vs \<and> vs \<noteq> [] \<and> length vs \<le> 4101 \<and> (widened 63 s \<longrightarrow> length vs \<le> 2)"
proof -
  have q: "finite64 (fdiv w s) \<and> 0 \<le> fval (fdiv w s) \<and> fval (fdiv w s) \<le> 4100"
  proof (cases "s = PosInf")
    case True
    then show ?thesis using assms(1) by (auto simp: fdiv_def span_ok_def finite64_def is_inf_def Let_def)
  next
    case False
    then have s: "step_ok s" using assms(2) by (simp add: wide_def)
    note b = cells_bounds(4,5)[OF assms(1) s]
    have "0 \<le> fval w / fval s" using assms(1) s by (auto simp: span_ok_def step_ok_def)
    moreover from this b(2) have "fval w / fval s \<le> 4100" by linarith
    ultimately show ?thesis using b(1) rnd_int_bounds[of 0 "fval w / fval s" 4100] by simp
  qed
  define n where "n = \<lfloor>fval (fdiv w s)\<rfloor>"
  have n: "0 \<le> n" "n \<le> 4100" using q by (auto simp: n_def le_floor_iff floor_le_iff)
  have "to_int64 oob (ffloor (fdiv w s)) = n"
    using rounding_functions_finite(1)[of "fdiv w s"] q n by (intro to_int64_exact) (auto simp: n_def in_int64_def)
  then have "wrap64 (to_int64 oob (ffloor (fdiv w s)) + 1) = n + 1" using n by (simp add: wrap64_id in_int64_def)
  moreover have "n \<le> 1" if "widened 63 s"
  proof -
    have "fval (fdiv w s) \<le> 1"
    proof (cases "s = PosInf")
      case True
      then show ?thesis using assms(1) by (auto simp: fdiv_def span_ok_def finite64_def is_inf_def Let_def)
    next
      case False
      have "(400::rat) \<le> 9 / 100 * (6 / 5) ^ 63" by (simp add: power_divide)
      then have s: "step_ok s" "400 \<le> fval s" using that False assms(2) by (auto simp: widened_def wide_def)
      note b = cells_bounds(4)[OF assms(1) s(1)]
      have "0 \<le> fval w / fval s" "fval w / fval s \<le> 1" using assms(1) s by (auto simp: span_ok_def step_ok_def divide_le_eq)
      then show ?thesis using b rnd_int_bounds[of 0 "fval w / fval s" 1] by simp
    qed
    then show ?thesis by (simp add: n_def floor_le_iff)
  qed
  ultimately show ?thesis using n by (auto simp: centredValues_def Let_def)
qed

lemma sample_points_returns:
  assumes "span_ok w" "span_ok v" "wide s"
  shows "\<exists>pts. sample_points oob rings a w b v s = Some pts \<and> length pts \<le> 4101 * 4101 \<and> (widened 63 s \<longrightarrow> length pts \<le> 4)
    \<and> (\<forall>p\<in>set pts. pointInRings (Lat p) (Lon p) rings)"
proof -
  obtain lats lons where l: "centredValues oob a w s = Some lats" "length lats \<le> 4101" "widened 63 s \<longrightarrow> length lats \<le> 2"
    "centredValues oob b v s = Some lons" "length lons \<le> 4101" "widened 63 s \<longrightarrow> length lons \<le> 2"
    using centredValues_returns[OF assms(1,3)] centredValues_returns[OF assms(2,3)] by metis
  define row where "row = (\<lambda>lat. List.map (\<lambda>lon. \<lparr>Lat = lat, Lon = lon\<rparr>) (filter (\<lambda>lon. pointInRings lat lon rings) lons))"
  have "length (row lat) \<le> length lons" for lat
    using length_filter_le by (simp add: row_def)
  then have n: "length (List.concat (List.map row lats)) \<le> length lats * length lons"
    by (induction lats) (auto intro: add_mono)
  also have "\<dots> \<le> 4101 * 4101" using l(2,5) by (intro mult_le_mono)
  finally have "length (List.concat (List.map row lats)) \<le> 4101 * 4101" .
  moreover have "length (List.concat (List.map row lats)) \<le> 4" if "widened 63 s"
    using n l(3,6) that mult_le_mono[of "length lats" 2 "length lons" 2] by simp
  moreover have "sample_points oob rings a w b v s = Some (List.concat (List.map row lats))"
    using l by (simp add: sample_points_def row_def)
  ultimately show ?thesis by (auto simp: row_def)
qed

lemma widening_factor:
  assumes M: "sqrt_ok M" and n: "n \<le> 4101 * 4101"
  defines "f \<equiv> fmax (Fin (5/4)) (fmul (m_sqrt M (fdiv (f_of_int (int n)) (f_of_int maxGridPoints))) (f_const (105/100)))"
  shows "f = PosInf \<or> finite64 f \<and> 5 / 4 \<le> fval f"
proof -
  have d: "f_of_int (int n) = Fin (of_nat n)" "f_of_int maxGridPoints = Fin 250"
    using n by (simp_all add: f_of_int_exact maxGridPoints_def)
  have nr: "(of_nat n :: rat) \<le> 4101 * 4101" using n by (metis of_nat_le_iff of_nat_mult of_nat_numeral)
  have "finite64 (fdiv (Fin (of_nat n)) (Fin 250)) \<and> fval (fdiv (Fin (of_nat n)) (Fin 250)) = rnd (of_nat n / 250)"
    using fdiv_finite[of "Fin (of_nat n)" "Fin 250"] small_pow[of "of_nat n / 250"] nr by simp
  moreover have "0 \<le> rnd (of_nat n / 250)" by (rule rnd_nonneg) simp
  ultimately have s: "finite64 (m_sqrt M (fdiv (f_of_int (int n)) (f_of_int maxGridPoints)))"
    "0 \<le> fval (m_sqrt M (fdiv (f_of_int (int n)) (f_of_int maxGridPoints)))"
    using M by (auto simp: sqrt_ok_def d)
  define r where "r = m_sqrt M (fdiv (f_of_int (int n)) (f_of_int maxGridPoints))"
  define x where "x = fmul r (f_const (105/100))"
  have c: "0 \<le> rnd (21 / 20)" by (rule rnd_nonneg) simp
  have x: "x = PosInf \<or> finite64 x"
  proof -
    have "x = round_to (signbit r) (fval r * rnd (21 / 20))"
      using s c by (auto simp: x_def r_def[symmetric] fmul_def f_const_def Let_def finite64_def is_inf_def signbit_def)
    moreover have "0 \<le> rnd (fval r * rnd (21 / 20))" using s c by (intro rnd_nonneg) (simp add: r_def)
    ultimately show ?thesis by (auto simp: round_to_def Let_def overflow_def)
  qed
  show ?thesis
  proof (cases "x = PosInf")
    case False
    then show ?thesis using fmax_finite[of "Fin (5/4)" x] x by (simp add: f_def x_def r_def)
  qed (simp add: f_def x_def r_def fmax_def)
qed

text \<open>The passes end within their number: 64 widenings reach a step with at most four points.\<close>

lemma sample_passes_returns:
  assumes M: "sqrt_ok M"
    and sample: "\<And>s. wide s \<Longrightarrow> \<exists>pts. sample s = Some pts \<and> length pts \<le> 4101 * 4101 \<and> (widened 63 s \<longrightarrow> length pts \<le> 4)"
    and "widened k s" "n + k = 64" "0 < n"
  shows "\<exists>pts s'. sample_passes n M sample s pts0 = Some pts \<and> wide s' \<and> sample s' = Some pts \<and> int (length pts) \<le> maxGridPoints"
  using assms(3-)
proof (induction n arbitrary: s k pts0)
  case (Suc n)
  obtain pts where pts: "sample s = Some pts" "length pts \<le> 4101 * 4101" "widened 63 s \<longrightarrow> length pts \<le> 4"
    using sample[OF widened_wide[OF Suc.prems(1)]] by blast
  show ?case
  proof (cases "int (length pts) \<le> maxGridPoints")
    case False
    then have "k \<noteq> 63" using pts(3) Suc.prems(1) by (auto simp: maxGridPoints_def)
    then have "n + Suc k = 64" "0 < n" using Suc.prems(2) by linarith+
    from Suc.IH[OF widened_Suc[OF Suc.prems(1) widening_factor[OF M pts(2)]] this, of pts] show ?thesis
      using False pts(1) by simp
  qed (use pts widened_wide[OF Suc.prems(1)] in auto)
qed simp

text \<open>Every \<open>k\<close>-th vertex, \<open>k\<close> the least stride that leaves at most 250.\<close>

definition thinned :: "'a list \<Rightarrow> 'a list" where
  "thinned ps = nths ps {i. ((length ps + 249) div 250) dvd i}"

lemma multiples_below:
  assumes "n \<le> 250 * k" shows "length (filter (\<lambda>i. i mod k = 0) [0..<n]) \<le> 250"
proof (cases "k = 0")
  case False
  have "length (filter (\<lambda>i. i mod k = 0) [0..<n]) = card {i. i < n \<and> i mod k = 0}"
    unfolding length_filter_conv_card by (rule arg_cong[of _ _ card]) auto
  also have "\<dots> \<le> card {..<250::nat}"
  proof (rule card_inj_on_le)
    show "inj_on (\<lambda>i. i div k) {i. i < n \<and> i mod k = 0}"
      by (auto simp: inj_on_def) (metis dvd_div_mult_self mod_0_imp_dvd)
    show "(\<lambda>i. i div k) ` {i. i < n \<and> i mod k = 0} \<subseteq> {..<250}"
      using assms False by (auto simp: less_mult_imp_div_less)
  qed simp
  finally show ?thesis by simp
qed (use assms in simp)

lemma map_nth_filter: "List.map (\<lambda>i. ps ! i) (filter P [0..<length ps]) = nths ps {i. P i}"
proof -
  have "zip ps [0..<length ps] = List.map (\<lambda>i. (ps ! i, i)) [0..<length ps]"
    by (rule nth_equalityI) auto
  then show ?thesis by (simp add: nths_def filter_map comp_def)
qed

lemma thinVertices_thinned:
  "thinVertices rings (int (length (List.concat rings))) = thinned (List.concat rings)"
  "length (thinned ps) \<le> 250" "ps \<noteq> [] \<Longrightarrow> thinned ps \<noteq> []" for ps :: "'a list"
proof -
  have stride: "nat ((int n + maxGridPoints - 1) div maxGridPoints) = (n + 249) div 250" for n
    by (simp add: maxGridPoints_def nat_div_distrib)
  have le: "n \<le> 250 * ((n + 249) div 250)" for n :: nat by simp
  have t: "thinned ps = List.map (\<lambda>i. ps ! i) (filter (\<lambda>i. i mod ((length ps + 249) div 250) = 0) [0..<length ps])" for ps :: "'b list"
    by (simp add: thinned_def map_nth_filter dvd_eq_mod_eq_0)
  show "length (thinned ps) \<le> 250" unfolding t using multiples_below[OF le] by simp
  show "thinVertices rings (int (length (List.concat rings))) = thinned (List.concat rings)"
    unfolding t using multiples_below[OF le, of "length (List.concat rings)"]
    by (simp only: thinVertices_def Let_def stride) (simp add: maxGridPoints_def)
  assume "ps \<noteq> []"
  then have "0 \<in> set (filter (\<lambda>i. i mod ((length ps + 249) div 250) = 0) [0..<length ps])" by simp
  then show "thinned ps \<noteq> []" unfolding t by (metis empty_iff list.set(1) map_is_Nil_conv)
qed

lemma polygonGridStep_returns:
  assumes M: "sqrt_ok M" and w: "span_ok w" "span_ok v" and a: "finite64 area" "0 \<le> fval area" "fval area \<le> of_int (5000 * 131044)"
  shows "\<exists>s. polygonGridStep M oob w v area k = Some s \<and> step_ok s"
proof -
  define q where "q = fdiv area (f_of_int maxGridPoints)"
  have "fval area / 250 \<le> 2700000" "0 \<le> fval area / 250" using a(2,3) by simp_all
  moreover have "(2700000::rat) \<le> 2 ^ 1000" by simp
  ultimately have "\<bar>fval area / 250\<bar> \<le> 2 ^ 1000" by (simp only: abs_of_nonneg)
  then have "finite64 q \<and> 0 \<le> fval q"
    using fdiv_finite[of area "Fin 250"] a rnd_nonneg[of "fval area / 250"]
    by (simp add: q_def f_of_int_exact maxGridPoints_def)
  then have r: "finite64 (m_sqrt M q)" "0 \<le> fval (m_sqrt M q)" using M by (simp_all add: sqrt_ok_def)
  define s0 where "s0 = fmax (m_sqrt M q) minPolygonGridStep"
  have m: "finite64 minPolygonGridStep" "9 / 100 \<le> fval minPolygonGridStep"
    using chooseGridStep_ok(1)[of NaN] by (simp_all add: minPolygonGridStep_def chooseGridStep_def fle_def flt_def feq_def step_ok_def f_const_def)
  have s0: "step_ok s0" using fmax_finite[OF r(1) m(1)] m(2) by (simp add: s0_def step_ok_def)
  have "(400::rat) \<le> 9 / 100 * (6 / 5) ^ 50" by (simp add: power_divide)
  also have "\<dots> \<le> fval s0 * (6 / 5) ^ 50" using s0 by (intro mult_right_mono) (auto simp: step_ok_def)
  finally have big: "400 \<le> fval s0 * (6 / 5) ^ 50" .
  define cap where "cap = min maxPolygonCandidates (max maxGridPoints (polygonEdgeBudget div max k 1))"
  have "4 \<le> cap" by (simp add: cap_def maxPolygonCandidates_def maxGridPoints_def)
  from coarsen_ends[OF w s0 _ _ _ this big, of "Fin (5/4)" oob]
  show ?thesis unfolding polygonGridStep_def Let_def q_def[symmetric] s0_def[symmetric] cap_def[symmetric] by auto
qed

text \<open>The points inside, in order, of the centred grid of step \<open>s\<close> over the box of all vertices.\<close>

definition grid_inside :: "(f64 \<Rightarrow> int) \<Rightarrow> PointLocation list list \<Rightarrow> f64 \<Rightarrow> PointLocation list \<Rightarrow> bool" where
  "grid_inside oob rings s pts \<longleftrightarrow> wide s \<and> (\<exists>la w oa v lats lons.
     extent (List.map Lat (List.concat rings)) la w \<and> extent (List.map Lon (List.concat rings)) oa v \<and>
     centredValues oob la w s = Some lats \<and> centredValues oob oa v s = Some lons \<and> lats \<noteq> [] \<and> lons \<noteq> [] \<and>
     pts = filter (\<lambda>p. pointInRings (Lat p) (Lon p) rings) (grid_points lats lons))"

lemma sample_points_grid:
  assumes "sample_points oob rings la w oa v s = Some pts" "span_ok w" "span_ok v" "wide s"
    and "extent (List.map Lat (List.concat rings)) la w" "extent (List.map Lon (List.concat rings)) oa v"
  shows "grid_inside oob rings s pts"
proof -
  obtain lats lons where l: "centredValues oob la w s = Some lats" "lats \<noteq> []" "centredValues oob oa v s = Some lons" "lons \<noteq> []"
    using centredValues_returns[OF assms(2,4)] centredValues_returns[OF assms(3,4)] by metis
  moreover from this assms(1) have "pts = filter (\<lambda>p. pointInRings (Lat p) (Lon p) rings) (grid_points lats lons)"
    by (simp add: sample_points_def grid_points_def filter_concat filter_map comp_def)
  ultimately show ?thesis using assms(4-6) unfolding grid_inside_def by blast
qed

lemma grid_inside_points: "grid_inside oob rings s pts \<Longrightarrow> \<forall>p\<in>set pts. pointInRings (Lat p) (Lon p) rings"
  by (auto simp: grid_inside_def)

text \<open>What the expansion of a polygon with a vertex is: the points inside of a grid, or thinned vertices
  when such a grid has none inside, or the one point of a polygon without extent.\<close>

definition polygon_answer :: "(f64 \<Rightarrow> int) \<Rightarrow> PointLocation list list \<Rightarrow> PointLocation list \<Rightarrow> bool" where
  "polygon_answer oob rings pts \<longleftrightarrow>
     (\<exists>s. grid_inside oob rings s pts)
   \<or> (\<exists>s. grid_inside oob rings s []) \<and> pts = thinned (List.concat rings)
   \<or> (\<exists>p. pts = [p] \<and> (\<forall>q\<in>set (List.concat rings).
        \<bar>fval (Lat q) - fval (Lat p)\<bar> \<le> pw2 (- 1074) \<and> \<bar>fval (Lon q) - fval (Lon p)\<bar> \<le> pw2 (- 1074)))"

lemma expandPolygon_ok:
  assumes M: "sqrt_ok M" and p: "\<forall>p\<in>set (List.concat rings). coord_ok p" and n: "int (length (List.concat rings)) \<le> 5000"
    and False: "List.concat rings \<noteq> []"
  shows "\<exists>pts. expandPolygonToGrid M oob rings = Some pts \<and> pts \<noteq> [] \<and> int (length pts) \<le> maxGridPoints \<and> polygon_answer oob rings pts"
proof -
  define ps where "ps = List.concat rings"
  have fold_map: "foldl (\<lambda>a p. g a (h p)) a xs = foldl g a (List.map h xs)" for g a xs and h :: "PointLocation \<Rightarrow> f64"
    by (induction xs arbitrary: a) auto
  define la where "la = foldl fmin PosInf (List.map Lat ps)"
  define lb where "lb = foldl fmax NegInf (List.map Lat ps)"
  define oa where "oa = foldl fmin PosInf (List.map Lon ps)"
  define ob where "ob = foldl fmax NegInf (List.map Lon ps)"
  define area where "area = foldl (\<lambda>a ring. fadd a (fabs (ringArea ring))) (Fin 0) rings"
  have ne: "ps \<noteq> []" using False by (simp add: ps_def)
  have c: "\<forall>x\<in>set (List.map Lat ps). finite64 x \<and> \<bar>fval x\<bar> \<le> 181" "\<forall>x\<in>set (List.map Lon ps). finite64 x \<and> \<bar>fval x\<bar> \<le> 181"
    using p by (auto simp: ps_def coord_ok_def)
  have w: "span_ok (fsub lb la)" "span_ok (fsub ob oa)"
    using extent_of_list(3)[OF _ c(1)] extent_of_list(3)[OF _ c(2)] ne by (simp_all add: la_def lb_def oa_def ob_def)
  have e: "extent (List.map Lat ps) la (fsub lb la)" "extent (List.map Lon ps) oa (fsub ob oa)"
    using extent_of_fold[of "List.map Lat ps"] extent_of_fold[of "List.map Lon ps"] ne c
    unfolding la_def lb_def oa_def ob_def by simp_all
  have area: "finite64 area" "0 \<le> fval area" "fval area \<le> of_int (5000 * 131044)"
    using total_area[of rings "Fin 0" 0] p n by (auto simp: area_def)
  obtain s where s: "polygonGridStep M oob (fsub lb la) (fsub ob oa) area (int (length ps)) = Some s" "step_ok s"
    using polygonGridStep_returns[OF M w area] by blast
  have fin: "isFinite (fsub lb la)" "isFinite (fsub ob oa)" using w by (auto simp: isFinite_def span_ok_def finite64_def)
  define sample where "sample = sample_points oob rings la (fsub lb la) oa (fsub ob oa)"
  have "\<exists>pts. sample s = Some pts \<and> length pts \<le> 4101 * 4101 \<and> (widened 63 s \<longrightarrow> length pts \<le> 4)" if "wide s" for s
    using sample_points_returns[OF w that] unfolding sample_def by blast
  from sample_passes_returns[OF M this, of 0 s 64 "[]"] s(2)
  obtain pts s' where pts: "sample_passes 64 M sample s [] = Some pts" "wide s'" "sample s' = Some pts" "int (length pts) \<le> maxGridPoints"
    by (auto simp: widened_0 wide_def)
  have g: "grid_inside oob rings s' pts" using sample_points_grid[OF _ w pts(2)] pts(3) e by (simp add: sample_def ps_def)
  have x: "expandPolygonToGrid M oob rings =
     (if feq (fsub lb la) (Fin 0) \<and> feq (fsub ob oa) (Fin 0) then Some [\<lparr>Lat = la, Lon = oa\<rparr>]
      else if pts \<noteq> [] \<and> int (length pts) \<le> maxGridPoints then Some pts
      else Some (thinVertices rings (int (length ps))))"
    unfolding expandPolygonToGrid_def Let_def fold_map ps_def[symmetric] la_def[symmetric] lb_def[symmetric]
      oa_def[symmetric] ob_def[symmetric] area_def[symmetric] sample_def[symmetric]
    using ne fin s(1) pts(1) by simp
  consider "feq (fsub lb la) (Fin 0)" "feq (fsub ob oa) (Fin 0)"
    | "\<not> (feq (fsub lb la) (Fin 0) \<and> feq (fsub ob oa) (Fin 0))" "pts \<noteq> []"
    | "\<not> (feq (fsub lb la) (Fin 0) \<and> feq (fsub ob oa) (Fin 0))" "pts = []" by blast
  then show ?thesis
  proof cases
    case 1
    have "\<forall>q\<in>set ps. \<bar>fval (Lat q) - fval la\<bar> \<le> pw2 (- 1074) \<and> \<bar>fval (Lon q) - fval oa\<bar> \<le> pw2 (- 1074)"
      using extent_zero[OF e(1) 1(1) c(1)] extent_zero[OF e(2) 1(2) c(2)] by simp
    then show ?thesis using 1 unfolding x polygon_answer_def ps_def by (auto simp: maxGridPoints_def simp del: set_concat)
  next
    case 2
    then show ?thesis using g pts(4) unfolding x polygon_answer_def by auto
  next
    case 3
    then show ?thesis using g thinVertices_thinned(2,3)[of ps] ne unfolding x polygon_answer_def ps_def
      by (auto simp: thinVertices_thinned(1) maxGridPoints_def)
  qed
qed

lemma expandPolygon_returns:
  assumes "sqrt_ok M" "\<forall>p\<in>set (List.concat rings). coord_ok p" "int (length (List.concat rings)) \<le> 5000"
  shows "\<exists>pts. expandPolygonToGrid M oob rings = Some pts \<and> int (length pts) \<le> maxGridPoints"
proof (cases "List.concat rings = []")
  case True
  then show ?thesis by (simp add: expandPolygonToGrid_def maxGridPoints_def del: concat_eq_Nil_conv)
next
  case False
  then show ?thesis using expandPolygon_ok[OF assms] by blast
qed

end
