(* ===== verification/LocationClaims.thy ===== *)
theory LocationClaims
  imports LocationPolygon
begin

text \<open>
  The properties of the package \<open>location\<close>: what the parsers accept, that every accepted location
  expands to a bounded list, what the expansions cover, and two inputs the parsers get wrong.
\<close>

subsection \<open>Parsed locations are in range\<close>

lemma mk_loc_simps [simp]: "LType (mk_loc t p) = t" "LPayload (mk_loc t p) = p"
  by (simp_all add: mk_loc_def)

lemma point_eta [simp]: "\<lparr>Lat = Lat p, Lon = Lon p\<rparr> = p"
  by (cases p) simp

lemma rectangle_eta [simp]: "\<lparr>NorthEast = NorthEast q, SouthWest = SouthWest q\<rparr> = q"
  by (cases q) simp

lemma prefixed_value_ok:
  assumes r: "registry_ok U r" and p: "prefixed_value U r prefix s = Some (Inr l)"
  shows "location_ok l"
proof -
  consider "prefix = ''point''" | "prefix = ''station''" | "prefix = ''polyline''" | "prefix = ''rectangle''" | "prefix = ''radius''"
    using p by (auto simp: prefixed_value_def split: if_splits)
  then show ?thesis
  proof cases
    case 1
    then obtain ps where ps: "parseCoordinates s = Inr ps" "length ps = 1" "l = mk_loc LocationTypePoint (LPoint (ps ! 0))"
      using p by (auto simp: prefixed_value_def result_simps split: if_splits)
    then have "near_valid slack (ps ! 0)" using parseCoordinates_ok(3)[OF ps(1)] by auto
    then show ?thesis by (simp add: ps(3) location_ok_def)
  next
    case 2
    then obtain pt where "LookupStation r (to_lower U s) = Some pt" "l = mk_loc LocationTypePoint (LPoint pt)"
      using p by (auto simp: prefixed_value_def split: option.splits)
    then show ?thesis using r by (auto simp: registry_ok_def location_ok_def)
  next
    case 3
    then obtain ps where ps: "parseCoordinates (replace_char CHR '';'' CHR ''|'' s) = Inr ps"
      "l = mk_loc LocationTypePolyline (LPolyline \<lparr>Coordinates = ps\<rparr>)"
      using p by (auto simp: prefixed_value_def result_simps)
    then show ?thesis using parseCoordinates_ok[OF ps(1)] by (simp add: location_ok_def)
  next
    case 4
    then show ?thesis using p parseRectangleValue_ok by (auto simp: prefixed_value_def result_simps)
  next
    case 5
    then obtain res where "tryParseRadius U s = Some res" using p by (auto simp: prefixed_value_def split: option.splits)
    then show ?thesis using 5 p tryParseRadius_ok by (auto simp: prefixed_value_def result_simps)
  qed
qed

lemma parsePrefixedLocation_ok:
  assumes "registry_ok U r" "parsePrefixedLocation U r lower original = Some (Inr l)"
  shows "location_ok l"
  using assms(2) prefixed_value_ok[OF assms(1)]
  by (auto simp: parsePrefixedLocation_def split: option.splits if_splits sum.splits)

lemma ParseLocation_ok:
  assumes r: "registry_ok U r" and p: "ParseLocation U r s = Inr l" shows "location_ok l"
proof (cases "has_prefix (to_lower U s) ''bbox:''")
  case True
  then show ?thesis using p parseBbox_ok by (auto simp: ParseLocation_def Let_def result_simps)
next
  case False
  show ?thesis
  proof (cases "parsePrefixedLocation U r (to_lower U s) s")
    case (Some res)
    then show ?thesis using p False parsePrefixedLocation_ok[OF r] by (auto simp: ParseLocation_def Let_def)
  next
    case None
    note unfold = p[unfolded ParseLocation_def Let_def None, simplified False if_False option.case]
    consider "isPredefinedStation r (to_lower U s)"
      | "\<not> isPredefinedStation r (to_lower U s)" "isPredefinedShortcut r (to_lower U s)"
      | "\<not> isPredefinedStation r (to_lower U s)" "\<not> isPredefinedShortcut r (to_lower U s)" by blast
    then show ?thesis
    proof cases
      case 1
      then show ?thesis using unfold r
        by (auto simp: isPredefinedStation_def getLocationFromStationID_def registry_ok_def location_ok_def)
    next
      case 2
      then show ?thesis using unfold r
        by (auto simp: isPredefinedShortcut_def getLocationFromShortcut_def registry_ok_def location_ok_def split: option.splits)
    next
      case 3
      then show ?thesis using unfold tryParseRadius_ok location_of_coords_ok
        by (auto simp: result_simps split: option.splits)
    qed
  qed
qed

lemma near_valid_payload: "near_valid 0 p \<Longrightarrow> near_valid slack p"
  by (erule near_valid_mono) simp

lemma decodeLocationPayload_ok:
  assumes "decodeLocationPayload t raw = Inr p" shows "location_ok (mk_loc t p)"
  using assms
  by (auto simp: decodeLocationPayload_def checked_def check_radius_payload_def result_simps location_ok_def
      location_type_defs MaxPolylinePoints_def intro!: near_valid_payload[simplified] split: option.splits if_splits)

lemmas unmarshal_cases = Location_UnmarshalJSON_def result_simps mk_loc_def

text \<open>C14. Whatever the JSON decoder accepts - a string of the query grammar or a structured object - is
  a location whose payload is the one its type names, with coordinates in range up to a rounding
  slack of 2^-40 degree, at most 2000 points, at most 5000 polygon vertices, a radius in (0, 200] and a
  box with south below north and west below east, provided the configuration registered such values.\<close>

theorem Location_UnmarshalJSON_ok:
  assumes "registry_ok U r" "Location_UnmarshalJSON U r j = Inr l"
  shows "location_ok l"
  using assms(2) ParseLocation_ok[OF assms(1)] decodeLocationPayload_ok
  by (auto simp: unmarshal_cases split: json.splits)

definition no_locations :: location_registry where
  "no_locations = \<lparr>LocationShortcutsMap = (\<lambda>_. None), StationMap = (\<lambda>_. None), ActiveShapeProvider = None\<rparr>"

lemma no_locations_ok: "registry_ok U no_locations"
  by (simp add: registry_ok_def no_locations_def LookupStation_def LookupLocationShortcut_def
      tryPolygonFromShortcut_def active_shape_provider_def shape_Lookup_def)

definition radius_json :: json where "radius_json = JStr ''10,20|30.5''"

definition radius_location :: Location where
  "radius_location = mk_loc LocationTypeRadius (LRadius \<lparr>rad_Lat = Fin 10, rad_Lon = Fin 20, rad_Radius = Fin (61/2)\<rparr>)"

lemma radius_json_decoded: "Location_UnmarshalJSON ascii_only no_locations radius_json = Inr radius_location"
  by code_simp

lemma Location_UnmarshalJSON_ok_witness: "location_ok radius_location"
  by (rule Location_UnmarshalJSON_ok[OF no_locations_ok radius_json_decoded])

subsection \<open>Expansion\<close>

lemma expandRadius_bounded:
  assumes "finite64 (rad_Radius p)" "0 < fval (rad_Radius p)" "fval (rad_Radius p) \<le> 200"
  shows "1 \<le> length (expandRadius M oob p) \<and> length (expandRadius M oob p) \<le> 6834"
proof -
  note r = expandRadius_rings(1)[OF assms, of M oob] expandRadius_rings(2)[OF assms]
  have "0 \<le> \<lfloor>fval (rad_Radius p)\<rfloor>" using assms(2) by simp
  then have "1 \<le> ring_count p" unfolding ring_count_def by linarith
  then have "ring_total 1 \<le> ring_total (ring_count p)" "ring_total (ring_count p) \<le> ring_total 67"
    using r(2) by (blast intro: ring_total_mono)+
  moreover have "ring_total 1 = 3" by (simp add: ring_total_def)
  ultimately show ?thesis using r(1) by (simp add: length_all_rings ring_total_67)
qed

lemma location_expands:
  assumes l: "location_ok l" and M: "sqrt_ok M"
  shows "\<exists>ps. ExpandLocations M oob l = Some ps \<and> int (length ps) \<le> 6834
    \<and> (LType l = LocationTypeRectangle \<or> LType l = LocationTypePolygon \<longrightarrow> int (length ps) \<le> maxGridPoints)
    \<and> (LType l = LocationTypePointList \<or> LType l = LocationTypePolyline \<longrightarrow> int (length ps) \<le> MaxPolylinePoints)
    \<and> (LType l \<notin> {LocationTypePointList, LocationTypePolyline, LocationTypePolygon} \<longrightarrow> ps \<noteq> [])"
proof (cases "LPayload l")
  case (LRectangle q)
  then have c: "near_valid slack (SouthWest q)" "near_valid slack (NorthEast q)" "LType l = LocationTypeRectangle"
    using l by (auto simp: location_ok_def)
  obtain lats lons where g: "expandRectangleToGrid oob q = Some (grid_points lats lons)" "lats \<noteq> []" "lons \<noteq> []"
    "int (length lats * length lons) \<le> maxGridPoints"
    using expandRectangle_ok[OF c(1,2), of oob] unfolding covers_def by blast
  then have "int (length (grid_points lats lons)) \<le> 250" by (simp add: maxGridPoints_def)
  then show ?thesis using g(1) LRectangle c(3) ends_of_grid(1)[OF g(2,3)]
    by (simp add: ExpandLocations_def location_type_defs maxGridPoints_def del: length_grid_points)
next
  case (LPolygon q)
  then have c: "\<forall>x\<in>set (List.concat (Rings q)). coord_ok x" "int (length (List.concat (Rings q))) \<le> 5000" "LType l = LocationTypePolygon"
    using l coord_ok_near by (auto simp: location_ok_def MaxPolygonVertices_def simp del: set_concat)
  obtain pts where "expandPolygonToGrid M oob (Rings q) = Some pts" "int (length pts) \<le> maxGridPoints"
    using expandPolygon_returns[OF M c(1,2)] by blast
  then show ?thesis using LPolygon c(3) by (simp add: ExpandLocations_def location_type_defs maxGridPoints_def)
next
  case (LRadius q)
  then show ?thesis using l expandRadius_bounded[of q M oob]
    by (auto simp: location_ok_def ExpandLocations_def location_type_defs)
qed (use l in \<open>auto simp: location_ok_def ExpandLocations_def location_type_defs MaxPolylinePoints_def\<close>)

text \<open>C15. Every location the JSON decoder accepts expands: the call returns (no coarsening or sampling
  loop runs forever, no slice has a negative length) at most 6834 points, so the ceiling of 7000 never
  truncates a circle; at most 250 points for a rectangle or a polygon, at most 2000 for a list, and at
  least one for a point, rectangle, radius or box. All that is used of \<open>math.Sqrt\<close> is that the root of
  a finite number that is not negative is one too.\<close>

theorem decoded_location_expands:
  assumes "registry_ok U r" "Location_UnmarshalJSON U r j = Inr l" "sqrt_ok M"
  shows "\<exists>ps. ExpandLocations M oob l = Some ps \<and> int (length ps) < MaxExpandedRadiusPoints
    \<and> (LType l = LocationTypeRectangle \<or> LType l = LocationTypePolygon \<longrightarrow> int (length ps) \<le> maxGridPoints)
    \<and> (LType l = LocationTypePointList \<or> LType l = LocationTypePolyline \<longrightarrow> int (length ps) \<le> MaxPolylinePoints)
    \<and> (LType l \<notin> {LocationTypePointList, LocationTypePolyline, LocationTypePolygon} \<longrightarrow> ps \<noteq> [])"
proof -
  have "location_ok l"
    using assms(2) ParseLocation_ok[OF assms(1)] decodeLocationPayload_ok by (auto simp: unmarshal_cases split: json.splits)
  from location_expands[OF this assms(3), of oob] show ?thesis by (auto simp: MaxExpandedRadiusPoints_def)
qed

text \<open>An instance of the parameter for concrete inputs, not the functions of \<open>math\<close>.\<close>

definition sample_libm :: libm where
  "sample_libm = \<lparr>m_sin = (\<lambda>x. x), m_cos = (\<lambda>x. x), m_asin = (\<lambda>x. x), m_atan2 = (\<lambda>y x. y), m_sqrt = (\<lambda>x. x)\<rparr>"

lemma sample_libm_ok: "sqrt_ok sample_libm"
  by (simp add: sqrt_ok_def sample_libm_def)

lemma decoded_location_expands_witness:
  "\<exists>ps. ExpandLocations sample_libm amd64_oob radius_location = Some ps \<and> int (length ps) < MaxExpandedRadiusPoints \<and> ps \<noteq> []"
  using decoded_location_expands[OF no_locations_ok radius_json_decoded sample_libm_ok, of amd64_oob]
  by (auto simp: radius_location_def location_type_defs)

text \<open>C18. A radius of 3 to 200 km expands to every one of its rings, ring \<open>k\<close> of 3+k points at \<open>k\<close> km, in
  order, 3n(n+1)/2 points in all for n rings: the loop never stops on the ceiling of points. A shorter
  radius is its centre.\<close>

theorem radius_rings_complete:
  assumes "validateRadius (rad_Radius rad) = Inr ()"
  shows "ExpandLocations M oob (mk_loc LocationTypeRadius (LRadius rad)) = Some (
     if fval (rad_Radius rad) < 3 then [\<lparr>Lat = rad_Lat rad, Lon = rad_Lon rad\<rparr>]
     else List.concat (List.map (\<lambda>j. radius_ring M rad (3 * int j)) [0..<ring_count rad]))
   \<and> length (expandRadius M oob rad) =
       (if fval (rad_Radius rad) < 3 then 1 else 3 * ring_count rad * (ring_count rad + 1) div 2)"
proof -
  from assms have r: "finite64 (rad_Radius rad)" "0 < fval (rad_Radius rad)" "fval (rad_Radius rad) \<le> 200"
    by (auto simp: result_simps)
  show ?thesis
    using expandRadius_rings(1)[OF r, of M oob] length_all_rings[of M rad "ring_count rad"]
    by (simp add: ExpandLocations_def location_type_defs all_rings_def ring_total_def)
qed

lemma radius_rings_complete_witness:
  "length (expandRadius sample_libm amd64_oob \<lparr>rad_Lat = Fin 10, rad_Lon = Fin 20, rad_Radius = Fin 200\<rparr>) = 6834"
  using radius_rings_complete[of "\<lparr>rad_Lat = Fin 10, rad_Lon = Fin 20, rad_Radius = Fin 200\<rparr>" sample_libm amd64_oob]
  by (simp add: result_simps ring_count_def)

text \<open>C16. A rectangle expands to a full grid of at most 250 points, inside the rectangle, whose first point
  is the south-west corner and whose last is the north-east corner, each up to two millionths of a
  degree, whichever way round the corners were given.\<close>

theorem rectangle_grid_covers:
  assumes "near_valid slack (SouthWest q)" "near_valid slack (NorthEast q)"
  shows "\<exists>lats lons. ExpandLocations M oob (mk_loc LocationTypeRectangle (LRectangle q)) = Some (grid_points lats lons)
    \<and> int (length lats * length lons) \<le> maxGridPoints
    \<and> covers (min (fval (Lat (SouthWest q))) (fval (Lat (NorthEast q)))) (max (fval (Lat (SouthWest q))) (fval (Lat (NorthEast q)))) lats
    \<and> covers (min (fval (Lon (SouthWest q))) (fval (Lon (NorthEast q)))) (max (fval (Lon (SouthWest q))) (fval (Lon (NorthEast q)))) lons"
proof -
  have "ExpandLocations M oob (mk_loc LocationTypeRectangle (LRectangle q)) = expandRectangleToGrid oob q"
    by (simp add: ExpandLocations_def)
  then show ?thesis using expandRectangle_ok[OF assms, of oob] by (simp only:) blast
qed

lemma rectangle_grid_covers_witness:
  "\<exists>lats lons. ExpandLocations sample_libm amd64_oob (mk_loc LocationTypeRectangle
      (LRectangle \<lparr>NorthEast = \<lparr>Lat = Fin 2, Lon = Fin 3\<rparr>, SouthWest = \<lparr>Lat = Fin 1, Lon = Fin 1\<rparr>\<rparr>)) = Some (grid_points lats lons)
    \<and> covers 1 2 lats \<and> covers 1 3 lons"
  using rectangle_grid_covers[of "\<lparr>NorthEast = \<lparr>Lat = Fin 2, Lon = Fin 3\<rparr>, SouthWest = \<lparr>Lat = Fin 1, Lon = Fin 1\<rparr>\<rparr>" sample_libm amd64_oob]
  by (simp add: near_valid_def) blast




text \<open>C19. The checked expansion of a validated box at a density of 1 to 100 points per degree: rows and
  columns are one more than the rounded spans times the density; when their product exceeds the
  caller's limit the call is refused before any allocation, otherwise it is the full grid of rows times
  columns points, row by row. Row i of the rows lies at the fraction i / (rows - 1) of the way from the
  north edge to the south edge, column j at j / (cols - 1) of the way from the west edge to the east
  edge, each up to 2^-40 degree: the first row and column are the north and west edges, the last the
  south and east edges, and the steps between are equal.\<close>

theorem bbox_grid_exact:
  assumes "validateBbox b = Inr ()" "1 \<le> ppd" "ppd \<le> MaxPointsPerDegree" "0 < m" "m \<le> MaxBboxGridPoints"
  defines "rows \<equiv> bbox_dim (South b) (North b) (of_int ppd)" and "cols \<equiv> bbox_dim (West b) (East b) (of_int ppd)"
  shows "if rows * cols > m then ExpandBboxToGridChecked oob b ppd m = Inl GridTooLarge
     else \<exists>ps. ExpandBboxToGridChecked oob b ppd m = Inr (ps, rows, cols)
       \<and> grid_of_box b rows cols ps \<and> int (length ps) = rows * cols"
  using checked_grid[OF assms(1,2) _ assms(4,5), of oob] assms(3) by (simp add: rows_def cols_def MaxPointsPerDegree_def)

definition small_box :: BboxLocation where
  "small_box = \<lparr>West = Fin 10, South = Fin 50, East = Fin 12, North = Fin 51, Density = 0\<rparr>"

lemma small_box_valid: "validateBbox small_box = Inr ()"
  by code_simp

lemma bbox_grid_exact_witness:
  "(\<exists>ps. ExpandBboxToGridChecked amd64_oob small_box 2 100 = Inr (ps, 3, 5) \<and> length ps = 15)
   \<and> ExpandBboxToGridChecked amd64_oob small_box 2 14 = Inl GridTooLarge"
proof -
  have "bbox_dim (South small_box) (North small_box) 2 = 3" "bbox_dim (West small_box) (East small_box) 2 = 5"
    by code_simp+
  then show ?thesis
    using bbox_grid_exact[OF small_box_valid, of 2 100 amd64_oob] bbox_grid_exact[OF small_box_valid, of 2 14 amd64_oob]
    by (auto simp: MaxPointsPerDegree_def MaxBboxGridPoints_def)
qed

text \<open>C20. The deprecated expansion of a validated box makes progress for every density an int can hold
  that is not negative: its halving loop reaches a grid that fits, so it returns a non-empty full grid
  of at most a million points and its own dimensions, never the empty answer and never a panic.\<close>

theorem deprecated_grid_progress:
  assumes "validateBbox b = Inr ()" "0 \<le> ppd" "in_int64 ppd"
  shows "\<exists>ps rows cols. ExpandBboxToGrid oob b ppd = Some (ps, rows, cols) \<and> 1 \<le> rows \<and> 1 \<le> cols
     \<and> rows * cols \<le> MaxBboxGridPoints \<and> int (length ps) = rows * cols \<and> grid_of_box b rows cols ps"
  by (rule deprecated_grid[OF assms])

lemma deprecated_grid_progress_witness:
  "\<exists>ps rows cols. ExpandBboxToGrid amd64_oob small_box 9223372036854775807 = Some (ps, rows, cols) \<and> 1 \<le> rows \<and> 1 \<le> cols"
  using deprecated_grid_progress[OF small_box_valid, of 9223372036854775807 amd64_oob] by (auto simp: in_int64_def)

subsection \<open>Two inputs the parsers get wrong\<close>

lemma of_option_Inl: "of_option e x = Inl e' \<longleftrightarrow> x = None \<and> e' = e"
  by (cases x) auto

lemmas no_panic_simps = bind_res_eq_Inl of_option_Inl parse_num_def validateLatLon_def validateRadius_def generatePoints_def

lemma parse_part_no_panic: "parse_part whole part \<noteq> Inl GoPanic"
  by (auto simp: parse_part_def parse_pair_def parse_segment_def no_panic_simps split: list.splits option.splits if_splits)

lemma parse_parts_no_panic: "parse_parts whole parts coords \<noteq> Inl GoPanic"
  by (induction parts arbitrary: coords) (auto simp: bind_res_eq_Inl parse_part_no_panic Let_def)

lemma parse_nums_no_panic: "parse_nums U ps \<noteq> Inl GoPanic"
  by (induction ps) (auto simp: bind_res_eq_Inl of_option_Inl parse_num_def)

lemma coordinates_no_panic: "parseCoordinates s \<noteq> Inl GoPanic"
  by (simp add: parseCoordinates_def parse_parts_no_panic)

lemma values_no_panic:
  "parseRectangleValue U s \<noteq> Inl GoPanic" "tryParseRadius U s \<noteq> Some (Inl GoPanic)" "parseBbox U s \<noteq> Inl GoPanic"
  by (auto simp: parseRectangleValue_def tryParseRadius_def parseBbox_def validateBbox_def Let_def no_panic_simps
      coordinates_no_panic parse_nums_no_panic split: list.splits if_splits)

lemma prefixed_value_no_panic: "prefixed_value U r p s \<noteq> Some (Inl GoPanic)"
  by (auto simp: prefixed_value_def bind_res_eq_Inl coordinates_no_panic values_no_panic split: option.splits)

lemma cut_at_length: "cut_at c s = Some (p, q) \<Longrightarrow> length p + 1 \<le> length s"
  by (auto simp: cut_at_Some)

text \<open>The parser slices the caller's string at a position found in its lower-cased copy. It panics
  only when lower-casing lengthens the string, so never on an ASCII string; but it does panic on the
  three bytes of "\<open>U+023A\<close>:", whose lower-case form is one byte longer.\<close>

lemma ParseLocation_panics:
  "(ParseLocation U r s = Inl GoPanic \<longrightarrow> length s < length (to_lower U s))
   \<and> (list_all is_ascii s \<longrightarrow> ParseLocation U r s \<noteq> Inl GoPanic)
   \<and> (uni_lower U [CHR 0xC8, CHR 0xBA, CHR '':''] = [CHR 0xE2, CHR 0xB1, CHR 0xA5, CHR '':'']
       \<longrightarrow> ParseLocation U r [CHR 0xC8, CHR 0xBA, CHR '':''] = Inl GoPanic)"
proof (intro conjI impI)
  show len: "length s < length (to_lower U s)" if p: "ParseLocation U r s = Inl GoPanic" for s
  proof (cases "has_prefix (to_lower U s) ''bbox:''")
    case True
    then have "slice_from 5 s = Inl GoPanic"
      using p values_no_panic(3) by (auto simp: ParseLocation_def Let_def bind_res_eq_Inl)
    moreover have "5 \<le> length (to_lower U s)" using True by (auto simp: has_prefix_iff)
    ultimately show ?thesis by (simp add: slice_from_def split: if_splits)
  next
    case False
    have "parsePrefixedLocation U r (to_lower U s) s = Some (Inl GoPanic)"
      using p False coordinates_no_panic values_no_panic(2)
      by (auto simp: ParseLocation_def Let_def bind_res_eq_Inl split: option.splits if_splits)
    then obtain p q where "cut_at CHR '':'' (to_lower U s) = Some (p, q)" "slice_from (length p + 1) s = Inl GoPanic"
      using prefixed_value_no_panic by (auto simp: parsePrefixedLocation_def split: option.splits if_splits sum.splits)
    then show ?thesis using cut_at_length by (fastforce simp: slice_from_def split: if_splits)
  qed
  show "ParseLocation U r s \<noteq> Inl GoPanic" if "list_all is_ascii s"
    using len[of s] that by (auto simp: to_lower_def)
  show "ParseLocation U r [CHR 0xC8, CHR 0xBA, CHR '':''] = Inl GoPanic"
    if "uni_lower U [CHR 0xC8, CHR 0xBA, CHR '':''] = [CHR 0xE2, CHR 0xB1, CHR 0xA5, CHR '':'']"
  proof -
    have "to_lower U [CHR 0xC8, CHR 0xBA, CHR '':''] = [CHR 0xE2, CHR 0xB1, CHR 0xA5, CHR '':'']"
      using that by (simp add: to_lower_def is_ascii_def)
    then show ?thesis
      by (simp add: ParseLocation_def Let_def parsePrefixedLocation_def slice_from_def)
  qed
qed

definition latin_unicode :: unicode where
  "latin_unicode = ascii_only\<lparr>uni_lower := (\<lambda>s. if s = [CHR 0xC8, CHR 0xBA, CHR '':'']
     then [CHR 0xE2, CHR 0xB1, CHR 0xA5, CHR '':''] else s)\<rparr>"

lemma ParseLocation_panics_witness:
  "ParseLocation latin_unicode no_locations [CHR 0xC8, CHR 0xBA, CHR '':''] = Inl GoPanic
   \<and> ParseLocation latin_unicode no_locations ''nowhere'' \<noteq> Inl GoPanic"
  using ParseLocation_panics[of latin_unicode no_locations "''nowhere''"]
  by (simp add: latin_unicode_def is_ascii_def)

lemma pole_values:
  "split_on CHR ''|'' ''-89.9,0,90,0,6'' = [''-89.9,0,90,0,6'']"
  "split_on CHR '','' ''-89.9,0,90,0,6'' = [''-89.9'', ''0'', ''90'', ''0'', ''6'']"
  "parse_num ''-89.9'' = Inr (Fin (- (3163075050785997 / 35184372088832)))" "parse_num ''0'' = Inr (Fin 0)"
  "parse_num ''90'' = Inr (Fin 90)" "atoi ''6'' = Some 6"
  "fdiv (fsub (Fin 90) (Fin (- (3163075050785997 / 35184372088832)))) (f_of_int 5) = Fin (2531867415512351 / 70368744177664)"
  "fdiv (fsub (Fin 0) (Fin 0)) (f_of_int 5) = Fin 0"
  "fadd (Fin (- (3163075050785997 / 35184372088832))) (fmul (f_of_int 5) (Fin (2531867415512351 / 70368744177664)))
     = Fin (3166593487994881 / 35184372088832)"
  "fadd (Fin 0) (fmul (f_of_int 5) (Fin 0)) = Fin 0"
  "validateLatLon (Fin (- (3163075050785997 / 35184372088832))) (Fin 0) = Inr ()" "validateLatLon (Fin 90) (Fin 0) = Inr ()"
  "validateLatLon (Fin (3166593487994881 / 35184372088832)) (Fin 0)
     = Inl (LatitudeOutOfRange (Fin (3166593487994881 / 35184372088832)))"
  by code_simp+

text \<open>The generated points of a five-value segment stay in range up to the rounding slack, but not
  exactly: the segment from -89.9 to the pole in six points ends beyond it, at a latitude its own
  validation refuses.\<close>

lemma generated_points_slack:
  "(parseCoordinates s = Inr ps \<longrightarrow> (\<forall>p\<in>set ps. near_valid slack p))
   \<and> (\<exists>ps. parseCoordinates ''-89.9,0,90,0,6'' = Inr ps \<and> length ps = 6
        \<and> validateLatLon (Lat (last ps)) (Lon (last ps)) = Inl (LatitudeOutOfRange (Lat (last ps))))"
proof
  show "parseCoordinates s = Inr ps \<longrightarrow> (\<forall>p\<in>set ps. near_valid slack p)"
    using parseCoordinates_ok(3) by blast
  show "\<exists>ps. parseCoordinates ''-89.9,0,90,0,6'' = Inr ps \<and> length ps = 6
        \<and> validateLatLon (Lat (last ps)) (Lon (last ps)) = Inl (LatitudeOutOfRange (Lat (last ps)))"
    by (simp add: parseCoordinates_def pole_values parse_part_def parse_segment_def MaxPolylinePoints_def
        generatePoints_def Let_def last_map)
qed

lemma generated_points_slack_witness:
  "near_valid slack \<lparr>Lat = Fin 1, Lon = Fin 2\<rparr> \<and> (\<exists>ps. parseCoordinates ''-89.9,0,90,0,6'' = Inr ps \<and> length ps = 6)"
proof -
  have "parseCoordinates ''1,2'' = Inr [\<lparr>Lat = Fin 1, Lon = Fin 2\<rparr>]" by code_simp
  then show ?thesis using generated_points_slack[of "''1,2''" "[\<lparr>Lat = Fin 1, Lon = Fin 2\<rparr>]"] by auto
qed

end
