(* ===== verification/Spec2Isabelle.thy ===== *)
theory Spec2Isabelle
  imports Observation ObservabilityCorrect ChartMarks ChartRaster ChartSamples PgxRefinement TimeStepping TimeParsing AdminApi LocationClaims
begin

text \<open>
  A verification library of the Atmosoar API libraries: the Go packages under \<open>src/\<close> that the weather
  services share to parse requests, guard and answer them, keep runtime configuration and draw charts.

  \<^bold>\<open>The standard library.\<close> \<open>GoPrelude\<close> has Go's 64-bit integers (\<open>int\<close> with the wrap-around \<open>wrap64\<close> written
  out), strings as byte lists and results as sums (\<open>Inl\<close> the error). \<open>GoFloat\<close> is IEEE binary64: a finite
  number is its rational value, every operation rounds the exact result to nearest, ties to even, and
  never fuses a multiplication with an addition. \<open>GoJson\<close> is JSON by its syntax tree with the decoding
  rules of \<open>encoding/json\<close>; \<open>GoTime\<close>, \<open>GoRFC3339\<close> and \<open>GoFormat\<close> are the instants, the calendar and the
  formats; \<open>GoUrl\<close> is the part of \<open>net/url\<close> in use. \<open>GoRegistry\<close> is the interface of the name registries, a locale interpreted on each of them.

  \<^bold>\<open>Time parameters\<close> (\<open>src/time/time.go\<close>). \<open>TimeRange\<close> has the payloads, the registries and every parser and
  decoder, \<open>TimeStepping\<close> and \<open>TimeParsing\<close> their correctness: typing of what is accepted, the exact
  stepping, the cap on expansions with the coarsening, the round trip of ISO-8601 durations.

  \<^bold>\<open>Locations\<close> (\<open>src/location/location.go\<close>, \<open>src/shapefile/provider.go\<close>). \<open>Shapefile\<close> decodes the country
  polygons, \<open>Location\<close> parses and \<open>LocationExpand\<close> expands. \<open>LocationCorrect\<close>, \<open>LocationGrid\<close>,
  \<open>LocationSampling\<close> and \<open>LocationPolygon\<close> hold the lemmas on parsers, rings and grids, sampling loops and
  polygons; \<open>LocationClaims\<close> the properties: accepted locations are in range and always expand, within
  the limit of their type.

  \<^bold>\<open>Requests.\<close> \<open>HttpUtils\<close> (\<open>src/httputils\<close>) is the error envelope over a request context; \<open>ClaimsAuth\<close>
  (\<open>src/claims\<close>) the gateway-trust headers as middlewares on that context.

  \<^bold>\<open>Runtime configuration\<close> (\<open>src/runtimeconfig\<close>). \<open>RuntimeConfig\<close> is the registry and the validation gate,
  with the store contract as the locale \<open>config_store\<close>, interpreted on \<open>MemStore\<close>; \<open>RuntimeManager\<close> the
  manager as a state machine whose histories are the inductive predicate \<open>history\<close>; \<open>RuntimeCorrect\<close> and
  \<open>RuntimeReads\<close> its invariants (the live overlay is valid and is what a restart would load) and its
  reads. \<open>PgxStore\<close> (\<open>src/runtimeconfig/pgxstore\<close>) is the Postgres store over a driver that is a parameter;
  \<open>PgxRefinement\<close> shows that a manager over it refines the one over \<open>MemStore\<close>.

  \<^bold>\<open>Administration\<close> (\<open>src/admin\<close>). \<open>AdminFlags\<close> is the flag set over its own store, \<open>AdminApi\<close> the handlers
  behind the two guards of \<open>ClaimsAuth\<close>, composed with the manager and the flags.

  \<^bold>\<open>Observations\<close> (\<open>src/observation\<close>). \<open>Observation\<close> is the reading, its fields as pairs of a reader and a
  writer, and the plausibility check.

  \<^bold>\<open>Observability\<close> (\<open>src/observability\<close>). \<open>Observability\<close> is the redaction of URLs, the metrics and the
  tracing middleware as the calls they make, and the configuration; \<open>ObservabilityCorrect\<close> shows that a
  recorded URL tells nothing of its secrets and keeps the rest, that the metrics account for every request
  under any interleaving (the inductive relation \<open>serving\<close>), and that a span is closed and marked however
  the handler ends.

  \<^bold>\<open>Charts\<close> (\<open>src/chart\<close>). \<open>ChartPalette\<close> (\<open>palette.go\<close>), \<open>ChartParameters\<close> (\<open>parameters.go\<close>), \<open>ChartSpec\<close>
  (\<open>spec.go\<close>), \<open>ChartScale\<close> (\<open>scale.go\<close>), \<open>ChartRose\<close> (\<open>windrose.go\<close>), \<open>ChartBuild\<close> (\<open>chart.go\<close>, the
  constructors and the resolution of a specification), \<open>ChartDraw\<close> (\<open>draw.go\<close>, \<open>text.go\<close>), \<open>ChartLayout\<close>
  (\<open>layout.go\<close>), \<open>ChartPaint\<close> (\<open>build.go\<close>, the drawing up to \<open>Build\<close> and \<open>Render\<close>), \<open>ChartSvg\<close>
  (\<open>svg.go\<close>, \<open>Encode\<close>) and \<open>ChartRaster\<close> (\<open>png.go\<close> as its calls on the raster library, and the pool of font
  faces of \<open>text.go\<close>) follow a chart from the request to the document. Their correctness:
  \<open>ChartTicks\<close> the ticks; \<open>ChartDomain\<close> the vertical domains; \<open>ChartValid\<close> that validation decides exactly
  what it promises; \<open>ChartResolved\<close> that a valid specification resolves to a valid one whose series have
  colours of their own and whose axes contain the data; \<open>ChartRoseCorrect\<close> that a resolved wind rose
  counts every reading once; \<open>ChartSamples\<close> that what \<open>FromSamples\<close> builds is accepted; \<open>ChartColors\<close> that
  rendering a resolved chart fails only where the encoder does; \<open>ChartMarks\<close> where the marks of a series
  stand, and that lines never bridge a gap; \<open>ChartSvg\<close> that text adds no markup to the SVG document;
  \<open>ChartRaster\<close> that no font face has two owners, under any interleaving of renderers (the inductive relation
  \<open>lending\<close>), and that measuring through the pool is the function of the fonts that the layout takes as \<open>M\<close>.

  \<^bold>\<open>Bounds.\<close> A loop that the code bounds by a count recurses on that count; one that may not end is a
  partial function whose \<open>None\<close> is not returning, and its termination is a theorem. Fuel: \<open>step_values\<close> 252
  rounds (a grid axis has at most 250 points and the appended end), \<open>sample_passes\<close> 64 (the source's own
  \<open>range 64\<close>), \<open>halve_density\<close> 2100 (the density underflows after at most 2098 halvings),
  \<open>time_tick_loop\<close> 67 (one skipped instant and 65 ticks); the lemmas show that it does not run out.

  \<^bold>\<open>Parameters.\<close> The Unicode tables behind \<open>ToLower\<close> and \<open>TrimSpace\<close>; the conversion of out-of-range numbers
  to integers (\<open>oob\<close>); the functions of \<open>math\<close> without an exact contract and the shortest decimal form of a
  number; the offsets of the local zone; the clock, read as \<open>now0\<close> where the specification is resolved and
  \<open>now1\<close> where it is drawn; the database driver and what \<open>jsonb\<close> keeps of a document; the tracer, the
  exporter and the loggers; the metrics of the fonts (\<open>M\<close>; in \<open>ChartRaster\<close> the font library), the raster encoder and the JSON marshaller that
  \<open>Encode\<close> dispatches to. The properties that need one name what they rely on: \<open>decimal_libm\<close> that
  \<open>log10\<close> and \<open>pow\<close> are accurate to a small relative error, \<open>plain_numbers\<close> that no shortest form of a
  number contains an angle bracket.

  \<^bold>\<open>Not modelled.\<close> Of the package \<open>chart\<close> only what the raster library paints, the recycling of the buffers
  of the PNG encoder and the JSON text that \<open>json.Marshal\<close> gives a drawing; what Prometheus, OpenTelemetry and zap do with the calls
  made on them; the fx modules and the generator of the embedded polygons, which only call libraries.
  Locks are not modelled: each operation under its lock is one step.
\<close>

end
